theory Spec2Isabelle
  imports Complex_Main "HOL-Library.Char_ord" "HOL-Library.List_Lexorder" "HOL-Library.Sublist"
begin

section \<open>JavaScript values\<close>

text \<open>
  The rows and tick values handled by the tree builder are JavaScript values of type
  \<^verbatim>\<open>OlliValue = string | number | Date\<close>. A number is modelled as an exact rational
  or \<open>NaN\<close>: the arithmetic of the interval binner (one addition, one subtraction) and
  the comparisons of the filters are then the JavaScript ones wherever no rounding
  and no overflow to an infinity occurs. A \<^verbatim>\<open>Date\<close> is its time value (milliseconds
  since the epoch, \<open>NaN\<close> for an invalid date). \<open>Undefined\<close> is what a field missing
  from a row, or an index outside an array, reads as.
\<close>

datatype num = Num rat | NaN

datatype Date = Date (getTime: num)

datatype OlliValue = Undefined | VStr string | VNum num | VDate Date

abbreviation Number :: "rat \<Rightarrow> OlliValue" where
  "Number r \<equiv> VNum (Num r)"

definition num_sub :: "num \<Rightarrow> num \<Rightarrow> num" where
  "num_sub a b = (case (a, b) of (Num x, Num y) \<Rightarrow> Num (x - y) | _ \<Rightarrow> NaN)"

definition num_add :: "num \<Rightarrow> num \<Rightarrow> num" where
  "num_add a b = (case (a, b) of (Num x, Num y) \<Rightarrow> Num (x + y) | _ \<Rightarrow> NaN)"

text \<open>\<^verbatim>\<open>a < b\<close> on numbers: \<open>None\<close> is the "undefined" outcome of a comparison with NaN.\<close>

definition num_less :: "num \<Rightarrow> num \<Rightarrow> bool option" where
  "num_less a b = (case (a, b) of (Num x, Num y) \<Rightarrow> Some (x < y) | _ \<Rightarrow> None)"

subsection \<open>\<^verbatim>\<open>Number(s)\<close> for a string\<close>

text \<open>
  The string is trimmed; the empty string is 0; a decimal literal (optional sign, digits,
  optional fraction, optional exponent) is its value; everything else is NaN. The
  literal \<^verbatim>\<open>Infinity\<close> and the prefixes \<^verbatim>\<open>0x\<close>, \<^verbatim>\<open>0o\<close>, \<^verbatim>\<open>0b\<close> are outside the model.
\<close>

definition isWhiteSpace :: "char \<Rightarrow> bool" where
  "isWhiteSpace c = (c \<in> set [CHR '' '', CHR 0x09, CHR 0x0A, CHR 0x0B, CHR 0x0C, CHR 0x0D])"

definition trim :: "string \<Rightarrow> string" where
  "trim s = rev (dropWhile isWhiteSpace (rev (dropWhile isWhiteSpace s)))"

definition isDigit :: "char \<Rightarrow> bool" where
  "isDigit c = (CHR ''0'' \<le> c \<and> c \<le> CHR ''9'')"

definition digitVal :: "char \<Rightarrow> int" where
  "digitVal c = of_char c - 48"

definition parseDigits :: "string \<Rightarrow> int" where
  "parseDigits ds = foldl (\<lambda>n c. 10 * n + digitVal c) 0 ds"

definition pow10 :: "int \<Rightarrow> rat" where
  "pow10 e = (if 0 \<le> e then 10 ^ nat e else 1 / 10 ^ nat (- e))"

definition splitSign :: "string \<Rightarrow> rat \<times> string" where
  "splitSign s = (case s of
       c # r \<Rightarrow> if c = CHR ''-'' then (- 1, r) else if c = CHR ''+'' then (1, r) else (1, s)
     | [] \<Rightarrow> (1, s))"

definition parseExponent :: "string \<Rightarrow> int option" where
  "parseExponent s = (case s of
       [] \<Rightarrow> Some 0
     | c # r \<Rightarrow>
         if c = CHR ''e'' \<or> c = CHR ''E'' then
           (let (sg, ds) = splitSign r in
            if ds \<noteq> [] \<and> list_all isDigit ds
            then Some (if sg < 0 then - parseDigits ds else parseDigits ds)
            else None)
         else None)"

definition Number_str :: "string \<Rightarrow> num" where
  "Number_str s =
     (let t = trim s in
      if t = [] then Num 0
      else
        (let (sg, u) = splitSign t;
             ip = takeWhile isDigit u;
             r1 = dropWhile isDigit u;
             (fp, r2) = (case r1 of
                 c # r \<Rightarrow> if c = CHR ''.'' then (takeWhile isDigit r, dropWhile isDigit r)
                          else ([], r1)
               | [] \<Rightarrow> ([], r1))
         in if ip = [] \<and> fp = [] then NaN
            else (case parseExponent r2 of
                    None \<Rightarrow> NaN
                  | Some e \<Rightarrow>
                      Num (sg * of_int (parseDigits (ip @ fp)) * pow10 (e - int (length fp))))))"

subsection \<open>\<^verbatim>\<open>String(n)\<close> for a number\<close>

text \<open>
  \<^verbatim>\<open>Number::toString\<close>: with \<open>s\<close> the significant digits (\<open>k\<close> of them) and \<open>n\<close>
  the position of the decimal point, plain digits for \<open>k \<le> n \<le> 21\<close>, a decimal point
  inside for \<open>0 < n \<le> 21\<close>, leading zeros for \<open>-6 < n \<le> 0\<close>, exponent notation
  otherwise. JavaScript prints the shortest digits that read back as the same double;
  the model prints the digits of the rational, at most 17 of them, which is the same
  string for every number with up to 15 significant decimal digits.
\<close>

function decimal :: "int \<Rightarrow> string" where
  "decimal n = (if n < 10 then [char_of (48 + n)] else decimal (n div 10) @ [char_of (48 + n mod 10)])"
  by pat_completeness auto
termination
  by (relation "measure nat") auto

definition show_pos :: "rat \<Rightarrow> string" where
  "show_pos r =
     (let (a, b) = quotient_of r;
          d = int (length (decimal a)) - int (length (decimal b));
          n0 = (if r < pow10 d then d else d + 1);
          m = \<lfloor>r * pow10 (17 - n0) + 1 / 2\<rfloor>;
          (n, m') = (if 10 ^ 17 \<le> m then (n0 + 1, m div 10) else (n0, m));
          ds = rev (dropWhile (\<lambda>c. c = CHR ''0'') (rev (decimal m')));
          k = int (length ds);
          e = n - 1
      in if k \<le> n \<and> n \<le> 21 then ds @ replicate (nat (n - k)) (CHR ''0'')
         else if 0 < n \<and> n \<le> 21 then take (nat n) ds @ ''.'' @ drop (nat n) ds
         else if - 6 < n \<and> n \<le> 0 then ''0.'' @ replicate (nat (- n)) (CHR ''0'') @ ds
         else take 1 ds @ (if k = 1 then [] else ''.'' @ drop 1 ds) @ ''e''
              @ (if 0 \<le> e then ''+'' else ''-'') @ decimal \<bar>e\<bar>)"

definition Number_toString :: "num \<Rightarrow> string" where
  "Number_toString x = (case x of
       NaN \<Rightarrow> ''NaN''
     | Num r \<Rightarrow> if r = 0 then ''0'' else if r < 0 then ''-'' @ show_pos (- r) else show_pos r)"

subsection \<open>Dates\<close>

text \<open>
  \<^verbatim>\<open>new Date(t)\<close> keeps a time value of at most 8.64e15 in magnitude, truncated to an
  integer. The calendar fields are those of the proleptic Gregorian calendar, read in
  UTC (the local time zone of the run is taken to be UTC).
\<close>

definition newDate :: "num \<Rightarrow> Date" where
  "newDate t = (case t of
       NaN \<Rightarrow> Date NaN
     | Num r \<Rightarrow> if 8640000000000000 < \<bar>r\<bar> then Date NaN
                else Date (Num (of_int (if 0 \<le> r then \<lfloor>r\<rfloor> else \<lceil>r\<rceil>))))"

text \<open>Year, month (1 to 12) and day of the month of a day number (days since 1970-01-01).\<close>

definition civil :: "int \<Rightarrow> int \<times> int \<times> int" where
  "civil days =
     (let z = days + 719468;
          era = z div 146097;
          doe = z mod 146097;
          yoe = (doe - doe div 1460 + doe div 36524 - doe div 146096) div 365;
          doy = doe - (365 * yoe + yoe div 4 - yoe div 100);
          mp = (5 * doy + 2) div 153;
          d = doy - (153 * mp + 2) div 5 + 1;
          m = (if mp < 10 then mp + 3 else mp - 9);
          y = yoe + era * 400
      in (if m \<le> 2 then y + 1 else y, m, d))"

definition dayOf :: "rat \<Rightarrow> int" where
  "dayOf t = \<lfloor>t\<rfloor> div 86400000"

definition getFullYear :: "Date \<Rightarrow> num" where
  "getFullYear d = (case getTime d of
       NaN \<Rightarrow> NaN
     | Num t \<Rightarrow> Num (of_int (fst (civil (dayOf t)))))"

definition pad :: "nat \<Rightarrow> string \<Rightarrow> string" where
  "pad w s = replicate (w - length s) (CHR ''0'') @ s"

definition monthName :: "int \<Rightarrow> string" where
  "monthName m = [''Jan'', ''Feb'', ''Mar'', ''Apr'', ''May'', ''Jun'',
                  ''Jul'', ''Aug'', ''Sep'', ''Oct'', ''Nov'', ''Dec''] ! nat (m - 1)"

definition weekdayName :: "int \<Rightarrow> string" where
  "weekdayName days = [''Thu'', ''Fri'', ''Sat'', ''Sun'', ''Mon'', ''Tue'', ''Wed''] ! nat (days mod 7)"

definition showYear :: "int \<Rightarrow> string" where
  "showYear y = (if 0 \<le> y then pad 4 (decimal y) else ''-'' @ pad 6 (decimal (- y)))"

text \<open>\<^verbatim>\<open>Date.prototype.toString\<close>, as V8 prints it in UTC.\<close>

definition Date_toString :: "Date \<Rightarrow> string" where
  "Date_toString d = (case getTime d of
       NaN \<Rightarrow> ''Invalid Date''
     | Num t \<Rightarrow>
         (let ms = \<lfloor>t\<rfloor>;
              days = ms div 86400000;
              secs = (ms mod 86400000) div 1000;
              (y, m, dd) = civil days
          in weekdayName days @ '' '' @ monthName m @ '' '' @ pad 2 (decimal dd) @ '' ''
             @ showYear y @ '' '' @ pad 2 (decimal (secs div 3600)) @ '':''
             @ pad 2 (decimal ((secs div 60) mod 60)) @ '':''
             @ pad 2 (decimal (secs mod 60)) @ '' GMT+0000 (Coordinated Universal Time)''))"

subsection \<open>Conversions and operators on values\<close>

text \<open>\<^verbatim>\<open>ToNumber\<close>, with \<^verbatim>\<open>undefined\<close> going to NaN and a date to its time value.\<close>

definition ToNumber :: "OlliValue \<Rightarrow> num" where
  "ToNumber v = (case v of
       Undefined \<Rightarrow> NaN
     | VStr s \<Rightarrow> Number_str s
     | VNum n \<Rightarrow> n
     | VDate d \<Rightarrow> getTime d)"

text \<open>\<^verbatim>\<open>String(v)\<close>, which is also how a template literal renders \<open>v\<close>.\<close>

definition String :: "OlliValue \<Rightarrow> string" where
  "String v = (case v of
       Undefined \<Rightarrow> ''undefined''
     | VStr s \<Rightarrow> s
     | VNum n \<Rightarrow> Number_toString n
     | VDate d \<Rightarrow> Date_toString d)"

text \<open>\<^verbatim>\<open>a - b\<close>: both operands are converted to numbers.\<close>

definition js_minus :: "OlliValue \<Rightarrow> OlliValue \<Rightarrow> OlliValue" where
  "js_minus a b = VNum (num_sub (ToNumber a) (ToNumber b))"

text \<open>
  \<^verbatim>\<open>a + b\<close>: when either operand is a string, or a date (whose default primitive is its
  string), the two are concatenated as strings; otherwise they are added as numbers.
\<close>

definition isStringy :: "OlliValue \<Rightarrow> bool" where
  "isStringy v = (case v of VStr _ \<Rightarrow> True | VDate _ \<Rightarrow> True | _ \<Rightarrow> False)"

definition js_plus :: "OlliValue \<Rightarrow> OlliValue \<Rightarrow> OlliValue" where
  "js_plus a b =
     (if isStringy a \<or> isStringy b then VStr (String a @ String b)
      else VNum (num_add (ToNumber a) (ToNumber b)))"

text \<open>
  \<^verbatim>\<open>a < b\<close>: two strings are compared as strings (by code unit), anything else as
  numbers, a date by its time value. \<^verbatim>\<open>a >= b\<close> is true exactly when \<^verbatim>\<open>a < b\<close> is
  false (and not undefined).
\<close>

definition js_less :: "OlliValue \<Rightarrow> OlliValue \<Rightarrow> bool option" where
  "js_less a b = (case (a, b) of
       (VStr s, VStr t) \<Rightarrow> Some (s < t)
     | _ \<Rightarrow> num_less (ToNumber a) (ToNumber b))"

definition js_lt :: "OlliValue \<Rightarrow> OlliValue \<Rightarrow> bool" where
  "js_lt a b = (js_less a b = Some True)"

definition js_ge :: "OlliValue \<Rightarrow> OlliValue \<Rightarrow> bool" where
  "js_ge a b = (js_less a b = Some False)"

text \<open>\<^verbatim>\<open>v === 0\<close>: only the number zero.\<close>

definition isZero :: "OlliValue \<Rightarrow> bool" where
  "isZero v = (v = VNum (Num 0))"

text \<open>Reading \<^verbatim>\<open>array[i]\<close>: \<^verbatim>\<open>undefined\<close> outside the array.\<close>

definition arr_at :: "OlliValue list \<Rightarrow> int \<Rightarrow> OlliValue" where
  "arr_at array i = (if 0 \<le> i \<and> i < int (length array) then array ! nat i else Undefined)"

section \<open>Data Filter\<close>

text \<open>A row (\<^verbatim>\<open>OlliDatum\<close>) is an object: its fields in order, read by name.\<close>

type_synonym OlliDatum = "(string \<times> OlliValue) list"

definition field_of :: "OlliDatum \<Rightarrow> string \<Rightarrow> OlliValue" where
  "field_of datum f = (case map_of datum f of None \<Rightarrow> Undefined | Some v \<Rightarrow> v)"

definition isDateValue :: "OlliValue \<Rightarrow> bool" where
  "isDateValue v = (case v of VDate _ \<Rightarrow> True | _ \<Rightarrow> False)"

definition yearOf :: "OlliValue \<Rightarrow> OlliValue" where
  "yearOf v = (case v of VDate d \<Rightarrow> VNum (getFullYear d) | _ \<Rightarrow> v)"

definition filterInterval :: "OlliDatum list \<Rightarrow> string \<Rightarrow> OlliValue \<Rightarrow> OlliValue \<Rightarrow> OlliDatum list" where
  "filterInterval selection field lowerBound upperBound =
     filter (\<lambda>datum.
        let v = field_of datum field;
            value = (if isDateValue v \<and> length (String lowerBound) = 4 \<and> length (String upperBound) = 4
                     then yearOf v else v)
        in js_ge value lowerBound \<and> js_lt value upperBound) selection"

section \<open>Interval Binner\<close>

definition isStringValue :: "OlliValue \<Rightarrow> bool" where
  "isStringValue v = (case v of VStr _ \<Rightarrow> True | _ \<Rightarrow> False)"

definition replaceAllCommas :: "string \<Rightarrow> string" where
  "replaceAllCommas s = filter (\<lambda>c. c \<noteq> CHR '','') s"

text \<open>
  \<^verbatim>\<open>ensureAxisValuesNumeric\<close>: an array of strings is parsed (commas removed), an array of
  dates becomes its time values with \<open>isDate\<close> set, any other array is returned as it is.
\<close>

definition ensureAxisValuesNumeric :: "OlliValue list \<Rightarrow> OlliValue list \<times> bool" where
  "ensureAxisValuesNumeric values =
     (if list_all isStringValue values
      then (map (\<lambda>s. VNum (ToNumber (VStr (replaceAllCommas (String s))))) values, False)
      else if list_all isDateValue values
      then (map (\<lambda>d. VNum (ToNumber d)) values, True)
      else (values, False))"

type_synonym Interval = "OlliValue \<times> OlliValue"

definition getEncodingValueIncrements ::
    "Interval list \<Rightarrow> OlliValue \<Rightarrow> nat \<Rightarrow> OlliValue list \<Rightarrow> Interval list" where
  "getEncodingValueIncrements incrementArray currentValue index array =
     (let reducedIndex = int index - 1 in
      if index = 0 \<and> isZero currentValue then incrementArray
      else if reducedIndex = - 1 \<and> \<not> isZero currentValue then
        (let incrementDifference = js_minus (arr_at array (int index + 1)) currentValue
         in incrementArray @ [(js_minus currentValue incrementDifference, currentValue)])
      else if int index = int (length array) - 1 then
        (let incrementDifference = js_minus currentValue (arr_at array (int index - 1));
             finalIncrement = js_plus currentValue incrementDifference
         in incrementArray @ [(arr_at array reducedIndex, currentValue)]
                           @ [(currentValue, finalIncrement)])
      else incrementArray @ [(arr_at array reducedIndex, arr_at array (reducedIndex + 1))])"

text \<open>\<^verbatim>\<open>array.reduce(f, init)\<close>, which hands \<open>f\<close> the index and the whole array.\<close>

definition reduce :: "('b \<Rightarrow> 'a \<Rightarrow> nat \<Rightarrow> 'a list \<Rightarrow> 'b) \<Rightarrow> 'b \<Rightarrow> 'a list \<Rightarrow> 'b" where
  "reduce f init array = foldl (\<lambda>acc (i, x). f acc x i array) init (zip [0..<length array] array)"

definition axisValuesToIntervals :: "OlliValue list \<Rightarrow> Interval list" where
  "axisValuesToIntervals values =
     (let (vals, isDate) = ensureAxisValuesNumeric values;
          increments = reduce getEncodingValueIncrements [] vals
      in if isDate
         then map (\<lambda>value. (VDate (newDate (ToNumber (fst value))), VDate (newDate (ToNumber (snd value)))))
                increments
         else increments)"

section \<open>Visualization specs and tree nodes\<close>

datatype GuideType = G_discrete | G_continuous

datatype AxisType = A_x | A_y

text \<open>
  A guide is an axis or a legend. Both are objects read through the casts \<^verbatim>\<open>as Axis\<close>
  and \<^verbatim>\<open>as Legend\<close>, so one record holds the fields of either; \<open>axisType\<close> is absent
  from a legend and \<open>channel\<close> from an axis. \<open>gtype\<close> is the field \<^verbatim>\<open>type\<close>. The
  string tags of the source (\<^verbatim>\<open>'discrete'\<close>, \<^verbatim>\<open>'x'\<close>, \<^verbatim>\<open>'chart'\<close>, \<^verbatim>\<open>'xAxis'\<close>, \<^verbatim>\<open>'name'\<close>, ...) are
  constructors, prefixed by the letter of their type.
\<close>

record Guide =
  "values" :: "OlliValue list"
  title :: "string option"
  field :: string
  scaleType :: "string option"
  gtype :: GuideType
  axisType :: "AxisType option"
  channel :: "string option"

record Chart =
  mark :: "string option"
  axes :: "Guide list"
  legends :: "Guide list"
  data :: "OlliDatum list"
  chart_title :: "string option"

text \<open>\<open>charts\<close> is a \<^verbatim>\<open>Map\<close> from facet value to chart: its entries in insertion order.\<close>

record FacetedChart =
  facetedField :: string
  charts :: "(string \<times> Chart) list"
  faceted_data :: "OlliDatum list"
  faceted_title :: "string option"

datatype OlliVisSpec = S_chart Chart | S_facetedChart FacetedChart

datatype NodeType =
  N_multiView | N_chart | N_xAxis | N_yAxis | N_legend | N_grid | N_filteredData | N_data

datatype TokenType =
  T_name | T_index | T_type | T_children | T_data | T_size | T_parent | T_aggregate

datatype EncodingFilterValue = FilterString string | FilterRange OlliValue OlliValue

datatype FilterValue = Encoding EncodingFilterValue | Grid EncodingFilterValue EncodingFilterValue

text \<open>
  A node of the accessibility tree. The source's \<^verbatim>\<open>parent\<close> is a reference to the
  parent node, of which only the type is ever read; the model keeps that type.
  \<open>description\<close> is the \<^verbatim>\<open>Map\<close> from token to its short and long text, in insertion order.
\<close>

datatype AccessibilityTreeNode =
  Node (ntype: NodeType) (parentType: "NodeType option") (selected: "OlliDatum list")
       (filterValue: "FilterValue option") (gridIndex: "(nat \<times> nat) option")
       (description: "(TokenType \<times> string \<times> string) list")
       (childNodes: "AccessibilityTreeNode list") (tableKeys: "string list option")

record AccessibilityTree =
  root :: AccessibilityTreeNode
  fieldsUsed :: "string list"

text \<open>
  What the code throws. Inside \<^verbatim>\<open>nodeToDesc\<close> every exception is caught and thrown again
  as \<^verbatim>\<open>Node type ... not handled in nodeToDesc\<close>.
\<close>

datatype error =
    TypeError
  | NoSuchToken NodeType TokenType
  | NotHandledInNodeToDesc NodeType

section \<open>Description Token Generator\<close>

subsection \<open>Formatting\<close>

text \<open>\<^verbatim>\<open>a || b\<close> on an optional string: the absent and the empty string are falsy.\<close>

definition orElse :: "string option \<Rightarrow> string option \<Rightarrow> string option" where
  "orElse a b = (case a of Some s \<Rightarrow> if s = [] then b else a | None \<Rightarrow> b)"

definition truthy :: "string option \<Rightarrow> bool" where
  "truthy a = (case a of Some s \<Rightarrow> s \<noteq> [] | None \<Rightarrow> False)"

text \<open>An optional string inside a template literal.\<close>

definition render :: "string option \<Rightarrow> string" where
  "render a = (case a of Some s \<Rightarrow> s | None \<Rightarrow> ''undefined'')"

text \<open>\<^verbatim>\<open>xs.join(sep)\<close>.\<close>

fun join :: "string \<Rightarrow> string list \<Rightarrow> string" where
  "join sep [] = []"
| "join sep [s] = s"
| "join sep (s # t # ss) = s @ sep @ join sep (t # ss)"

text \<open>\<^verbatim>\<open>x.toFixed(2)\<close>: the nearest multiple of 1/100, the larger one at a tie.\<close>

definition toFixed2 :: "rat \<Rightarrow> string" where
  "toFixed2 r =
     (if 10 ^ 21 \<le> \<bar>r\<bar> then Number_toString (Num r)
      else (let n = \<lfloor>\<bar>r\<bar> * 100 + 1 / 2\<rfloor>
            in (if r < 0 then ''-'' else []) @ decimal (n div 100) @ ''.'' @ pad 2 (decimal (n mod 100))))"

text \<open>\<^verbatim>\<open>d.toLocaleString("en-US", {year: 'numeric', month: 'short', day: 'numeric'})\<close>.\<close>

definition toLocaleString :: "Date \<Rightarrow> string" where
  "toLocaleString d = (case getTime d of
       NaN \<Rightarrow> ''Invalid Date''
     | Num t \<Rightarrow> (let (yy, m, dd) = civil (dayOf t)
                in monthName m @ '' '' @ decimal dd @ '', '' @ decimal yy))"

text \<open>
  Modelled from the spec: \<^verbatim>\<open>fmtValue\<close> of \<^verbatim>\<open>../utils\<close>, which is not among the sources.
  "Non-integer numbers render to 2 decimal places; dates render as
  \<^verbatim>\<open>{Month} {Day}, {Year}\<close>"; any other value is rendered as it is.
\<close>

definition fmtValue :: "OlliValue \<Rightarrow> string" where
  "fmtValue v = (case v of
       VDate d \<Rightarrow> toLocaleString d
     | VNum (Num r) \<Rightarrow> if of_int \<lfloor>r\<rfloor> \<noteq> r then toFixed2 r else String v
     | _ \<Rightarrow> String v)"

text \<open>\<^verbatim>\<open>Math.round\<close>, \<^verbatim>\<open>Math.max\<close>, \<^verbatim>\<open>Math.min\<close> and \<^verbatim>\<open>a / n\<close>.\<close>

definition Math_round :: "num \<Rightarrow> num" where
  "Math_round a = (case a of Num r \<Rightarrow> Num (of_int \<lfloor>r + 1 / 2\<rfloor>) | NaN \<Rightarrow> NaN)"

definition Math_max :: "num \<Rightarrow> num \<Rightarrow> num" where
  "Math_max a b = (case (a, b) of (Num p, Num q) \<Rightarrow> Num (max p q) | _ \<Rightarrow> NaN)"

definition Math_min :: "num \<Rightarrow> num \<Rightarrow> num" where
  "Math_min a b = (case (a, b) of (Num p, Num q) \<Rightarrow> Num (min p q) | _ \<Rightarrow> NaN)"

text \<open>
  The quotient of a sum by a row count. A zero count only goes with the sum 0 of no
  rows, and 0 / 0 is NaN; a NaN sum stays NaN.
\<close>

definition num_div :: "num \<Rightarrow> nat \<Rightarrow> num" where
  "num_div a n = (case a of Num r \<Rightarrow> if n = 0 then NaN else Num (r / of_nat n) | NaN \<Rightarrow> NaN)"

subsection \<open>The helpers of \<^verbatim>\<open>_nodeToDesc\<close>\<close>

definition spec_title :: "OlliVisSpec \<Rightarrow> string option" where
  "spec_title spec = (case spec of S_chart c \<Rightarrow> chart_title c | S_facetedChart f \<Rightarrow> faceted_title f)"

text \<open>The spec read through the cast \<^verbatim>\<open>as Chart\<close>: a faceted chart has no mark and no axes.\<close>

definition spec_mark :: "OlliVisSpec \<Rightarrow> string option" where
  "spec_mark spec = (case spec of S_chart c \<Rightarrow> mark c | S_facetedChart f \<Rightarrow> None)"

definition spec_axes :: "OlliVisSpec \<Rightarrow> error + Guide list" where
  "spec_axes spec = (case spec of S_chart c \<Rightarrow> Inr (axes c) | S_facetedChart f \<Rightarrow> Inl TypeError)"

definition chartType :: "OlliVisSpec \<Rightarrow> error + string" where
  "chartType spec =
     (if spec_mark spec = Some ''point'' then
        (case spec_axes spec of
           Inl e \<Rightarrow> Inl e
         | Inr as \<Rightarrow> Inr (if list_all (\<lambda>a. gtype a = G_continuous) as then ''scatterplot'' else ''dot plot''))
      else Inr (if truthy (spec_mark spec) then render (spec_mark spec) @ '' chart'' else []))"

definition chartTitle :: "OlliVisSpec \<Rightarrow> string option \<Rightarrow> string" where
  "chartTitle spec facetValue =
     (if truthy (orElse (spec_title spec) facetValue)
      then ''\"'' @ render (orElse (spec_title spec) facetValue) @ ''\"'' else [])"

definition titleOrField :: "Guide \<Rightarrow> string" where
  "titleOrField g = render (orElse (title g) (Some (field g)))"

definition guideTitle :: "Guide \<Rightarrow> string" where
  "guideTitle g = ''titled \"'' @ titleOrField g @ ''\"''"

definition showGuideType :: "GuideType \<Rightarrow> string" where
  "showGuideType t = (case t of G_discrete \<Rightarrow> ''discrete'' | G_continuous \<Rightarrow> ''continuous'')"

definition showAxisType :: "AxisType option \<Rightarrow> string" where
  "showAxisType t = (case t of Some A_x \<Rightarrow> ''x'' | Some A_y \<Rightarrow> ''y'' | None \<Rightarrow> ''undefined'')"

definition axisScaleType :: "Guide \<Rightarrow> string" where
  "axisScaleType a = render (orElse (scaleType a) (Some (showGuideType (gtype a)))) @ '' scale''"

definition legendChannel :: "Guide \<Rightarrow> string" where
  "legendChannel l = (if truthy (channel l) then ''for '' @ render (channel l) else [])"

definition showNat :: "nat \<Rightarrow> string" where
  "showNat n = decimal (int n)"

definition pluralize :: "nat \<Rightarrow> string \<Rightarrow> string" where
  "pluralize count noun = showNat count @ '' '' @ noun @ (if count \<noteq> 1 then ''s'' else [])"

definition facetValueStr :: "string option \<Rightarrow> string" where
  "facetValueStr facetValue = (if truthy facetValue then render facetValue else [])"

definition filteredValues :: "EncodingFilterValue option \<Rightarrow> string" where
  "filteredValues v = (case v of
       None \<Rightarrow> []
     | Some (FilterString s) \<Rightarrow> if s = [] then [] else ''\"'' @ s @ ''\"''
     | Some (FilterRange a b) \<Rightarrow> join '' to '' [fmtValue a, fmtValue b])"

text \<open>
  \<^verbatim>\<open>filteredValues\<close> of one bound of a range, as the cast to \<^verbatim>\<open>GridFilterValue\<close> reads a
  filter value that is a single range: a falsy bound gives the empty text.
\<close>

definition falsy :: "OlliValue \<Rightarrow> bool" where
  "falsy v = (case v of
       Undefined \<Rightarrow> True
     | VStr s \<Rightarrow> s = []
     | VNum n \<Rightarrow> n = NaN \<or> n = Num 0
     | VDate _ \<Rightarrow> False)"

definition filteredValuesGrid :: "FilterValue option \<Rightarrow> string" where
  "filteredValuesGrid v = (case v of
       None \<Rightarrow> []
     | Some (Grid a b) \<Rightarrow> ''in '' @ filteredValues (Some a) @ '' and '' @ filteredValues (Some b)
     | Some (Encoding (FilterString s)) \<Rightarrow>
         if s = [] then []
         else ''in '' @ filteredValues (Some (FilterString (take 1 s)))
              @ '' and '' @ filteredValues (Some (FilterString (take 1 (drop 1 s))))
     | Some (Encoding (FilterRange a b)) \<Rightarrow>
         ''in '' @ (if falsy a then [] else ''\"'' @ fmtValue a @ ''\"'')
         @ '' and '' @ (if falsy b then [] else ''\"'' @ fmtValue b @ ''\"''))"

definition indexStr :: "nat option \<Rightarrow> nat option \<Rightarrow> string" where
  "indexStr idx len = (case (idx, len) of
       (Some i, Some n) \<Rightarrow> showNat (i + 1) @ '' of '' @ showNat n
     | _ \<Rightarrow> [])"

definition datum_text :: "OlliDatum \<Rightarrow> AccessibilityTreeNode \<Rightarrow> string" where
  "datum_text datum node = (case tableKeys node of
       None \<Rightarrow> ''undefined''
     | Some keys \<Rightarrow>
         join '', '' (map (\<lambda>f. ''\"'' @ f @ ''\": \"'' @ fmtValue (field_of datum f) @ ''\"'') keys))"

definition averageValue :: "AccessibilityTreeNode \<Rightarrow> Guide \<Rightarrow> string" where
  "averageValue node axis =
     (if scaleType axis \<noteq> Some ''quantitative'' then []
      else Number_toString (Math_round (num_div
             (foldl (\<lambda>a b. num_add a (ToNumber (field_of b (field axis)))) (Num 0) (selected node))
             (length (selected node)))))"

definition maximumValue :: "AccessibilityTreeNode \<Rightarrow> Guide \<Rightarrow> error + string" where
  "maximumValue node axis =
     (if scaleType axis \<noteq> Some ''quantitative'' then Inr []
      else (case selected node of
              [] \<Rightarrow> Inl TypeError
            | first # _ \<Rightarrow>
                Inr (Number_toString
                  (foldl (\<lambda>a b. Math_max a (ToNumber (field_of b (field axis))))
                     (ToNumber (field_of first (field axis))) (selected node)))))"

definition minimumValue :: "AccessibilityTreeNode \<Rightarrow> Guide \<Rightarrow> error + string" where
  "minimumValue node axis =
     (if scaleType axis \<noteq> Some ''quantitative'' then Inr []
      else (case selected node of
              [] \<Rightarrow> Inl TypeError
            | first # _ \<Rightarrow>
                Inr (Number_toString
                  (foldl (\<lambda>a b. Math_min a (ToNumber (field_of b (field axis))))
                     (ToNumber (field_of first (field axis))) (selected node)))))"

subsection \<open>The token functions\<close>

text \<open>\<^verbatim>\<open>Array(2).fill(s)\<close>: the short and the long text are the same.\<close>

definition both :: "string \<Rightarrow> string \<times> string" where
  "both s = (s, s)"

definition withTitled :: "string \<Rightarrow> string" where
  "withTitled t = (if 0 < length t then ''titled '' @ t else t)"

text \<open>
  In \<^verbatim>\<open>name\<close> the \<^verbatim>\<open>chart\<close> case assigns to the \<^verbatim>\<open>title\<close> that the \<^verbatim>\<open>multiView\<close> case declares
  with \<^verbatim>\<open>let\<close>. The code is read as its ES5 build runs it, where the declaration is a
  \<^verbatim>\<open>var\<close> and the assignment an ordinary one. (Run as ES2015, the assignment is to a
  binding that is not yet initialised and throws, for every chart node.)
\<close>

definition token_name ::
    "AccessibilityTreeNode \<Rightarrow> OlliVisSpec \<Rightarrow> string option \<Rightarrow> Guide option \<Rightarrow> error + string \<times> string" where
  "token_name node spec facetValue guide = (case ntype node of
       N_multiView \<Rightarrow>
         (let t = chartTitle spec facetValue; n = showNat (length (childNodes node))
          in Inr (''faceted chart '' @ t @ '', '' @ n @ '' views'',
                  ''a faceted chart '' @ withTitled t @ '' with '' @ n @ '' views''))
     | N_chart \<Rightarrow> (let t = chartTitle spec facetValue in Inr (t, withTitled t))
     | N_xAxis \<Rightarrow> (case guide of
           None \<Rightarrow> Inl TypeError
         | Some axis \<Rightarrow> Inr (both (showAxisType (axisType axis) @ ''-axis '' @ guideTitle axis)))
     | N_yAxis \<Rightarrow> (case guide of
           None \<Rightarrow> Inl TypeError
         | Some axis \<Rightarrow> Inr (both (showAxisType (axisType axis) @ ''-axis '' @ guideTitle axis)))
     | N_legend \<Rightarrow> (case guide of
           None \<Rightarrow> Inl TypeError
         | Some l \<Rightarrow> Inr (both (''legend '' @ guideTitle l)))
     | N_grid \<Rightarrow> (case chartType spec of
           Inl e \<Rightarrow> Inl e
         | Inr t \<Rightarrow> Inr (''grid'', ''grid view of '' @ t))
     | _ \<Rightarrow> Inl (NoSuchToken (ntype node) T_name))"

definition token_index ::
    "AccessibilityTreeNode \<Rightarrow> nat option \<Rightarrow> nat option \<Rightarrow> error + string \<times> string" where
  "token_index node idx len = (case ntype node of
       N_chart \<Rightarrow> Inr (both (indexStr idx len))
     | N_filteredData \<Rightarrow> Inr (both (indexStr idx len))
     | _ \<Rightarrow> Inl (NoSuchToken (ntype node) T_index))"

definition token_type ::
    "AccessibilityTreeNode \<Rightarrow> OlliVisSpec \<Rightarrow> Guide option \<Rightarrow> error + string \<times> string" where
  "token_type node spec guide = (case ntype node of
       N_chart \<Rightarrow> (case chartType spec of Inl e \<Rightarrow> Inl e | Inr t \<Rightarrow> Inr (both t))
     | N_xAxis \<Rightarrow> (case guide of
           None \<Rightarrow> Inl TypeError
         | Some axis \<Rightarrow> Inr (axisScaleType axis, ''for a '' @ axisScaleType axis))
     | N_yAxis \<Rightarrow> (case guide of
           None \<Rightarrow> Inl TypeError
         | Some axis \<Rightarrow> Inr (axisScaleType axis, ''for a '' @ axisScaleType axis))
     | N_legend \<Rightarrow> (case guide of
           None \<Rightarrow> Inl TypeError
         | Some l \<Rightarrow> Inr (both (legendChannel l)))
     | N_grid \<Rightarrow> Inr ([], [])
     | _ \<Rightarrow> Inl (NoSuchToken (ntype node) T_type))"

definition token_children :: "AccessibilityTreeNode \<Rightarrow> OlliVisSpec \<Rightarrow> error + string \<times> string" where
  "token_children node spec = (case ntype node of
       N_chart \<Rightarrow> (case spec_axes spec of
           Inl e \<Rightarrow> Inl e
         | Inr [] \<Rightarrow> Inl TypeError
         | Inr (a # as) \<Rightarrow>
             (let first = titleOrField a;
                  all = map (\<lambda>axis. ''\"'' @ titleOrField axis @ ''\"'') (a # as)
              in if length (a # as) = 1 then Inr (''axis '' @ first, ''with axis '' @ first)
                 else Inr (''axes '' @ join '', '' all, ''with axes '' @ join '' and '' all)))
     | _ \<Rightarrow> Inl (NoSuchToken (ntype node) T_children))"

definition guide_data :: "Guide option \<Rightarrow> error + string \<times> string" where
  "guide_data guide = (case guide of
       None \<Rightarrow> Inl TypeError
     | Some axis \<Rightarrow>
         (let start = fmtValue (arr_at (values axis) 0);
              next = fmtValue (arr_at (values axis) 1);
              end = fmtValue (arr_at (values axis) (int (length (values axis)) - 1));
              total = pluralize (length (values axis)) ''value''
          in Inr (if gtype axis = G_discrete then
                    (if length (values axis) = 2
                     then (''2 values: '' @ start @ '', '' @ next,
                           ''with 2 values: \"'' @ start @ ''\" and \"'' @ next @ ''\"'')
                     else (total @ '' from '' @ start @ '' to '' @ end,
                           ''with '' @ total @ '' starting with \"'' @ start
                             @ ''\" and ending with \"'' @ end @ ''\"''))
                  else (''from '' @ start @ '' to '' @ end,
                        ''with values from \"'' @ start @ ''\" to \"'' @ end @ ''\"''))))"

definition encodingOf :: "FilterValue option \<Rightarrow> EncodingFilterValue option" where
  "encodingOf v = (case v of
       Some (Encoding e) \<Rightarrow> Some e
     | _ \<Rightarrow> None)"

text \<open>
  A filter value of grid shape read through the cast to \<^verbatim>\<open>EncodingFilterValue\<close>: each of
  its two ranges is rendered as an array, its elements joined by a comma.
\<close>

definition arrayText :: "EncodingFilterValue \<Rightarrow> string" where
  "arrayText e = (case e of
       FilterString s \<Rightarrow> s
     | FilterRange a b \<Rightarrow>
         (if a = Undefined then [] else String a) @ '','' @ (if b = Undefined then [] else String b))"

definition token_data :: "AccessibilityTreeNode \<Rightarrow> Guide option \<Rightarrow> error + string \<times> string" where
  "token_data node guide = (case ntype node of
       N_xAxis \<Rightarrow> guide_data guide
     | N_yAxis \<Rightarrow> guide_data guide
     | N_legend \<Rightarrow> guide_data guide
     | N_grid \<Rightarrow> Inr ([], [])
     | N_filteredData \<Rightarrow>
         if parentType node = Some N_grid then Inr (both (filteredValuesGrid (filterValue node)))
         else (case filterValue node of
                 Some (Grid a b) \<Rightarrow> Inr (both (join '' to '' [arrayText a, arrayText b]))
               | v \<Rightarrow> Inr (both (filteredValues (encodingOf v))))
     | N_data \<Rightarrow> (case selected node of
           [] \<Rightarrow> Inr (both (datum_text [] node))
         | d # _ \<Rightarrow> Inr (both (datum_text d node)))
     | _ \<Rightarrow> Inl (NoSuchToken (ntype node) T_data))"

definition token_size :: "AccessibilityTreeNode \<Rightarrow> error + string \<times> string" where
  "token_size node =
     (if ntype node \<in> set [N_xAxis, N_yAxis, N_legend, N_grid, N_filteredData]
      then Inr (both (pluralize (length (childNodes node)) ''value''))
      else Inl (NoSuchToken (ntype node) T_size))"

definition token_parent :: "AccessibilityTreeNode \<Rightarrow> string option \<Rightarrow> error + string \<times> string" where
  "token_parent node facetValue =
     (if ntype node \<in> set [N_xAxis, N_yAxis, N_legend, N_grid, N_filteredData, N_data]
      then (let fvs = facetValueStr facetValue
            in Inr (fvs, if 0 < length fvs then ''\"'' @ fvs @ ''\"'' else fvs))
      else Inl (NoSuchToken (ntype node) T_parent))"

definition axis_aggregate :: "AccessibilityTreeNode \<Rightarrow> Guide option \<Rightarrow> error + string \<times> string" where
  "axis_aggregate node guide = (case guide of
       None \<Rightarrow> Inl TypeError
     | Some axis \<Rightarrow>
         if scaleType axis \<noteq> Some ''quantitative'' then Inr ([], [])
         else (let avg = averageValue node axis in
               case maximumValue node axis of
                 Inl e \<Rightarrow> Inl e
               | Inr mx \<Rightarrow>
                   (case minimumValue node axis of
                      Inl e \<Rightarrow> Inl e
                    | Inr mn \<Rightarrow>
                        Inr (''average '' @ avg @ '', maximum '' @ mx @ '', minimum '' @ mn,
                             ''the average is '' @ avg @ '', the maximum is '' @ mx
                               @ '', and the minimum is '' @ mn))))"

definition token_aggregate :: "AccessibilityTreeNode \<Rightarrow> Guide option \<Rightarrow> error + string \<times> string" where
  "token_aggregate node guide = (case ntype node of
       N_xAxis \<Rightarrow> axis_aggregate node guide
     | N_yAxis \<Rightarrow> axis_aggregate node guide
     | N_legend \<Rightarrow> Inr ([], [])
     | N_grid \<Rightarrow> Inr ([], [])
     | _ \<Rightarrow> Inl (NoSuchToken (ntype node) T_aggregate))"

definition tokenFunctions ::
    "TokenType \<Rightarrow> AccessibilityTreeNode \<Rightarrow> OlliVisSpec \<Rightarrow> string option \<Rightarrow> Guide option
       \<Rightarrow> nat option \<Rightarrow> nat option \<Rightarrow> error + string \<times> string" where
  "tokenFunctions token node spec facetValue guide idx len = (case token of
       T_name \<Rightarrow> token_name node spec facetValue guide
     | T_index \<Rightarrow> token_index node idx len
     | T_type \<Rightarrow> token_type node spec guide
     | T_children \<Rightarrow> token_children node spec
     | T_data \<Rightarrow> token_data node guide
     | T_size \<Rightarrow> token_size node
     | T_parent \<Rightarrow> token_parent node facetValue
     | T_aggregate \<Rightarrow> token_aggregate node guide)"

text \<open>\<^verbatim>\<open>description.set(token, texts)\<close>: a token already present keeps its place.\<close>

fun map_set :: "('k \<times> 'v) list \<Rightarrow> 'k \<Rightarrow> 'v \<Rightarrow> ('k \<times> 'v) list" where
  "map_set [] k v = [(k, v)]"
| "map_set ((k', v') # m) k v = (if k' = k then (k, v) # m else (k', v') # map_set m k v)"

fun describe_tokens ::
    "TokenType list \<Rightarrow> (TokenType \<times> string \<times> string) list \<Rightarrow> AccessibilityTreeNode \<Rightarrow> OlliVisSpec
       \<Rightarrow> string option \<Rightarrow> Guide option \<Rightarrow> nat option \<Rightarrow> nat option
       \<Rightarrow> error + (TokenType \<times> string \<times> string) list" where
  "describe_tokens [] desc node spec facetValue guide idx len = Inr desc"
| "describe_tokens (token # tokens) desc node spec facetValue guide idx len =
     (case tokenFunctions token node spec facetValue guide idx len of
        Inl e \<Rightarrow> Inl e
      | Inr texts \<Rightarrow>
          describe_tokens tokens (map_set desc token texts) node spec facetValue guide idx len)"

text \<open>
  \<^verbatim>\<open>nodeToDesc\<close>. The tokens of a node are
  \<^verbatim>\<open>hierarchyLevelToTokens[nodeTypeToHierarchyLevel[node.type]]\<close>; the two tables are
  declared in \<^verbatim>\<open>./Types\<close>, which is not among the sources, so the lookup is the
  parameter \<open>tokensOf\<close>.
\<close>

definition nodeToDesc ::
    "(NodeType \<Rightarrow> TokenType list) \<Rightarrow> AccessibilityTreeNode \<Rightarrow> OlliVisSpec \<Rightarrow> string option
       \<Rightarrow> Guide option \<Rightarrow> nat option \<Rightarrow> nat option \<Rightarrow> error + (TokenType \<times> string \<times> string) list" where
  "nodeToDesc tokensOf node spec facetValue guide idx len =
     (case describe_tokens (tokensOf (ntype node)) [] node spec facetValue guide idx len of
        Inl e \<Rightarrow> Inl (NotHandledInNodeToDesc (ntype node))
      | Inr desc \<Rightarrow> Inr desc)"

subsection \<open>The token table\<close>

text \<open>
  Modelled from the spec: the tables \<^verbatim>\<open>nodeTypeToHierarchyLevel\<close> and
  \<^verbatim>\<open>hierarchyLevelToTokens\<close> of \<^verbatim>\<open>./Types\<close>, which is not among the sources. "Which
  categories apply to a node is determined solely by the node's position in the fixed
  hierarchy (root < chart-level < axis/legend-level < filteredData-level < data-level)
  via a static hierarchy-to-tokens table; requesting an inapplicable category for a node
  type is a construction error." The categories of a level are those the spec derives
  for its nodes (name for the root, the chart, the axis and the legend; index for the
  chart and the filteredData node; type for the chart, the axis and the legend; children
  for the chart; data for the axis, the legend, the filteredData and the data node; size,
  a child count; parent, the enclosing facet; aggregate for axes), in the order in which
  the spec lists the categories. The grid is put with the axes and legends. The
  theorems below take the table as the parameter \<open>tokensOf\<close>; this one instantiates it.
\<close>

datatype HierarchyLevel = H_root | H_chart | H_guide | H_filteredData | H_data

definition nodeTypeToHierarchyLevel :: "NodeType \<Rightarrow> HierarchyLevel" where
  "nodeTypeToHierarchyLevel t = (case t of
       N_multiView \<Rightarrow> H_root
     | N_chart \<Rightarrow> H_chart
     | N_xAxis \<Rightarrow> H_guide
     | N_yAxis \<Rightarrow> H_guide
     | N_legend \<Rightarrow> H_guide
     | N_grid \<Rightarrow> H_guide
     | N_filteredData \<Rightarrow> H_filteredData
     | N_data \<Rightarrow> H_data)"

definition hierarchyLevelToTokens :: "HierarchyLevel \<Rightarrow> TokenType list" where
  "hierarchyLevelToTokens h = (case h of
       H_root \<Rightarrow> [T_name]
     | H_chart \<Rightarrow> [T_name, T_index, T_type, T_children]
     | H_guide \<Rightarrow> [T_name, T_type, T_data, T_size, T_parent, T_aggregate]
     | H_filteredData \<Rightarrow> [T_index, T_data, T_size, T_parent]
     | H_data \<Rightarrow> [T_data, T_parent])"

definition specTokens :: "NodeType \<Rightarrow> TokenType list" where
  "specTokens t = hierarchyLevelToTokens (nodeTypeToHierarchyLevel t)"

section \<open>Tree Builder\<close>

text \<open>\<^verbatim>\<open>[...new Set(xs)]\<close>: the first occurrence of each element, in order.\<close>

definition unique :: "string list \<Rightarrow> string list" where
  "unique xs = rev (remdups (rev xs))"

definition getFieldsUsedForChart :: "OlliVisSpec \<Rightarrow> string list" where
  "getFieldsUsedForChart spec = (case spec of
       S_facetedChart f \<Rightarrow>
         unique (facetedField f
                 # concat (map (\<lambda>c. unique (map field (axes c @ legends c))) (map snd (charts f))))
     | S_chart c \<Rightarrow> unique (map field (axes c @ legends c)))"

text \<open>\<^verbatim>\<open>xs.map(f)\<close> where \<open>f\<close> may throw: the first exception ends the map.\<close>

fun mapE :: "('a \<Rightarrow> error + 'b) \<Rightarrow> 'a list \<Rightarrow> error + 'b list" where
  "mapE f [] = Inr []"
| "mapE f (a # as) =
     (case f a of
        Inl e \<Rightarrow> Inl e
      | Inr b \<Rightarrow> (case mapE f as of Inl e \<Rightarrow> Inl e | Inr bs \<Rightarrow> Inr (b # bs)))"

text \<open>
  \<^verbatim>\<open>cartesian(xIntervals, yIntervals)\<close>: for each \<open>d\<close> of the first list in turn, each \<open>e\<close>
  of the second, as \<^verbatim>\<open>[d, e].flat()\<close>, which is \<^verbatim>\<open>[x1, x2, y1, y2]\<close>.
\<close>

definition cartesian :: "Interval list \<Rightarrow> Interval list \<Rightarrow> (Interval \<times> Interval) list" where
  "cartesian a b = concat (map (\<lambda>d. map (\<lambda>e. (d, e)) b) a)"

text \<open>
  The end of \<^verbatim>\<open>olliVisSpecToNode\<close>: the node with its children gets its description.
\<close>

definition describeNode ::
    "(NodeType \<Rightarrow> TokenType list) \<Rightarrow> AccessibilityTreeNode \<Rightarrow> OlliVisSpec \<Rightarrow> string option
       \<Rightarrow> Guide option \<Rightarrow> nat option \<Rightarrow> nat option \<Rightarrow> error + AccessibilityTreeNode" where
  "describeNode tokensOf node spec facetValue guide idx len =
     (case nodeToDesc tokensOf node spec facetValue guide idx len of
        Inl e \<Rightarrow> Inl e
      | Inr desc \<Rightarrow>
          Inr (Node (ntype node) (parentType node) (selected node) (filterValue node)
                 (gridIndex node) desc (childNodes node) (tableKeys node)))"

text \<open>The table keys of a \<^verbatim>\<open>data\<close> node: the guide's field and the facet field go last.\<close>

definition dataTableKeys :: "string list \<Rightarrow> Guide option \<Rightarrow> string option \<Rightarrow> string list" where
  "dataTableKeys used guide facetValue =
     (let keys1 = (case guide of
                     None \<Rightarrow> used
                   | Some g \<Rightarrow> filter (\<lambda>f. f \<noteq> field g) used @ [field g])
      in if truthy facetValue then
           (case used of
              [] \<Rightarrow> keys1 @ [''undefined'']
            | facetField # _ \<Rightarrow> filter (\<lambda>f. f \<noteq> facetField) keys1 @ [facetField])
         else keys1)"

fun rank :: "NodeType \<Rightarrow> nat" where
  "rank N_multiView = 4"
| "rank N_chart = 3"
| "rank N_xAxis = 2"
| "rank N_yAxis = 2"
| "rank N_legend = 2"
| "rank N_grid = 2"
| "rank N_filteredData = 1"
| "rank N_data = 0"

text \<open>
  \<^verbatim>\<open>olliVisSpecToNode(type, selected, parent, olliVisSpec, fieldsUsed, facetValue,
  filterValue, guide, index, length, gridIndex)\<close>, one equation for each case of the switch
  on \<open>type\<close>. The children are built first, in order, then the description. The
  parameters \<open>sel\<close>, \<open>par\<close>, \<open>used\<close>, \<open>fv\<close> and \<open>gi\<close> are \<^verbatim>\<open>selected\<close>, the type of
  \<^verbatim>\<open>parent\<close>, \<^verbatim>\<open>fieldsUsed\<close>, \<^verbatim>\<open>filterValue\<close> and \<^verbatim>\<open>gridIndex\<close>.
\<close>

function olliVisSpecToNode ::
    "(NodeType \<Rightarrow> TokenType list) \<Rightarrow> NodeType \<Rightarrow> OlliDatum list \<Rightarrow> NodeType option \<Rightarrow> OlliVisSpec
       \<Rightarrow> string list \<Rightarrow> string option \<Rightarrow> FilterValue option \<Rightarrow> Guide option
       \<Rightarrow> nat option \<Rightarrow> nat option \<Rightarrow> (nat \<times> nat) option \<Rightarrow> error + AccessibilityTreeNode" where
  "olliVisSpecToNode tokensOf N_multiView sel par spec used facetValue fv guide idx len gi =
     (case spec of
        S_chart c \<Rightarrow> Inl TypeError
      | S_facetedChart faceted \<Rightarrow>
          (case mapE (\<lambda>(i, (facetValue', c)).
                   olliVisSpecToNode tokensOf N_chart
                     (filter (\<lambda>datum. String (field_of datum (facetedField faceted)) = facetValue') sel)
                     (Some N_multiView) (S_chart c) used (Some facetValue') None None
                     (Some i) (Some (length (charts faceted))) None)
                 (enumerate 0 (charts faceted)) of
             Inl e \<Rightarrow> Inl e
           | Inr cs \<Rightarrow>
               describeNode tokensOf (Node N_multiView par sel fv gi [] cs None)
                 spec facetValue guide idx len))"
| "olliVisSpecToNode tokensOf N_chart sel par spec used facetValue fv guide idx len gi =
     (case spec of
        S_facetedChart f \<Rightarrow> Inl TypeError
      | S_chart c \<Rightarrow>
          (let filteredAxes = filter (\<lambda>axis. \<not> (mark c = Some ''bar'' \<and> gtype axis = G_continuous)) (axes c)
           in case mapE (\<lambda>axis.
                     olliVisSpecToNode tokensOf (if axisType axis = Some A_x then N_xAxis else N_yAxis)
                       sel (Some N_chart) spec used facetValue None (Some axis) None None None)
                   filteredAxes of
                Inl e \<Rightarrow> Inl e
              | Inr as \<Rightarrow>
                  (case mapE (\<lambda>l.
                            olliVisSpecToNode tokensOf N_legend
                              sel (Some N_chart) spec used facetValue None (Some l) None None None)
                          (legends c) of
                     Inl e \<Rightarrow> Inl e
                   | Inr ls \<Rightarrow>
                       (case (if mark c = Some ''point'' \<and> length filteredAxes = 2
                                 \<and> list_all (\<lambda>axis. gtype axis = G_continuous) filteredAxes
                              then mapE (\<lambda>u. olliVisSpecToNode tokensOf N_grid
                                               sel (Some N_chart) spec used facetValue None None None None None)
                                     [()]
                              else Inr []) of
                          Inl e \<Rightarrow> Inl e
                        | Inr gs \<Rightarrow>
                            describeNode tokensOf (Node N_chart par sel fv gi [] (as @ ls @ gs) None)
                              spec facetValue guide idx len))))"
| "olliVisSpecToNode tokensOf N_xAxis sel par spec used facetValue fv guide idx len gi =
     (case guide of
        None \<Rightarrow> Inl TypeError
      | Some axis \<Rightarrow>
          (case (case gtype axis of
                   G_discrete \<Rightarrow>
                     mapE (\<lambda>(i, v).
                         olliVisSpecToNode tokensOf N_filteredData
                           (filter (\<lambda>d. String (field_of d (field axis)) = String v) sel)
                           (Some N_xAxis) spec used facetValue (Some (Encoding (FilterString (String v))))
                           (Some axis) (Some i) (Some (length (values axis))) None)
                       (enumerate 0 (values axis))
                 | G_continuous \<Rightarrow>
                     (let intervals = axisValuesToIntervals (values axis)
                      in mapE (\<lambda>(i, (a, b)).
                             olliVisSpecToNode tokensOf N_filteredData
                               (filterInterval sel (field axis) a b)
                               (Some N_xAxis) spec used facetValue (Some (Encoding (FilterRange a b)))
                               (Some axis) (Some i) (Some (length intervals)) None)
                           (enumerate 0 intervals))) of
             Inl e \<Rightarrow> Inl e
           | Inr cs \<Rightarrow>
               describeNode tokensOf (Node N_xAxis par sel fv gi [] cs None)
                 spec facetValue guide idx len))"
| "olliVisSpecToNode tokensOf N_yAxis sel par spec used facetValue fv guide idx len gi =
     (case guide of
        None \<Rightarrow> Inl TypeError
      | Some axis \<Rightarrow>
          (case (case gtype axis of
                   G_discrete \<Rightarrow>
                     mapE (\<lambda>(i, v).
                         olliVisSpecToNode tokensOf N_filteredData
                           (filter (\<lambda>d. String (field_of d (field axis)) = String v) sel)
                           (Some N_yAxis) spec used facetValue (Some (Encoding (FilterString (String v))))
                           (Some axis) (Some i) (Some (length (values axis))) None)
                       (enumerate 0 (values axis))
                 | G_continuous \<Rightarrow>
                     (let intervals = axisValuesToIntervals (values axis)
                      in mapE (\<lambda>(i, (a, b)).
                             olliVisSpecToNode tokensOf N_filteredData
                               (filterInterval sel (field axis) a b)
                               (Some N_yAxis) spec used facetValue (Some (Encoding (FilterRange a b)))
                               (Some axis) (Some i) (Some (length intervals)) None)
                           (enumerate 0 intervals))) of
             Inl e \<Rightarrow> Inl e
           | Inr cs \<Rightarrow>
               describeNode tokensOf (Node N_yAxis par sel fv gi [] cs None)
                 spec facetValue guide idx len))"
| "olliVisSpecToNode tokensOf N_legend sel par spec used facetValue fv guide idx len gi =
     (case guide of
        None \<Rightarrow> Inl TypeError
      | Some l \<Rightarrow>
          (case (case gtype l of
                   G_discrete \<Rightarrow>
                     mapE (\<lambda>(i, v).
                         olliVisSpecToNode tokensOf N_filteredData
                           (filter (\<lambda>d. String (field_of d (field l)) = String v) sel)
                           (Some N_legend) spec used facetValue (Some (Encoding (FilterString (String v))))
                           (Some l) (Some i) (Some (length (values l))) None)
                       (enumerate 0 (values l))
                 | G_continuous \<Rightarrow> Inr []) of
             Inl e \<Rightarrow> Inl e
           | Inr cs \<Rightarrow>
               describeNode tokensOf (Node N_legend par sel fv gi [] cs None)
                 spec facetValue guide idx len))"
| "olliVisSpecToNode tokensOf N_grid sel par spec used facetValue fv guide idx len gi =
     (case spec of
        S_facetedChart f \<Rightarrow> Inl TypeError
      | S_chart c \<Rightarrow>
          (case (find (\<lambda>axis. axisType axis = Some A_x) (axes c),
                 find (\<lambda>axis. axisType axis = Some A_y) (axes c)) of
             (Some xAxis, Some yAxis) \<Rightarrow>
               (let xIntervals = axisValuesToIntervals (values xAxis);
                    yIntervals = axisValuesToIntervals (values yAxis)
                in case mapE (\<lambda>(i, ((x1, x2), (y1, y2))).
                          olliVisSpecToNode tokensOf N_filteredData
                            (filterInterval (filterInterval sel (field xAxis) x1 x2) (field yAxis) y1 y2)
                            (Some N_grid) spec used facetValue
                            (Some (Grid (FilterRange x1 x2) (FilterRange y1 y2)))
                            None None None
                            (Some (i div length yIntervals, i mod length yIntervals)))
                        (enumerate 0 (cartesian xIntervals yIntervals)) of
                     Inl e \<Rightarrow> Inl e
                   | Inr cs \<Rightarrow>
                       describeNode tokensOf (Node N_grid par sel fv gi [] cs None)
                         spec facetValue guide idx len)
           | _ \<Rightarrow> Inl TypeError))"
| "olliVisSpecToNode tokensOf N_filteredData sel par spec used facetValue fv guide idx len gi =
     (case mapE (\<lambda>(i, datum).
              olliVisSpecToNode tokensOf N_data [datum] (Some N_filteredData) spec used facetValue
                None guide (Some i) (Some (length sel)) None)
            (enumerate 0 sel) of
        Inl e \<Rightarrow> Inl e
      | Inr cs \<Rightarrow>
          describeNode tokensOf (Node N_filteredData par sel fv gi [] cs None)
            spec facetValue guide idx len)"
| "olliVisSpecToNode tokensOf N_data sel par spec used facetValue fv guide idx len gi =
     describeNode tokensOf
       (Node N_data par sel fv gi [] [] (Some (dataTableKeys used guide facetValue)))
       spec facetValue guide idx len"
  by pat_completeness auto
termination
  by (relation "measure (\<lambda>(tokensOf, type, rest). rank type)") auto

text \<open>
  \<^verbatim>\<open>olliVisSpecToTree\<close>. The \<^verbatim>\<open>default\<close> case of its switch, a spec that is neither a chart
  nor a faceted chart, is not a value of \<open>OlliVisSpec\<close>.
\<close>

definition olliVisSpecToTree :: "(NodeType \<Rightarrow> TokenType list) \<Rightarrow> OlliVisSpec \<Rightarrow> error + AccessibilityTree" where
  "olliVisSpecToTree tokensOf olliVisSpec =
     (let used = getFieldsUsedForChart olliVisSpec in
      case olliVisSpec of
        S_facetedChart f \<Rightarrow>
          (case olliVisSpecToNode tokensOf N_multiView (faceted_data f) None olliVisSpec used
                  None None None None None None of
             Inl e \<Rightarrow> Inl e
           | Inr n \<Rightarrow> Inr \<lparr>root = n, fieldsUsed = used\<rparr>)
      | S_chart c \<Rightarrow>
          (case olliVisSpecToNode tokensOf N_chart (data c) None olliVisSpec used
                  None None None None None None of
             Inl e \<Rightarrow> Inl e
           | Inr n \<Rightarrow> Inr \<lparr>root = n, fieldsUsed = used\<rparr>))"

subsection \<open>The tokens a node type has\<close>

text \<open>
  \<open>hasToken t tk\<close>: the token function of \<open>tk\<close> has a case for the node type \<open>t\<close>, that
  is, its switch does not end in the \<^verbatim>\<open>default\<close> that throws. \<open>tokensApply\<close> says of a
  token table that it lists, for each node type, only tokens the type has.
\<close>

fun hasToken :: "NodeType \<Rightarrow> TokenType \<Rightarrow> bool" where
  "hasToken N_multiView tk = (tk = T_name)"
| "hasToken N_chart tk = (tk \<in> set [T_name, T_index, T_type, T_children])"
| "hasToken N_filteredData tk = (tk \<in> set [T_index, T_data, T_size, T_parent])"
| "hasToken N_data tk = (tk \<in> set [T_data, T_parent])"
| "hasToken t tk = (tk \<in> set [T_name, T_type, T_data, T_size, T_parent, T_aggregate])"

definition tokensApply :: "(NodeType \<Rightarrow> TokenType list) \<Rightarrow> bool" where
  "tokensApply tokensOf =
     list_all (\<lambda>t. list_all (hasToken t) (tokensOf t))
       [N_multiView, N_chart, N_xAxis, N_yAxis, N_legend, N_grid, N_filteredData, N_data]"

subsection \<open>The invariant of the binning loop\<close>

text \<open>
  After \<open>k\<close> ticks of the array the intervals pushed so far follow one another, each
  upper bound being the lower bound of the next; until the last tick every upper bound is
  a tick, the last one being the tick before \<open>k\<close>; at the end every upper bound but the
  last one is a tick.
\<close>

definition binned :: "OlliValue list \<Rightarrow> nat \<Rightarrow> Interval list \<Rightarrow> bool" where
  "binned arr k acc \<longleftrightarrow>
     successively (\<lambda>a b. snd a = fst b) acc
     \<and> (k = 0 \<longrightarrow> acc = [])
     \<and> (k < length arr \<longrightarrow>
          set (map snd acc) \<subseteq> set arr \<and> (0 < k \<longrightarrow> acc = [] \<or> snd (last acc) = arr ! (k - 1)))
     \<and> (k = length arr \<longrightarrow> set (map snd (butlast acc)) \<subseteq> set arr)"

definition bucketOf :: "OlliDatum list \<Rightarrow> AccessibilityTreeNode \<Rightarrow> bool" where
  "bucketOf sel c \<longleftrightarrow>
     ntype c = N_filteredData \<and> subseq (selected c) sel
     \<and> map selected (childNodes c) = map (\<lambda>d. [d]) (selected c)
     \<and> list_all (\<lambda>d. ntype d = N_data \<and> childNodes d = []) (childNodes c)"

subsection \<open>The rows of a node and the rows of its children\<close>

text \<open>
  What holds of the rows of a node, by its type: a \<open>data\<close> node has one row and no
  children; the rows of a \<open>filteredData\<close> node are those of its children, in order; each
  child of a \<open>chart\<close> node has all the rows of the chart; each child of any other node has
  some of the rows of the node, in their order.
\<close>

definition nodeRows :: "AccessibilityTreeNode \<Rightarrow> bool" where
  "nodeRows n =
     (case ntype n of
        N_data \<Rightarrow> length (selected n) = 1 \<and> childNodes n = []
      | N_filteredData \<Rightarrow> selected n = concat (map selected (childNodes n))
      | N_chart \<Rightarrow> list_all (\<lambda>c. selected c = selected n) (childNodes n)
      | _ \<Rightarrow> list_all (\<lambda>c. subseq (selected c) (selected n)) (childNodes n))"

fun allNodes :: "(AccessibilityTreeNode \<Rightarrow> bool) \<Rightarrow> AccessibilityTreeNode \<Rightarrow> bool" where
  "allNodes P (Node t par sel fv gi desc cs tk)
     = (P (Node t par sel fv gi desc cs tk) \<and> list_all (allNodes P) cs)"

section \<open>Properties of the tree builder\<close>

subsection \<open>Maps that may throw, and descriptions\<close>

lemma mapE_Inr_D: "mapE f xs = Inr ys \<Longrightarrow> list_all2 (\<lambda>a b. f a = Inr b) xs ys"
  by (induction xs arbitrary: ys) (auto split: sum.splits)

lemma mapE_Inr_I: "list_all2 (\<lambda>a b. f a = Inr b) xs ys \<Longrightarrow> mapE f xs = Inr ys"
  by (induction rule: list_all2_induct) auto

lemma mapE_isl: "isl (mapE f xs) \<longleftrightarrow> (\<exists>a \<in> set xs. isl (f a))"
  by (induction xs) (auto split: sum.splits)

lemma mapE_Inr_length: "mapE f xs = Inr ys \<Longrightarrow> length ys = length xs"
  by (drule mapE_Inr_D) (simp add: list_all2_lengthD)

lemma mapE_Inr_nth: "mapE f xs = Inr ys \<Longrightarrow> i < length xs \<Longrightarrow> f (xs ! i) = Inr (ys ! i)"
  by (drule mapE_Inr_D) (auto dest: list_all2_nthD)

lemma mapE_weak_cong: "xs = ys \<Longrightarrow> mapE f xs = mapE f ys"
  by simp

lemma describe_tokens_isl:
  "isl (describe_tokens tokens desc node spec facetValue guide idx len)
     \<longleftrightarrow> (\<exists>t \<in> set tokens. isl (tokenFunctions t node spec facetValue guide idx len))"
  by (induction tokens arbitrary: desc) (auto split: sum.splits)

lemma nodeToDesc_isl:
  "isl (nodeToDesc tokensOf node spec facetValue guide idx len)
     \<longleftrightarrow> (\<exists>t \<in> set (tokensOf (ntype node)). isl (tokenFunctions t node spec facetValue guide idx len))"
  using describe_tokens_isl[of "tokensOf (ntype node)" "[]" node spec facetValue guide idx len]
  by (auto simp: nodeToDesc_def split: sum.splits)

lemma describeNode_isl:
  "isl (describeNode tokensOf node spec facetValue guide idx len)
     \<longleftrightarrow> (\<exists>t \<in> set (tokensOf (ntype node)). isl (tokenFunctions t node spec facetValue guide idx len))"
  using nodeToDesc_isl[of tokensOf node spec facetValue guide idx len]
  by (auto simp: describeNode_def split: sum.splits)

lemma describeNode_Inr:
  assumes "describeNode tokensOf node spec facetValue guide idx len = Inr n"
  shows "ntype n = ntype node" "parentType n = parentType node" "selected n = selected node"
        "filterValue n = filterValue node" "gridIndex n = gridIndex node"
        "childNodes n = childNodes node" "tableKeys n = tableKeys node"
  using assms by (auto simp: describeNode_def split: sum.splits)

lemma chartType_total: "\<not> isl (chartType spec)"
  by (cases spec) (auto simp: chartType_def spec_mark_def spec_axes_def)

subsection \<open>The shape of a built node\<close>

declare mapE_weak_cong [cong]

declare olliVisSpecToNode.simps [simp del]

lemma olliVisSpecToNode_describe:
  assumes "olliVisSpecToNode tokensOf t sel par spec used facetValue fv guide idx len gi = Inr n"
  shows "\<exists>cs tk. describeNode tokensOf (Node t par sel fv gi [] cs tk) spec facetValue guide idx len = Inr n"
proof (cases t)
  case N_multiView
  with assms show ?thesis by (simp add: olliVisSpecToNode.simps split: sum.splits OlliVisSpec.splits) blast
next
  case N_chart
  with assms show ?thesis by (simp add: olliVisSpecToNode.simps Let_def split: sum.splits OlliVisSpec.splits) blast
next
  case N_xAxis
  with assms show ?thesis by (simp add: olliVisSpecToNode.simps split: sum.splits option.splits) blast
next
  case N_yAxis
  with assms show ?thesis by (simp add: olliVisSpecToNode.simps split: sum.splits option.splits) blast
next
  case N_legend
  with assms show ?thesis by (simp add: olliVisSpecToNode.simps split: sum.splits option.splits) blast
next
  case N_grid
  with assms show ?thesis by (simp add: olliVisSpecToNode.simps Let_def split: sum.splits option.splits OlliVisSpec.splits) blast
next
  case N_filteredData
  with assms show ?thesis by (simp add: olliVisSpecToNode.simps split: sum.splits) blast
next
  case N_data
  with assms show ?thesis by (simp add: olliVisSpecToNode.simps) blast
qed

lemma olliVisSpecToNode_shape:
  assumes "olliVisSpecToNode tokensOf t sel par spec used facetValue fv guide idx len gi = Inr n"
  shows "ntype n = t \<and> parentType n = par \<and> selected n = sel \<and> filterValue n = fv \<and> gridIndex n = gi"
  using olliVisSpecToNode_describe[OF assms] by (auto dest: describeNode_Inr)

lemma data_node:
  assumes "olliVisSpecToNode tokensOf N_data sel par spec used facetValue fv guide idx len gi = Inr n"
  shows "childNodes n = [] \<and> tableKeys n = Some (dataTableKeys used guide facetValue)"
  using assms by (auto simp: olliVisSpecToNode.simps dest: describeNode_Inr)

subsection \<open>The children of a built node\<close>

lemma mapE_map:
  assumes "mapE f xs = Inr cs"
    and "\<And>a c. f a = Inr c \<Longrightarrow> p c = h a"
  shows "map p cs = map h xs"
proof -
  from mapE_Inr_D[OF assms(1)] have "list_all2 (\<lambda>a c. f a = Inr c) xs cs" .
  then show ?thesis
    by (induction rule: list_all2_induct) (auto simp: assms(2))
qed

lemma mapE_all:
  assumes "mapE f xs = Inr cs"
    and "\<And>a c. f a = Inr c \<Longrightarrow> P c"
  shows "list_all P cs"
proof -
  from mapE_Inr_D[OF assms(1)] have "list_all2 (\<lambda>a c. f a = Inr c) xs cs" .
  then show ?thesis
    by (induction rule: list_all2_induct) (auto simp: assms(2))
qed

lemma map_enumerate_snd: "map (\<lambda>(i, a). h a) (enumerate n xs) = map h xs"
  by (induction xs arbitrary: n) auto

lemma filteredData_node:
  assumes "olliVisSpecToNode tokensOf N_filteredData sel par spec used facetValue fv guide idx len gi = Inr n"
  shows "map selected (childNodes n) = map (\<lambda>d. [d]) sel
         \<and> list_all (\<lambda>c. ntype c = N_data \<and> childNodes c = []) (childNodes n)"
proof -
  let ?f = "\<lambda>(i, datum).
              olliVisSpecToNode tokensOf N_data [datum] (Some N_filteredData) spec used facetValue
                None guide (Some i) (Some (length sel)) None"
  from assms obtain cs where
    cs: "mapE ?f (enumerate 0 sel) = Inr cs"
    and n: "describeNode tokensOf (Node N_filteredData par sel fv gi [] cs None) spec facetValue guide idx len = Inr n"
    by (auto simp: olliVisSpecToNode.simps split: sum.splits)
  from n have ch: "childNodes n = cs" by (simp add: describeNode_Inr(6))
  have "map selected cs = map (\<lambda>(i, d). [d]) (enumerate 0 sel)"
    by (rule mapE_map[OF cs]) (auto dest: olliVisSpecToNode_shape)
  moreover have "list_all (\<lambda>c. ntype c = N_data \<and> childNodes c = []) cs"
    by (rule mapE_all[OF cs]) (auto dest: olliVisSpecToNode_shape data_node)
  ultimately show ?thesis
    by (simp add: ch map_enumerate_snd)
qed

text \<open>The children of a discrete guide: one per enumerated value.\<close>

lemma discrete_children:
  assumes "mapE (\<lambda>(i, v).
              olliVisSpecToNode tokensOf N_filteredData
                (filter (\<lambda>d. String (field_of d (field g)) = String v) sel)
                (Some t) spec used facetValue (Some (Encoding (FilterString (String v))))
                (Some g) (Some i) (Some (length (values g))) None)
            (enumerate 0 (values g)) = Inr cs"
  shows "map selected cs = map (\<lambda>v. filter (\<lambda>d. String (field_of d (field g)) = String v) sel) (values g)
         \<and> map filterValue cs = map (\<lambda>v. Some (Encoding (FilterString (String v)))) (values g)
         \<and> list_all (\<lambda>c. ntype c = N_filteredData) cs"
proof -
  have "map selected cs
          = map (\<lambda>(i, v). filter (\<lambda>d. String (field_of d (field g)) = String v) sel) (enumerate 0 (values g))"
    by (rule mapE_map[OF assms]) (auto dest: olliVisSpecToNode_shape)
  moreover have "map filterValue cs
          = map (\<lambda>(i, v). Some (Encoding (FilterString (String v)))) (enumerate 0 (values g))"
    by (rule mapE_map[OF assms]) (auto dest: olliVisSpecToNode_shape)
  moreover have "list_all (\<lambda>c. ntype c = N_filteredData) cs"
    by (rule mapE_all[OF assms]) (auto dest: olliVisSpecToNode_shape)
  ultimately show ?thesis
    by (simp add: map_enumerate_snd)
qed

text \<open>The children of a continuous axis: one per interval.\<close>

lemma continuous_children:
  assumes "mapE (\<lambda>(i, (a, b)).
               olliVisSpecToNode tokensOf N_filteredData
                 (filterInterval sel (field g) a b)
                 (Some t) spec used facetValue (Some (Encoding (FilterRange a b)))
                 (Some g) (Some i) (Some (length intervals)) None)
             (enumerate 0 intervals) = Inr cs"
  shows "map selected cs = map (\<lambda>(a, b). filterInterval sel (field g) a b) intervals
         \<and> map filterValue cs = map (\<lambda>(a, b). Some (Encoding (FilterRange a b))) intervals
         \<and> list_all (\<lambda>c. ntype c = N_filteredData) cs"
proof -
  have "map selected cs
          = map (\<lambda>(i, ab). (\<lambda>(a, b). filterInterval sel (field g) a b) ab) (enumerate 0 intervals)"
    by (rule mapE_map[OF assms]) (auto dest: olliVisSpecToNode_shape)
  moreover have "map filterValue cs
          = map (\<lambda>(i, ab). (\<lambda>(a, b). Some (Encoding (FilterRange a b))) ab) (enumerate 0 intervals)"
    by (rule mapE_map[OF assms]) (auto dest: olliVisSpecToNode_shape)
  moreover have "list_all (\<lambda>c. ntype c = N_filteredData) cs"
    by (rule mapE_all[OF assms]) (auto dest: olliVisSpecToNode_shape)
  ultimately show ?thesis
    by (simp only: map_enumerate_snd)
qed

lemma axis_node_discrete:
  assumes "olliVisSpecToNode tokensOf t sel par spec used facetValue fv (Some g) idx len gi = Inr n"
    and "t = N_xAxis \<or> t = N_yAxis \<or> t = N_legend" and "gtype g = G_discrete"
  shows "map selected (childNodes n)
           = map (\<lambda>v. filter (\<lambda>d. String (field_of d (field g)) = String v) sel) (values g)
         \<and> map filterValue (childNodes n) = map (\<lambda>v. Some (Encoding (FilterString (String v)))) (values g)
         \<and> list_all (\<lambda>c. ntype c = N_filteredData) (childNodes n)"
proof -
  from assms obtain cs where
    cs: "mapE (\<lambda>(i, v).
              olliVisSpecToNode tokensOf N_filteredData
                (filter (\<lambda>d. String (field_of d (field g)) = String v) sel)
                (Some t) spec used facetValue (Some (Encoding (FilterString (String v))))
                (Some g) (Some i) (Some (length (values g))) None)
            (enumerate 0 (values g)) = Inr cs"
    and n: "describeNode tokensOf (Node t par sel fv gi [] cs None) spec facetValue (Some g) idx len = Inr n"
    by (auto simp: olliVisSpecToNode.simps split: sum.splits)
  from n have "childNodes n = cs" by (simp add: describeNode_Inr(6))
  with discrete_children[OF cs] show ?thesis by simp
qed

lemma axis_node_continuous:
  assumes "olliVisSpecToNode tokensOf t sel par spec used facetValue fv (Some g) idx len gi = Inr n"
    and "t = N_xAxis \<or> t = N_yAxis" and "gtype g = G_continuous"
  shows "map selected (childNodes n)
           = map (\<lambda>(a, b). filterInterval sel (field g) a b) (axisValuesToIntervals (values g))
         \<and> map filterValue (childNodes n)
           = map (\<lambda>(a, b). Some (Encoding (FilterRange a b))) (axisValuesToIntervals (values g))
         \<and> list_all (\<lambda>c. ntype c = N_filteredData) (childNodes n)"
proof -
  from assms obtain cs where
    cs: "mapE (\<lambda>(i, (a, b)).
               olliVisSpecToNode tokensOf N_filteredData
                 (filterInterval sel (field g) a b)
                 (Some t) spec used facetValue (Some (Encoding (FilterRange a b)))
                 (Some g) (Some i) (Some (length (axisValuesToIntervals (values g)))) None)
             (enumerate 0 (axisValuesToIntervals (values g))) = Inr cs"
    and n: "describeNode tokensOf (Node t par sel fv gi [] cs None) spec facetValue (Some g) idx len = Inr n"
    by (auto simp: olliVisSpecToNode.simps Let_def split: sum.splits)
  from n have "childNodes n = cs" by (simp add: describeNode_Inr(6))
  with continuous_children[OF cs] show ?thesis by simp
qed

lemma legend_node_continuous:
  assumes "olliVisSpecToNode tokensOf N_legend sel par spec used facetValue fv (Some l) idx len gi = Inr n"
    and "gtype l = G_continuous"
  shows "childNodes n = []"
  using assms by (auto simp: olliVisSpecToNode.simps dest: describeNode_Inr(6))

subsection \<open>When a node is built\<close>

lemma tokensApplyD: "tokensApply tokensOf \<Longrightarrow> tk \<in> set (tokensOf t) \<Longrightarrow> hasToken t tk"
  by (cases t) (auto simp: tokensApply_def list_all_iff)

lemma specTokens_apply: "tokensApply specTokens"
  by (simp add: tokensApply_def specTokens_def nodeTypeToHierarchyLevel_def hierarchyLevelToTokens_def)

lemma token_ok_data:
  "ntype node = N_data \<Longrightarrow> hasToken N_data tk
     \<Longrightarrow> \<not> isl (tokenFunctions tk node spec facetValue guide idx len)"
  by (auto simp: tokenFunctions_def token_data_def token_parent_def Let_def split: list.splits if_splits)

lemma token_ok_filteredData:
  "ntype node = N_filteredData \<Longrightarrow> hasToken N_filteredData tk
     \<Longrightarrow> \<not> isl (tokenFunctions tk node spec facetValue guide idx len)"
  by (auto simp: tokenFunctions_def token_data_def token_parent_def token_index_def token_size_def Let_def
           split: option.splits FilterValue.splits if_splits)

lemma token_ok_legend:
  "ntype node = N_legend \<Longrightarrow> hasToken N_legend tk
     \<Longrightarrow> \<not> isl (tokenFunctions tk node spec facetValue (Some l) idx len)"
  by (auto simp: tokenFunctions_def token_data_def token_parent_def token_name_def token_size_def
                 token_type_def token_aggregate_def guide_data_def Let_def split: if_splits)

lemma token_ok_grid:
  "ntype node = N_grid \<Longrightarrow> hasToken N_grid tk
     \<Longrightarrow> \<not> isl (tokenFunctions tk node spec facetValue guide idx len)"
  using chartType_total[of spec]
  by (auto simp: tokenFunctions_def token_data_def token_parent_def token_name_def token_size_def
                 token_type_def token_aggregate_def Let_def split: sum.splits if_splits)

lemma token_ok_axis:
  "ntype node = N_xAxis \<or> ntype node = N_yAxis \<Longrightarrow> hasToken (ntype node) tk
     \<Longrightarrow> scaleType a = Some ''quantitative'' \<longrightarrow> selected node \<noteq> []
     \<Longrightarrow> \<not> isl (tokenFunctions tk node spec facetValue (Some a) idx len)"
  by (auto simp: tokenFunctions_def token_data_def token_parent_def token_name_def token_size_def
                 token_type_def token_aggregate_def guide_data_def Let_def axis_aggregate_def
                 maximumValue_def minimumValue_def split: list.splits if_splits sum.splits)

lemma token_ok_chart:
  "ntype node = N_chart \<Longrightarrow> hasToken N_chart tk \<Longrightarrow> axes c \<noteq> []
     \<Longrightarrow> \<not> isl (tokenFunctions tk node (S_chart c) facetValue guide idx len)"
  using chartType_total[of "S_chart c"]
  by (auto simp: tokenFunctions_def token_name_def token_index_def token_type_def token_children_def
                 spec_axes_def Let_def split: sum.splits list.splits if_splits)

lemma token_ok_multiView:
  "ntype node = N_multiView \<Longrightarrow> hasToken N_multiView tk
     \<Longrightarrow> \<not> isl (tokenFunctions tk node spec facetValue guide idx len)"
  by (auto simp: tokenFunctions_def token_name_def Let_def split: if_splits)

lemma not_isl_Inr: "\<not> isl r \<Longrightarrow> \<exists>n. r = Inr n"
  by (cases r) auto

lemma isl_bind: "isl (case r of Inl e \<Rightarrow> Inl e | Inr cs \<Rightarrow> g cs) = (isl r \<or> isl (g (projr r)))"
  by (cases r) auto

lemma describeNode_ok:
  assumes "tokensApply tokensOf"
    and "\<And>tk. hasToken (ntype node) tk \<Longrightarrow> \<not> isl (tokenFunctions tk node spec facetValue guide idx len)"
  shows "\<not> isl (describeNode tokensOf node spec facetValue guide idx len)"
  using assms by (auto simp: describeNode_isl dest: tokensApplyD)

lemma success_data:
  assumes "tokensApply tokensOf"
  shows "\<not> isl (olliVisSpecToNode tokensOf N_data sel par spec used facetValue fv guide idx len gi)"
  unfolding olliVisSpecToNode.simps
  by (rule describeNode_ok[OF assms]) (simp add: token_ok_data)

lemma success_filteredData:
  assumes "tokensApply tokensOf"
  shows "\<not> isl (olliVisSpecToNode tokensOf N_filteredData sel par spec used facetValue fv guide idx len gi)"
proof -
  have "\<not> isl (mapE (\<lambda>(i, datum).
              olliVisSpecToNode tokensOf N_data [datum] (Some N_filteredData) spec used facetValue
                None guide (Some i) (Some (length sel)) None) (enumerate 0 sel))"
    using success_data[OF assms] by (auto simp: mapE_isl)
  moreover have "\<not> isl (describeNode tokensOf (Node N_filteredData par sel fv gi [] cs None)
                    spec facetValue guide idx len)" for cs
    by (rule describeNode_ok[OF assms]) (simp add: token_ok_filteredData)
  ultimately show ?thesis
    by (simp add: olliVisSpecToNode.simps isl_bind)
qed

lemma success_legend:
  assumes "tokensApply tokensOf"
  shows "\<not> isl (olliVisSpecToNode tokensOf N_legend sel par spec used facetValue fv (Some l) idx len gi)"
proof -
  have "\<not> isl (mapE (\<lambda>(i, v).
                         olliVisSpecToNode tokensOf N_filteredData
                           (filter (\<lambda>d. String (field_of d (field l)) = String v) sel)
                           (Some N_legend) spec used facetValue (Some (Encoding (FilterString (String v))))
                           (Some l) (Some i) (Some (length (values l))) None)
                       (enumerate 0 (values l)))"
    using success_filteredData[OF assms] by (auto simp: mapE_isl)
  moreover have "\<not> isl (describeNode tokensOf (Node N_legend par sel fv gi [] cs None)
                    spec facetValue (Some l) idx len)" for cs
    by (rule describeNode_ok[OF assms]) (simp add: token_ok_legend)
  ultimately show ?thesis
    by (cases "gtype l") (simp_all add: olliVisSpecToNode.simps isl_bind)
qed

lemma success_axis:
  assumes "tokensApply tokensOf" and "t = N_xAxis \<or> t = N_yAxis"
    and "scaleType a = Some ''quantitative'' \<longrightarrow> sel \<noteq> []"
  shows "\<not> isl (olliVisSpecToNode tokensOf t sel par spec used facetValue fv (Some a) idx len gi)"
proof -
  have d: "\<not> isl (mapE (\<lambda>(i, v).
                         olliVisSpecToNode tokensOf N_filteredData
                           (filter (\<lambda>d. String (field_of d (field a)) = String v) sel)
                           (Some t) spec used facetValue (Some (Encoding (FilterString (String v))))
                           (Some a) (Some i) (Some (length (values a))) None)
                       (enumerate 0 (values a)))"
    using success_filteredData[OF assms(1)] by (auto simp: mapE_isl)
  have c: "\<not> isl (mapE (\<lambda>(i, (lo, hi)).
                             olliVisSpecToNode tokensOf N_filteredData
                               (filterInterval sel (field a) lo hi)
                               (Some t) spec used facetValue (Some (Encoding (FilterRange lo hi)))
                               (Some a) (Some i) (Some (length is)) None)
                           (enumerate 0 is))" for "is"
    using success_filteredData[OF assms(1)] by (auto simp: mapE_isl)
  have n: "\<not> isl (describeNode tokensOf (Node t par sel fv gi [] cs None)
                    spec facetValue (Some a) idx len)" for cs
    by (rule describeNode_ok[OF assms(1)]) (use assms(2,3) in \<open>simp add: token_ok_axis\<close>)
  from assms(2) d c[of "axisValuesToIntervals (values a)"] n show ?thesis
    by (cases "gtype a") (auto simp: olliVisSpecToNode.simps Let_def isl_bind)
qed

lemma success_grid:
  assumes "tokensApply tokensOf"
    and "find (\<lambda>axis. axisType axis = Some A_x) (axes c) \<noteq> None"
    and "find (\<lambda>axis. axisType axis = Some A_y) (axes c) \<noteq> None"
  shows "\<not> isl (olliVisSpecToNode tokensOf N_grid sel par (S_chart c) used facetValue fv guide idx len gi)"
proof -
  have m: "\<not> isl (mapE (\<lambda>(i, ((x1, x2), (y1, y2))).
                          olliVisSpecToNode tokensOf N_filteredData
                            (filterInterval (filterInterval sel fx x1 x2) fy y1 y2)
                            (Some N_grid) (S_chart c) used facetValue
                            (Some (Grid (FilterRange x1 x2) (FilterRange y1 y2)))
                            None None None
                            (Some (i div ny, i mod ny)))
                        (enumerate 0 cells))" for fx fy ny cells
    using success_filteredData[OF assms(1)] by (auto simp: mapE_isl)
  have n: "\<not> isl (describeNode tokensOf (Node N_grid par sel fv gi [] cs None)
                    (S_chart c) facetValue guide idx len)" for cs
    by (rule describeNode_ok[OF assms(1)]) (simp add: token_ok_grid)
  from assms(2,3) m n show ?thesis
    by (auto simp: olliVisSpecToNode.simps Let_def isl_bind split: option.splits)
qed

section \<open>Properties of the interval binner and of the range filter\<close>

lemma increments_append:
  "getEncodingValueIncrements acc v i arr = acc @ getEncodingValueIncrements [] v i arr"
  by (simp add: getEncodingValueIncrements_def Let_def)

lemma ensure_numbers:
  "ensureAxisValuesNumeric (Number r # vs) = (Number r # vs, False)"
  by (simp add: ensureAxisValuesNumeric_def isStringValue_def isDateValue_def)

lemma js_ge_NaN: "\<not> js_ge v (VNum NaN)"
  by (cases v) (simp_all add: js_ge_def js_less_def num_less_def ToNumber_def split: num.splits)

lemma filterInterval_NaN: "filterInterval sel f (VNum NaN) hi = []"
  by (simp add: filterInterval_def Let_def js_ge_NaN)

lemma single_tick:
  "reduce getEncodingValueIncrements [] [v]
     = (if isZero v then [] else [(js_minus v (js_minus Undefined v), v)])"
  by (simp add: reduce_def getEncodingValueIncrements_def arr_at_def)

lemma C10_intervals:
  assumes "r \<noteq> 0"
  shows "axisValuesToIntervals [Number r] = [(VNum NaN, Number r)]"
  using assms
  by (simp add: axisValuesToIntervals_def ensure_numbers single_tick isZero_def js_minus_def
                ToNumber_def num_sub_def)

lemma binned_step:
  assumes "k < length arr" and "binned arr k acc"
  shows "binned arr (Suc k) (getEncodingValueIncrements acc (arr ! k) k arr)"
proof (cases "k = 0")
  case True
  with assms show ?thesis
    by (auto simp: binned_def getEncodingValueIncrements_def Let_def)
next
  case False
  then have k: "0 < k" by simp
  have prev: "arr_at arr (int k - 1) = arr ! (k - 1)"
    using k assms(1) by (simp add: arr_at_def nat_diff_distrib')
  have cur: "arr_at arr (int k - 1 + 1) = arr ! k"
    using assms(1) by (simp add: arr_at_def)
  have mem: "arr ! k \<in> set arr" "arr ! (k - 1) \<in> set arr"
    using assms(1) by simp_all
  show ?thesis
  proof (cases "Suc k = length arr")
    case True
    then have last: "int k = int (length arr) - 1" by simp
    have "getEncodingValueIncrements acc (arr ! k) k arr
            = acc @ [(arr ! (k - 1), arr ! k)]
                  @ [(arr ! k, js_plus (arr ! k) (js_minus (arr ! k) (arr ! (k - 1))))]"
      using k last prev by (simp add: getEncodingValueIncrements_def Let_def)
    moreover have "binned arr (Suc k) (acc @ [(arr ! (k - 1), arr ! k)]
                  @ [(arr ! k, js_plus (arr ! k) (js_minus (arr ! k) (arr ! (k - 1))))])"
      using assms k True mem
      by (auto simp: binned_def successively_append_iff butlast_append)
    ultimately show ?thesis by simp
  next
    case False
    then have notlast: "int k \<noteq> int (length arr) - 1" by linarith
    have "getEncodingValueIncrements acc (arr ! k) k arr = acc @ [(arr ! (k - 1), arr ! k)]"
      using k notlast prev cur by (simp add: getEncodingValueIncrements_def Let_def)
    moreover have "binned arr (Suc k) (acc @ [(arr ! (k - 1), arr ! k)])"
      using assms k False mem
      by (auto simp: binned_def successively_append_iff)
    ultimately show ?thesis by simp
  qed
qed

lemma binned_prefix:
  assumes "k \<le> length arr"
  shows "binned arr k (foldl (\<lambda>acc (i, v). getEncodingValueIncrements acc v i arr) []
                          (take k (zip [0..<length arr] arr)))"
  using assms
proof (induction k)
  case 0
  then show ?case by (simp add: binned_def)
next
  case (Suc k)
  then have k: "k < length arr" by simp
  have "take (Suc k) (zip [0..<length arr] arr) = take k (zip [0..<length arr] arr) @ [(k, arr ! k)]"
    using k by (simp add: take_Suc_conv_app_nth)
  with Suc binned_step[OF k] show ?case by simp
qed

lemma binned_reduce: "binned arr (length arr) (reduce getEncodingValueIncrements [] arr)"
  using binned_prefix[of "length arr" arr] by (simp add: reduce_def)

lemma increments_chain:
  "successively (\<lambda>a b. snd a = fst b) (reduce getEncodingValueIncrements [] arr)"
  using binned_reduce[of arr] by (simp add: binned_def)

lemma increments_inner:
  "set (map snd (butlast (reduce getEncodingValueIncrements [] arr))) \<subseteq> set arr"
  using binned_reduce[of arr] by (simp add: binned_def)

lemma success_chart:
  assumes "tokensApply tokensOf" and "axes c \<noteq> []"
    and "\<And>a. a \<in> set (axes c) \<Longrightarrow> \<not> (mark c = Some ''bar'' \<and> gtype a = G_continuous)
            \<Longrightarrow> scaleType a = Some ''quantitative'' \<Longrightarrow> sel \<noteq> []"
    and "mark c = Some ''point'' \<Longrightarrow>
           find (\<lambda>axis. axisType axis = Some A_x) (axes c) \<noteq> None
           \<and> find (\<lambda>axis. axisType axis = Some A_y) (axes c) \<noteq> None"
  shows "\<not> isl (olliVisSpecToNode tokensOf N_chart sel par (S_chart c) used facetValue fv guide idx len gi)"
proof -
  let ?fa = "filter (\<lambda>axis. \<not> (mark c = Some ''bar'' \<and> gtype axis = G_continuous)) (axes c)"
  have a: "\<not> isl (mapE (\<lambda>axis.
                     olliVisSpecToNode tokensOf (if axisType axis = Some A_x then N_xAxis else N_yAxis)
                       sel (Some N_chart) (S_chart c) used facetValue None (Some axis) None None None) ?fa)"
    unfolding mapE_isl
  proof (intro notI, elim bexE)
    fix axis
    assume m: "axis \<in> set ?fa"
      and i: "isl (olliVisSpecToNode tokensOf (if axisType axis = Some A_x then N_xAxis else N_yAxis)
                       sel (Some N_chart) (S_chart c) used facetValue None (Some axis) None None None)"
    from m assms(3)[of axis] have q: "scaleType axis = Some ''quantitative'' \<longrightarrow> sel \<noteq> []"
      by auto
    have "(if axisType axis = Some A_x then N_xAxis else N_yAxis) = N_xAxis
          \<or> (if axisType axis = Some A_x then N_xAxis else N_yAxis) = N_yAxis"
      by simp
    from success_axis[OF assms(1) this q] i show False by blast
  qed
  have l: "\<not> isl (mapE (\<lambda>l. olliVisSpecToNode tokensOf N_legend
                              sel (Some N_chart) (S_chart c) used facetValue None (Some l) None None None)
                          (legends c))"
    unfolding mapE_isl using success_legend[OF assms(1)] by blast
  have g: "mark c = Some ''point'' \<Longrightarrow>
           \<not> isl (mapE (\<lambda>u. olliVisSpecToNode tokensOf N_grid
                                sel (Some N_chart) (S_chart c) used facetValue None None None None None) [()])"
    unfolding mapE_isl using success_grid[OF assms(1)] assms(4) by simp
  have n: "\<not> isl (describeNode tokensOf (Node N_chart par sel fv gi [] cs None)
                    (S_chart c) facetValue guide idx len)" for cs
    by (rule describeNode_ok[OF assms(1)]) (simp add: token_ok_chart assms(2))
  from a l g n show ?thesis
    by (simp add: olliVisSpecToNode.simps isl_bind Let_def)
qed

lemma success_chart_tree:
  assumes "tokensApply tokensOf" and "axes c \<noteq> []"
    and "\<And>a. a \<in> set (axes c) \<Longrightarrow> \<not> (mark c = Some ''bar'' \<and> gtype a = G_continuous)
            \<Longrightarrow> scaleType a = Some ''quantitative'' \<Longrightarrow> data c \<noteq> []"
    and "mark c = Some ''point'' \<Longrightarrow>
           find (\<lambda>axis. axisType axis = Some A_x) (axes c) \<noteq> None
           \<and> find (\<lambda>axis. axisType axis = Some A_y) (axes c) \<noteq> None"
  shows "\<not> isl (olliVisSpecToTree tokensOf (S_chart c))"
proof -
  have "\<not> isl (olliVisSpecToNode tokensOf N_chart (data c) None (S_chart c)
                 (getFieldsUsedForChart (S_chart c)) None None None None None None)"
  proof (rule success_chart[OF assms(1,2)])
    fix a
    assume "a \<in> set (axes c)" "\<not> (mark c = Some ''bar'' \<and> gtype a = G_continuous)"
      "scaleType a = Some ''quantitative''"
    then show "data c \<noteq> []" by (rule assms(3))
  next
    assume "mark c = Some ''point''"
    then show "find (\<lambda>axis. axisType axis = Some A_x) (axes c) \<noteq> None
           \<and> find (\<lambda>axis. axisType axis = Some A_y) (axes c) \<noteq> None"
      by (rule assms(4))
  qed
  then show ?thesis
    by (simp add: olliVisSpecToTree_def Let_def isl_bind)
qed

lemma filteredData_rows:
  assumes "olliVisSpecToNode tokensOf N_filteredData sel par spec used facetValue fv guide idx len gi = Inr c"
  shows "ntype c = N_filteredData \<and> selected c = sel
         \<and> map selected (childNodes c) = map (\<lambda>d. [d]) (selected c)
         \<and> list_all (\<lambda>d. ntype d = N_data \<and> childNodes d = []) (childNodes c)"
  using filteredData_node[OF assms] olliVisSpecToNode_shape[OF assms] by simp

text \<open>A numeric value is on one side of a bound that is a number.\<close>

lemma number_less_or_ge:
  assumes "ToNumber b \<noteq> NaN"
  shows "js_lt (Number v) b \<or> js_ge (Number v) b"
  using assms
  by (cases "ToNumber b") (auto simp: js_lt_def js_ge_def js_less_def num_less_def ToNumber_def
                               split: OlliValue.splits)

lemma chain_cover:
  assumes "successively (\<lambda>a b. snd a = fst b) is" and "is \<noteq> []"
    and "\<forall>p \<in> set (butlast is). ToNumber (snd p) \<noteq> NaN"
    and "js_ge (Number v) (fst (hd is))" and "js_lt (Number v) (snd (last is))"
  shows "\<exists>p \<in> set is. js_ge (Number v) (fst p) \<and> js_lt (Number v) (snd p)"
  using assms
proof (induction "is")
  case Nil
  then show ?case by simp
next
  case (Cons p ps)
  show ?case
  proof (cases ps)
    case Nil
    with Cons.prems show ?thesis by simp
  next
    case (Cons q qs)
    show ?thesis
    proof (cases "js_lt (Number v) (snd p)")
      case True
      with Cons.prems show ?thesis by auto
    next
      case False
      from Cons.prems(3) Cons have "ToNumber (snd p) \<noteq> NaN" by simp
      with False number_less_or_ge have "js_ge (Number v) (snd p)" by blast
      moreover from Cons.prems(1) Cons have "snd p = fst q" by simp
      ultimately have "js_ge (Number v) (fst (hd ps))" using Cons by simp
      moreover from Cons.prems Cons have "successively (\<lambda>a b. snd a = fst b) ps" "ps \<noteq> []"
        "\<forall>p \<in> set (butlast ps). ToNumber (snd p) \<noteq> NaN" "js_lt (Number v) (snd (last ps))"
        by simp_all
      ultimately have "\<exists>p \<in> set ps. js_ge (Number v) (fst p) \<and> js_lt (Number v) (snd p)"
        using Cons.IH by blast
      then show ?thesis by auto
    qed
  qed
qed

lemma filterInterval_number:
  assumes "field_of d f = Number v"
  shows "d \<in> set (filterInterval sel f a b) \<longleftrightarrow> d \<in> set sel \<and> js_ge (Number v) a \<and> js_lt (Number v) b"
  using assms by (auto simp: filterInterval_def Let_def isDateValue_def)

lemma intervals_chain: "successively (\<lambda>a b. snd a = fst b) (axisValuesToIntervals vs)"
proof -
  obtain vals isDate where e: "ensureAxisValuesNumeric vs = (vals, isDate)"
    by (cases "ensureAxisValuesNumeric vs")
  have "successively (\<lambda>a b. snd a = fst b) (reduce getEncodingValueIncrements [] vals)"
    by (rule increments_chain)
  then have "successively (\<lambda>a b. snd a = fst b)
               (map (\<lambda>value. (VDate (newDate (ToNumber (fst value))), VDate (newDate (ToNumber (snd value)))))
                  (reduce getEncodingValueIncrements [] vals))"
    unfolding successively_map by (rule successively_mono) auto
  with e increments_chain[of vals] show ?thesis
    by (simp add: axisValuesToIntervals_def Let_def)
qed

lemma intervals_numbers:
  "set (map snd (butlast (axisValuesToIntervals (map Number rs)))) \<subseteq> Number ` set rs"
proof (cases rs)
  case Nil
  then show ?thesis
    by (simp add: axisValuesToIntervals_def ensureAxisValuesNumeric_def reduce_def)
next
  case (Cons r rs')
  then have "axisValuesToIntervals (map Number rs) = reduce getEncodingValueIncrements [] (map Number rs)"
    by (simp add: axisValuesToIntervals_def ensure_numbers)
  with increments_inner[of "map Number rs"] show ?thesis by simp
qed

lemma bucket_built:
  assumes "olliVisSpecToNode tokensOf N_filteredData sel' par spec used facetValue fv guide idx len gi = Inr c"
    and "subseq sel' sel"
  shows "bucketOf sel c"
  using filteredData_rows[OF assms(1)] assms(2) by (simp add: bucketOf_def)

lemma subseq_filterInterval: "subseq (filterInterval sel f a b) sel"
  by (simp add: filterInterval_def)

lemma grid_built:
  assumes "olliVisSpecToNode tokensOf N_grid sel par spec used facetValue fv guide idx len gi = Inr n"
  shows "\<exists>c xAxis yAxis cs.
           spec = S_chart c
           \<and> find (\<lambda>axis. axisType axis = Some A_x) (axes c) = Some xAxis
           \<and> find (\<lambda>axis. axisType axis = Some A_y) (axes c) = Some yAxis
           \<and> mapE (\<lambda>(i, ((x1, x2), (y1, y2))).
                          olliVisSpecToNode tokensOf N_filteredData
                            (filterInterval (filterInterval sel (field xAxis) x1 x2) (field yAxis) y1 y2)
                            (Some N_grid) spec used facetValue
                            (Some (Grid (FilterRange x1 x2) (FilterRange y1 y2)))
                            None None None
                            (Some (i div length (axisValuesToIntervals (values yAxis)),
                                   i mod length (axisValuesToIntervals (values yAxis)))))
                        (enumerate 0 (cartesian (axisValuesToIntervals (values xAxis))
                                                (axisValuesToIntervals (values yAxis)))) = Inr cs
           \<and> describeNode tokensOf (Node N_grid par sel fv gi [] cs None) spec facetValue guide idx len = Inr n"
proof (cases spec)
  case (S_facetedChart f)
  with assms show ?thesis by (simp add: olliVisSpecToNode.simps)
next
  case (S_chart c)
  show ?thesis
  proof (cases "find (\<lambda>axis. axisType axis = Some A_x) (axes c)")
    case None
    with assms S_chart show ?thesis by (simp add: olliVisSpecToNode.simps)
  next
    case xa: (Some xAxis)
    show ?thesis
    proof (cases "find (\<lambda>axis. axisType axis = Some A_y) (axes c)")
      case None
      with assms S_chart xa show ?thesis by (simp add: olliVisSpecToNode.simps)
    next
      case ya: (Some yAxis)
      with assms S_chart xa show ?thesis
        by (auto simp: olliVisSpecToNode.simps Let_def split: sum.splits)
    qed
  qed
qed

lemma guide_children:
  assumes "olliVisSpecToNode tokensOf t sel par spec used facetValue fv guide idx len gi = Inr n"
    and "t = N_xAxis \<or> t = N_yAxis \<or> t = N_legend \<or> t = N_grid"
  shows "list_all (bucketOf sel) (childNodes n)"
proof -
  have axis: "list_all (bucketOf sel) (childNodes n)"
    if t: "t = N_xAxis \<or> t = N_yAxis \<or> t = N_legend"
  proof -
    from assms(1) t obtain g where g: "guide = Some g"
      by (cases guide) (auto simp: olliVisSpecToNode.simps)
    show ?thesis
    proof (cases "gtype g")
      case G_discrete
      from assms(1) t g G_discrete obtain cs where
        cs: "mapE (\<lambda>(i, v).
              olliVisSpecToNode tokensOf N_filteredData
                (filter (\<lambda>d. String (field_of d (field g)) = String v) sel)
                (Some t) spec used facetValue (Some (Encoding (FilterString (String v))))
                (Some g) (Some i) (Some (length (values g))) None)
            (enumerate 0 (values g)) = Inr cs"
        and n: "describeNode tokensOf (Node t par sel fv gi [] cs None) spec facetValue (Some g) idx len = Inr n"
        by (auto simp: olliVisSpecToNode.simps split: sum.splits)
      have "list_all (bucketOf sel) cs"
        by (rule mapE_all[OF cs]) (auto intro: bucket_built)
      with n show ?thesis by (simp add: describeNode_Inr(6))
    next
      case G_continuous
      show ?thesis
      proof (cases "t = N_legend")
        case True
        with assms(1) g G_continuous show ?thesis
          by (simp add: legend_node_continuous)
      next
        case False
        with assms(1) t g G_continuous obtain cs where
          cs: "mapE (\<lambda>(i, (a, b)).
               olliVisSpecToNode tokensOf N_filteredData
                 (filterInterval sel (field g) a b)
                 (Some t) spec used facetValue (Some (Encoding (FilterRange a b)))
                 (Some g) (Some i) (Some (length (axisValuesToIntervals (values g)))) None)
             (enumerate 0 (axisValuesToIntervals (values g))) = Inr cs"
          and n: "describeNode tokensOf (Node t par sel fv gi [] cs None) spec facetValue (Some g) idx len = Inr n"
          by (auto simp: olliVisSpecToNode.simps Let_def split: sum.splits)
        have "list_all (bucketOf sel) cs"
          by (rule mapE_all[OF cs]) (auto intro: bucket_built subseq_filterInterval)
        with n show ?thesis by (simp add: describeNode_Inr(6))
      qed
    qed
  qed
  have grid: "list_all (bucketOf sel) (childNodes n)" if t: "t = N_grid"
  proof -
    from assms(1) t
    have "olliVisSpecToNode tokensOf N_grid sel par spec used facetValue fv guide idx len gi = Inr n"
      by simp
    from grid_built[OF this]
    obtain c xAxis yAxis cs where
      all: "spec = S_chart c
           \<and> find (\<lambda>axis. axisType axis = Some A_x) (axes c) = Some xAxis
           \<and> find (\<lambda>axis. axisType axis = Some A_y) (axes c) = Some yAxis
           \<and> mapE (\<lambda>(i, ((x1, x2), (y1, y2))).
                          olliVisSpecToNode tokensOf N_filteredData
                            (filterInterval (filterInterval sel (field xAxis) x1 x2) (field yAxis) y1 y2)
                            (Some N_grid) spec used facetValue
                            (Some (Grid (FilterRange x1 x2) (FilterRange y1 y2)))
                            None None None
                            (Some (i div length (axisValuesToIntervals (values yAxis)),
                                   i mod length (axisValuesToIntervals (values yAxis)))))
                        (enumerate 0 (cartesian (axisValuesToIntervals (values xAxis))
                                                (axisValuesToIntervals (values yAxis)))) = Inr cs
           \<and> describeNode tokensOf (Node N_grid par sel fv gi [] cs None) spec facetValue guide idx len = Inr n"
      by (elim exE) (rule that)
    note cs = all[THEN conjunct2, THEN conjunct2, THEN conjunct2, THEN conjunct1]
    note n = all[THEN conjunct2, THEN conjunct2, THEN conjunct2, THEN conjunct2]
    have "subseq (filterInterval (filterInterval sel fx x1 x2) fy y1 y2) sel" for fx x1 x2 fy y1 y2
      using subseq_filterInterval subseq_order.order_trans by blast
    then have "list_all (bucketOf sel) cs"
      by (intro mapE_all[OF cs]) (auto intro: bucket_built)
    with n show ?thesis by (simp add: describeNode_Inr(6))
  qed
  from assms(2) axis grid show ?thesis by blast
qed

section \<open>The interval binner on the two example axes\<close>

text \<open>
  C2 (as stated): for the ticks \<open>[0, 10, 20, 30]\<close> the binner returns exactly the three
  intervals \<open>[[0,10],[10,20],[20,30]]\<close>. The code does not: it returns a fourth one.
\<close>

theorem C2_three_intervals_counterexample:
  "axisValuesToIntervals [Number 0, Number 10, Number 20, Number 30]
     \<noteq> [(Number 0, Number 10), (Number 10, Number 20), (Number 20, Number 30)]"
  by code_simp

text \<open>
  C2 (amended): for the ticks \<open>[0, 10, 20, 30]\<close> the binner emits nothing for the
  zero-valued first tick, so there is no bucket below zero, and returns exactly the four
  intervals \<open>[[0,10],[10,20],[20,30],[30,40]]\<close>: the last one is the bucket synthesized
  above the last tick.
\<close>

theorem C2_zero_first_tick:
  "getEncodingValueIncrements [] (Number 0) 0 [Number 0, Number 10, Number 20, Number 30] = []
   \<and> axisValuesToIntervals [Number 0, Number 10, Number 20, Number 30]
       = [(Number 0, Number 10), (Number 10, Number 20), (Number 20, Number 30),
          (Number 30, Number 40)]"
  by code_simp

text \<open>
  C3: for the ticks \<open>[10, 20, 30]\<close> the binner returns exactly the four intervals
  \<open>[[0,10],[10,20],[20,30],[30,40]]\<close>: the bucket synthesized below the first tick, of
  the width of the gap to the second tick, the interior buckets, and the bucket
  synthesized above the last tick, of the width of the gap from the tick before it.
\<close>

theorem C3_nonzero_first_tick:
  "axisValuesToIntervals [Number 10, Number 20, Number 30]
     = [(js_minus (Number 10) (js_minus (Number 20) (Number 10)), Number 10),
        (Number 10, Number 20), (Number 20, Number 30),
        (Number 30, js_plus (Number 30) (js_minus (Number 30) (Number 20)))]
   \<and> axisValuesToIntervals [Number 10, Number 20, Number 30]
     = [(Number 0, Number 10), (Number 10, Number 20), (Number 20, Number 30),
        (Number 30, Number 40)]"
  by code_simp

section \<open>Legends\<close>

text \<open>
  C7: for a token table that lists only tokens its node types have, building a legend
  node whose guide is \<open>continuous\<close> succeeds and the node has no children (the
  unsupported case does not throw); building one whose guide is \<open>discrete\<close> succeeds
  with one \<open>filteredData\<close> child per enumerated value, in order, holding the rows whose
  field value, as a string, equals the value as a string.
\<close>

theorem C7_legend:
  assumes "tokensApply tokensOf"
  shows "(gtype l = G_continuous \<longrightarrow>
            (\<exists>n. olliVisSpecToNode tokensOf N_legend sel par spec used facetValue fv (Some l) idx len gi = Inr n
                 \<and> ntype n = N_legend \<and> selected n = sel \<and> childNodes n = []))
       \<and> (gtype l = G_discrete \<longrightarrow>
            (\<exists>n. olliVisSpecToNode tokensOf N_legend sel par spec used facetValue fv (Some l) idx len gi = Inr n
                 \<and> list_all (\<lambda>c. ntype c = N_filteredData) (childNodes n)
                 \<and> map selected (childNodes n)
                     = map (\<lambda>v. filter (\<lambda>d. String (field_of d (field l)) = String v) sel) (values l)))"
proof -
  obtain n where n: "olliVisSpecToNode tokensOf N_legend sel par spec used facetValue fv (Some l) idx len gi = Inr n"
    using success_legend[OF assms] not_isl_Inr by blast
  show ?thesis
  proof (intro conjI impI)
    assume "gtype l = G_continuous"
    with olliVisSpecToNode_shape[OF n] legend_node_continuous[OF n] n
    show "\<exists>n. olliVisSpecToNode tokensOf N_legend sel par spec used facetValue fv (Some l) idx len gi = Inr n
                 \<and> ntype n = N_legend \<and> selected n = sel \<and> childNodes n = []"
      by blast
  next
    assume "gtype l = G_discrete"
    with axis_node_discrete[OF n] n
    show "\<exists>n. olliVisSpecToNode tokensOf N_legend sel par spec used facetValue fv (Some l) idx len gi = Inr n
                 \<and> list_all (\<lambda>c. ntype c = N_filteredData) (childNodes n)
                 \<and> map selected (childNodes n)
                     = map (\<lambda>v. filter (\<lambda>d. String (field_of d (field l)) = String v) sel) (values l)"
      by blast
  qed
qed

text \<open>
  The witness: with the token table modelled from the spec, a continuous legend over
  three rows has no children, and the discrete legend with the values A and B over the
  rows A, B, A has two children, of two rows and of one.
\<close>

theorem C7_legend_witness:
  "(\<exists>n. olliVisSpecToNode specTokens N_legend [[(''f'', VStr ''A'')], [(''f'', VStr ''B'')], [(''f'', VStr ''A'')]]
           (Some N_chart) (S_chart \<lparr>mark = Some ''point'', axes = [], legends = [], data = [], chart_title = None\<rparr>) [''f''] None None
           (Some \<lparr>values = [Number 0, Number 1], title = None, field = ''f'', scaleType = None,
                   gtype = G_continuous, axisType = None, channel = Some ''color''\<rparr>) None None None = Inr n
        \<and> ntype n = N_legend
        \<and> selected n = [[(''f'', VStr ''A'')], [(''f'', VStr ''B'')], [(''f'', VStr ''A'')]]
        \<and> childNodes n = [])
   \<and> (\<exists>n. olliVisSpecToNode specTokens N_legend [[(''f'', VStr ''A'')], [(''f'', VStr ''B'')], [(''f'', VStr ''A'')]]
           (Some N_chart) (S_chart \<lparr>mark = Some ''point'', axes = [], legends = [], data = [], chart_title = None\<rparr>) [''f''] None None
           (Some \<lparr>values = [VStr ''A'', VStr ''B''], title = None, field = ''f'', scaleType = None,
                   gtype = G_discrete, axisType = None, channel = Some ''color''\<rparr>) None None None = Inr n
        \<and> list_all (\<lambda>c. ntype c = N_filteredData) (childNodes n)
        \<and> map selected (childNodes n)
            = [[[(''f'', VStr ''A'')], [(''f'', VStr ''A'')]], [[(''f'', VStr ''B'')]]])"
  using
    C7_legend[OF specTokens_apply,
      of "\<lparr>values = [Number 0, Number 1], title = None, field = ''f'', scaleType = None,
                   gtype = G_continuous, axisType = None, channel = Some ''color''\<rparr>"
         "[[(''f'', VStr ''A'')], [(''f'', VStr ''B'')], [(''f'', VStr ''A'')]]" "Some N_chart"
         "S_chart \<lparr>mark = Some ''point'', axes = [], legends = [], data = [], chart_title = None\<rparr>"
         "[''f'']" None None None None None]
    C7_legend[OF specTokens_apply,
      of "\<lparr>values = [VStr ''A'', VStr ''B''], title = None, field = ''f'', scaleType = None,
                   gtype = G_discrete, axisType = None, channel = Some ''color''\<rparr>"
         "[[(''f'', VStr ''A'')], [(''f'', VStr ''B'')], [(''f'', VStr ''A'')]]" "Some N_chart"
         "S_chart \<lparr>mark = Some ''point'', axes = [], legends = [], data = [], chart_title = None\<rparr>"
         "[''f'']" None None None None None]
  by (simp add: String_def field_of_def)

section \<open>A quantitative axis over no rows\<close>

lemma aggregate_throws:
  assumes "ntype node = N_xAxis \<or> ntype node = N_yAxis" and "selected node = []"
    and "scaleType a = Some ''quantitative''"
  shows "isl (tokenFunctions T_aggregate node spec facetValue (Some a) idx len)"
  using assms
  by (auto simp: tokenFunctions_def token_aggregate_def axis_aggregate_def maximumValue_def Let_def)

lemma axis_throws:
  assumes "t = N_xAxis \<or> t = N_yAxis" and "scaleType a = Some ''quantitative''"
    and "T_aggregate \<in> set (tokensOf t)"
  shows "isl (olliVisSpecToNode tokensOf t [] par spec used facetValue fv (Some a) idx len gi)"
proof -
  have "isl (describeNode tokensOf (Node t par [] fv gi [] cs None) spec facetValue (Some a) idx len)" for cs
    using assms aggregate_throws[of "Node t par [] fv gi [] cs None" a spec facetValue idx len]
    by (auto simp: describeNode_isl)
  with assms(1) show ?thesis
    by (cases "gtype a") (auto simp: olliVisSpecToNode.simps isl_bind Let_def)
qed

text \<open>
  C9: for an axis node (x or y) whose guide has the scale type \<open>quantitative\<close> and whose
  \<open>selected\<close> is empty, \<open>maximumValue\<close> and \<open>minimumValue\<close> read \<^verbatim>\<open>selected[0]\<close> of the empty
  sequence and throw; so, when the aggregate token is among the tokens of the axis,
  building the node throws, and so does building the tree of a chart without rows that
  keeps such an axis.
\<close>

theorem C9_quantitative_axis_without_rows:
  assumes "t = N_xAxis \<or> t = N_yAxis" and "scaleType a = Some ''quantitative''"
  shows "maximumValue (Node t par [] fv gi desc cs tk) a = Inl TypeError
       \<and> minimumValue (Node t par [] fv gi desc cs tk) a = Inl TypeError
       \<and> (T_aggregate \<in> set (tokensOf t) \<longrightarrow>
            (\<exists>e. olliVisSpecToNode tokensOf t [] par spec used facetValue fv (Some a) idx len gi = Inl e))
       \<and> (T_aggregate \<in> set (tokensOf N_xAxis) \<and> T_aggregate \<in> set (tokensOf N_yAxis)
            \<and> data c = [] \<and> a \<in> set (axes c) \<and> \<not> (mark c = Some ''bar'' \<and> gtype a = G_continuous) \<longrightarrow>
            (\<exists>e. olliVisSpecToTree tokensOf (S_chart c) = Inl e))"
proof (intro conjI impI)
  show "maximumValue (Node t par [] fv gi desc cs tk) a = Inl TypeError"
    using assms(2) by (simp add: maximumValue_def)
  show "minimumValue (Node t par [] fv gi desc cs tk) a = Inl TypeError"
    using assms(2) by (simp add: minimumValue_def)
next
  assume "T_aggregate \<in> set (tokensOf t)"
  with assms axis_throws[of t a tokensOf par spec used facetValue fv idx len gi]
  show "\<exists>e. olliVisSpecToNode tokensOf t [] par spec used facetValue fv (Some a) idx len gi = Inl e"
    by (cases "olliVisSpecToNode tokensOf t [] par spec used facetValue fv (Some a) idx len gi") auto
next
  assume h: "T_aggregate \<in> set (tokensOf N_xAxis) \<and> T_aggregate \<in> set (tokensOf N_yAxis)
            \<and> data c = [] \<and> a \<in> set (axes c) \<and> \<not> (mark c = Some ''bar'' \<and> gtype a = G_continuous)"
  let ?u = "getFieldsUsedForChart (S_chart c)"
  let ?fa = "filter (\<lambda>axis. \<not> (mark c = Some ''bar'' \<and> gtype axis = G_continuous)) (axes c)"
  have "isl (olliVisSpecToNode tokensOf (if axisType a = Some A_x then N_xAxis else N_yAxis)
               [] (Some N_chart) (S_chart c) ?u None None (Some a) None None None)"
    using h assms(2) by (intro axis_throws) auto
  moreover have "a \<in> set ?fa" using h by simp
  ultimately have "isl (mapE (\<lambda>axis.
                     olliVisSpecToNode tokensOf (if axisType axis = Some A_x then N_xAxis else N_yAxis)
                       [] (Some N_chart) (S_chart c) ?u None None (Some axis) None None None) ?fa)"
    unfolding mapE_isl by blast
  then have "isl (olliVisSpecToNode tokensOf N_chart [] None (S_chart c) ?u None None None None None None)"
    by (simp add: olliVisSpecToNode.simps isl_bind Let_def)
  then have "isl (olliVisSpecToTree tokensOf (S_chart c))"
    using h by (simp add: olliVisSpecToTree_def Let_def isl_bind split: sum.splits)
  then show "\<exists>e. olliVisSpecToTree tokensOf (S_chart c) = Inl e"
    by (cases "olliVisSpecToTree tokensOf (S_chart c)") auto
qed

text \<open>
  The witness: with the token table modelled from the spec, the tree of a line chart
  without rows whose x axis is quantitative is not built.
\<close>

theorem C9_quantitative_axis_without_rows_witness:
  "\<exists>e. olliVisSpecToTree specTokens
          (S_chart \<lparr>mark = Some ''line'',
                    axes = [\<lparr>values = [Number 0, Number 10], title = None, field = ''p'',
                             scaleType = Some ''quantitative'', gtype = G_continuous,
                             axisType = Some A_x, channel = None\<rparr>],
                    legends = [], data = [], chart_title = None\<rparr>) = Inl e"
  using C9_quantitative_axis_without_rows[
      where t = N_xAxis and tokensOf = specTokens
        and a = "\<lparr>values = [Number 0, Number 10], title = None, field = ''p'',
                  scaleType = Some ''quantitative'', gtype = G_continuous,
                  axisType = Some A_x, channel = None\<rparr>"
        and c = "\<lparr>mark = Some ''line'',
                    axes = [\<lparr>values = [Number 0, Number 10], title = None, field = ''p'',
                             scaleType = Some ''quantitative'', gtype = G_continuous,
                             axisType = Some A_x, channel = None\<rparr>],
                    legends = [], data = [], chart_title = None\<rparr>"]
  by (simp add: specTokens_def nodeTypeToHierarchyLevel_def hierarchyLevelToTokens_def)

section \<open>A single tick\<close>

lemma list_of_one: "map f xs = [a] \<Longrightarrow> \<exists>c. xs = [c] \<and> f c = a"
  by (cases xs) auto

text \<open>
  C10: for a tick array of exactly one number \<open>r\<close> other than zero, the binner returns
  the single interval \<open>[NaN, r]\<close> (the gap to the tick after it, which does not exist, is
  NaN); the range filter keeps no row for it; and the axis node is built all the same, for
  a token table that lists only tokens its node types have, with one filteredData child
  that selects no rows and has no children: the rows under that axis are dropped and
  nothing is thrown.
\<close>

theorem C10_single_nonzero_tick:
  assumes "r \<noteq> 0"
  shows "axisValuesToIntervals [Number r] = [(VNum NaN, Number r)]
       \<and> filterInterval sel f (VNum NaN) (Number r) = []
       \<and> (tokensApply tokensOf \<and> (t = N_xAxis \<or> t = N_yAxis) \<and> gtype a = G_continuous
            \<and> values a = [Number r] \<and> (scaleType a = Some ''quantitative'' \<longrightarrow> sel \<noteq> []) \<longrightarrow>
          (\<exists>n c. olliVisSpecToNode tokensOf t sel par spec used facetValue fv (Some a) idx len gi = Inr n
                \<and> selected n = sel \<and> childNodes n = [c]
                \<and> ntype c = N_filteredData \<and> selected c = [] \<and> childNodes c = []))"
proof (intro conjI impI)
  show i: "axisValuesToIntervals [Number r] = [(VNum NaN, Number r)]"
    using assms
    by (simp add: axisValuesToIntervals_def ensure_numbers single_tick isZero_def js_minus_def
                  ToNumber_def num_sub_def)
  show "filterInterval sel f (VNum NaN) (Number r) = []"
    by (rule filterInterval_NaN)
  assume h: "tokensApply tokensOf \<and> (t = N_xAxis \<or> t = N_yAxis) \<and> gtype a = G_continuous
            \<and> values a = [Number r] \<and> (scaleType a = Some ''quantitative'' \<longrightarrow> sel \<noteq> [])"
  then obtain n where n: "olliVisSpecToNode tokensOf t sel par spec used facetValue fv (Some a) idx len gi = Inr n"
    using success_axis[of tokensOf t a sel par spec used facetValue fv idx len gi] not_isl_Inr by blast
  from h axis_node_continuous[OF n] i
  have s: "map selected (childNodes n) = [[]]"
    by (simp add: filterInterval_NaN)
  from h guide_children[OF n] have rows: "list_all (bucketOf sel) (childNodes n)"
    by blast
  from list_of_one[OF s] obtain c where c: "childNodes n = [c]" "selected c = []" by blast
  with rows have "ntype c = N_filteredData" "childNodes c = []" by (simp_all add: bucketOf_def)
  with n c olliVisSpecToNode_shape[OF n]
  show "\<exists>n c. olliVisSpecToNode tokensOf t sel par spec used facetValue fv (Some a) idx len gi = Inr n
                \<and> selected n = sel \<and> childNodes n = [c]
                \<and> ntype c = N_filteredData \<and> selected c = [] \<and> childNodes c = []"
    by blast
qed

text \<open>
  The witness: the x axis with the single tick 5 over two rows, with the token table
  modelled from the spec.
\<close>

theorem C10_single_nonzero_tick_witness:
  "axisValuesToIntervals [Number 5] = [(VNum NaN, Number 5)]
   \<and> filterInterval [[(''p'', Number 3)], [(''p'', Number 7)]] ''p'' (VNum NaN) (Number 5) = []
   \<and> (\<exists>n c. olliVisSpecToNode specTokens N_xAxis [[(''p'', Number 3)], [(''p'', Number 7)]] (Some N_chart)
               (S_chart \<lparr>mark = Some ''line'', axes = [], legends = [], data = [], chart_title = None\<rparr>)
               [''p''] None None
               (Some \<lparr>values = [Number 5], title = None, field = ''p'', scaleType = Some ''quantitative'',
                       gtype = G_continuous, axisType = Some A_x, channel = None\<rparr>) None None None = Inr n
             \<and> selected n = [[(''p'', Number 3)], [(''p'', Number 7)]] \<and> childNodes n = [c]
             \<and> ntype c = N_filteredData \<and> selected c = [] \<and> childNodes c = [])"
  using C10_single_nonzero_tick[where r = 5 and tokensOf = specTokens and t = N_xAxis
      and sel = "[[(''p'', Number 3)], [(''p'', Number 7)]]" and f = "''p''"
      and a = "\<lparr>values = [Number 5], title = None, field = ''p'', scaleType = Some ''quantitative'',
                       gtype = G_continuous, axisType = Some A_x, channel = None\<rparr>"
      and par = "Some N_chart" and used = "[''p'']" and facetValue = None and fv = None
      and idx = None and len = None and gi = None
      and spec = "S_chart \<lparr>mark = Some ''line'', axes = [], legends = [], data = [], chart_title = None\<rparr>"]
    specTokens_apply
  by simp

section \<open>Tick arrays that are not numbers\<close>

lemma reduce_invariant:
  assumes "Q 0 init"
    and "\<And>k acc. k < length arr \<Longrightarrow> Q k acc \<Longrightarrow> Q (Suc k) (f acc (arr ! k) k arr)"
  shows "Q (length arr) (reduce f init arr)"
proof -
  have "Q k (foldl (\<lambda>acc (i, v). f acc v i arr) init (take k (zip [0..<length arr] arr)))"
    if "k \<le> length arr" for k
    using that
  proof (induction k)
    case 0
    then show ?case by (simp add: assms(1))
  next
    case (Suc k)
    then have k: "k < length arr" by simp
    have "take (Suc k) (zip [0..<length arr] arr) = take k (zip [0..<length arr] arr) @ [(k, arr ! k)]"
      using k by (simp add: take_Suc_conv_app_nth)
    with Suc assms(2)[OF k] show ?case by simp
  qed
  from this[of "length arr"] show ?thesis by (simp add: reduce_def)
qed

lemma num_sub_NaN: "num_sub NaN b = NaN"
  by (simp add: num_sub_def)

lemma num_add_NaN: "num_add NaN b = NaN"
  by (simp add: num_add_def)

lemma js_minus_NaN: "ToNumber a = NaN \<Longrightarrow> js_minus a b = VNum NaN"
  by (simp add: js_minus_def num_sub_NaN)

lemma NaN_increments:
  assumes "set arr \<subseteq> {VNum NaN}"
  shows "set (reduce getEncodingValueIncrements [] arr) \<subseteq> {(VNum NaN, VNum NaN)}"
proof -
  have step: "set (getEncodingValueIncrements acc (arr ! k) k arr) \<subseteq> {(VNum NaN, VNum NaN)}"
    if k: "k < length arr" and acc: "set acc \<subseteq> {(VNum NaN, VNum NaN)}" for k acc
  proof -
    from k assms have v: "arr ! k = VNum NaN"
      using nth_mem by blast
    have prev: "0 < k \<Longrightarrow> arr_at arr (int k - 1) = VNum NaN"
    proof -
      assume "0 < k"
      with k have "arr_at arr (int k - 1) = arr ! (k - 1)" "k - 1 < length arr"
        by (simp_all add: arr_at_def nat_diff_distrib')
      with assms show ?thesis using nth_mem by fastforce
    qed
    have cur: "arr_at arr (int k - 1 + 1) = VNum NaN"
      using k v by (simp add: arr_at_def)
    show ?thesis
      using acc v prev cur
      by (cases "k = 0")
         (auto simp: getEncodingValueIncrements_def Let_def isZero_def js_minus_NaN ToNumber_def
                     js_plus_def isStringy_def js_minus_def num_add_NaN num_sub_NaN)
  qed
  show ?thesis
    by (rule reduce_invariant[where Q = "\<lambda>k acc. set acc \<subseteq> {(VNum NaN, VNum NaN)}"])
       (simp_all add: step)
qed

lemma unparsed_strings:
  assumes "list_all isStringValue vs"
    and "list_all (\<lambda>v. ToNumber (VStr (replaceAllCommas (String v))) = NaN) vs"
  shows "set (axisValuesToIntervals vs) \<subseteq> {(VNum NaN, VNum NaN)}"
proof -
  have "set (map (\<lambda>s. VNum (ToNumber (VStr (replaceAllCommas (String s))))) vs) \<subseteq> {VNum NaN}"
    using assms(2) by (auto simp: list_all_iff)
  from NaN_increments[OF this] assms(1) show ?thesis
    by (simp add: axisValuesToIntervals_def ensureAxisValuesNumeric_def)
qed

text \<open>
  C5 (as stated): a tick array that is neither all-numeric nor all-date makes tree
  construction fail at the Interval Binner. It does not: with the ticks \<open>"a"\<close> and \<open>"b"\<close>,
  strings that do not parse as numbers, the tree is built, over three intervals whose
  bounds are all NaN; and the mixed array of the number 1 and the string \<open>"2"\<close> is binned
  as it is, into intervals whose last bounds are strings.
\<close>

theorem C5_unparsed_ticks_counterexample:
  "\<not> isl (olliVisSpecToTree specTokens
            (S_chart \<lparr>mark = Some ''line'',
                      axes = [\<lparr>values = [VStr ''a'', VStr ''b''], title = None, field = ''p'',
                               scaleType = None, gtype = G_continuous, axisType = Some A_x,
                               channel = None\<rparr>],
                      legends = [], data = [[(''p'', Number 1)]], chart_title = None\<rparr>))
   \<and> axisValuesToIntervals [VStr ''a'', VStr ''b'']
       = [(VNum NaN, VNum NaN), (VNum NaN, VNum NaN), (VNum NaN, VNum NaN)]
   \<and> axisValuesToIntervals [Number 1, VStr ''2'']
       = [(Number 0, Number 1), (Number 1, VStr ''2''), (VStr ''2'', VStr ''21'')]"
proof (intro conjI)
  show "\<not> isl (olliVisSpecToTree specTokens
            (S_chart \<lparr>mark = Some ''line'',
                      axes = [\<lparr>values = [VStr ''a'', VStr ''b''], title = None, field = ''p'',
                               scaleType = None, gtype = G_continuous, axisType = Some A_x,
                               channel = None\<rparr>],
                      legends = [], data = [[(''p'', Number 1)]], chart_title = None\<rparr>))"
    by (rule success_chart_tree[OF specTokens_apply]) simp_all
  show "axisValuesToIntervals [VStr ''a'', VStr ''b'']
       = [(VNum NaN, VNum NaN), (VNum NaN, VNum NaN), (VNum NaN, VNum NaN)]"
    by code_simp
  show "axisValuesToIntervals [Number 1, VStr ''2'']
       = [(Number 0, Number 1), (Number 1, VStr ''2''), (VStr ''2'', VStr ''21'')]"
    by code_simp
qed

text \<open>
  C5 (amended): the Interval Binner does not validate its ticks and has no error path.
  If every tick is a string that does not parse as a number, every interval has two NaN
  bounds and selects no rows. A tick array that is neither all strings nor all dates is
  binned as it is, unconverted. Whatever the ticks, the node of a continuous x or y axis
  that has rows, or whose scale type is not quantitative, is built, for a token table
  that lists only tokens the node types have: its children are \<open>filteredData\<close> nodes, one
  for each interval the binner returns, with that interval as filter value and the rows
  that \<^verbatim>\<open>filterInterval\<close> keeps for it.
\<close>

theorem C5_ticks_are_not_validated:
  "(list_all isStringValue vs \<and> list_all (\<lambda>v. ToNumber (VStr (replaceAllCommas (String v))) = NaN) vs \<longrightarrow>
      list_all (\<lambda>(lo, hi). lo = VNum NaN \<and> hi = VNum NaN \<and> filterInterval sel f lo hi = [])
        (axisValuesToIntervals vs))
   \<and> (\<not> list_all isStringValue vs \<and> \<not> list_all isDateValue vs \<longrightarrow>
      axisValuesToIntervals vs = reduce getEncodingValueIncrements [] vs)
   \<and> (tokensApply tokensOf \<and> (t = N_xAxis \<or> t = N_yAxis) \<and> gtype a = G_continuous
        \<and> (scaleType a = Some ''quantitative'' \<longrightarrow> sel \<noteq> []) \<longrightarrow>
      (\<exists>n. olliVisSpecToNode tokensOf t sel par spec used facetValue fv (Some a) idx len gi = Inr n
           \<and> map selected (childNodes n)
               = map (\<lambda>(lo, hi). filterInterval sel (field a) lo hi) (axisValuesToIntervals (values a))
           \<and> map filterValue (childNodes n)
               = map (\<lambda>(lo, hi). Some (Encoding (FilterRange lo hi))) (axisValuesToIntervals (values a))
           \<and> list_all (\<lambda>c. ntype c = N_filteredData) (childNodes n)))"
proof (intro conjI impI)
  assume "list_all isStringValue vs \<and> list_all (\<lambda>v. ToNumber (VStr (replaceAllCommas (String v))) = NaN) vs"
  then have "set (axisValuesToIntervals vs) \<subseteq> {(VNum NaN, VNum NaN)}"
    using unparsed_strings by blast
  then show "list_all (\<lambda>(lo, hi). lo = VNum NaN \<and> hi = VNum NaN \<and> filterInterval sel f lo hi = [])
        (axisValuesToIntervals vs)"
    by (auto simp: list_all_iff filterInterval_NaN)
next
  assume "\<not> list_all isStringValue vs \<and> \<not> list_all isDateValue vs"
  then show "axisValuesToIntervals vs = reduce getEncodingValueIncrements [] vs"
    by (simp add: axisValuesToIntervals_def ensureAxisValuesNumeric_def)
next
  assume h: "tokensApply tokensOf \<and> (t = N_xAxis \<or> t = N_yAxis) \<and> gtype a = G_continuous
        \<and> (scaleType a = Some ''quantitative'' \<longrightarrow> sel \<noteq> [])"
  then obtain n where n: "olliVisSpecToNode tokensOf t sel par spec used facetValue fv (Some a) idx len gi = Inr n"
    using success_axis[of tokensOf t a sel par spec used facetValue fv idx len gi] not_isl_Inr by blast
  from h have "t = N_xAxis \<or> t = N_yAxis" "gtype a = G_continuous" by simp_all
  from axis_node_continuous[OF n this]
  show "\<exists>n. olliVisSpecToNode tokensOf t sel par spec used facetValue fv (Some a) idx len gi = Inr n
           \<and> map selected (childNodes n)
               = map (\<lambda>(lo, hi). filterInterval sel (field a) lo hi) (axisValuesToIntervals (values a))
           \<and> map filterValue (childNodes n)
               = map (\<lambda>(lo, hi). Some (Encoding (FilterRange lo hi))) (axisValuesToIntervals (values a))
           \<and> list_all (\<lambda>c. ntype c = N_filteredData) (childNodes n)"
    using n by (intro exI[of _ n]) simp
qed

text \<open>
  The witness: the ticks \<open>"a"\<close> and \<open>"b"\<close> over one row, the mixed ticks 1 and \<open>"2"\<close>, and
  the x axis with the ticks \<open>"a"\<close> and \<open>"b"\<close>, with the token table modelled from the spec.
\<close>

theorem C5_ticks_are_not_validated_witness:
  "list_all (\<lambda>(lo, hi). lo = VNum NaN \<and> hi = VNum NaN
                \<and> filterInterval [[(''p'', Number 1)]] ''p'' lo hi = [])
     (axisValuesToIntervals [VStr ''a'', VStr ''b''])
   \<and> axisValuesToIntervals [Number 1, VStr ''2'']
       = reduce getEncodingValueIncrements [] [Number 1, VStr ''2'']
   \<and> (\<exists>n. olliVisSpecToNode specTokens N_xAxis [[(''p'', Number 1)]] (Some N_chart)
             (S_chart \<lparr>mark = Some ''line'', axes = [], legends = [], data = [], chart_title = None\<rparr>)
             [''p''] None None
             (Some \<lparr>values = [VStr ''a'', VStr ''b''], title = None, field = ''p'', scaleType = None,
                     gtype = G_continuous, axisType = Some A_x, channel = None\<rparr>) None None None = Inr n
           \<and> map selected (childNodes n)
               = map (\<lambda>(lo, hi). filterInterval [[(''p'', Number 1)]] ''p'' lo hi)
                   (axisValuesToIntervals [VStr ''a'', VStr ''b''])
           \<and> map filterValue (childNodes n)
               = map (\<lambda>(lo, hi). Some (Encoding (FilterRange lo hi)))
                   (axisValuesToIntervals [VStr ''a'', VStr ''b''])
           \<and> list_all (\<lambda>c. ntype c = N_filteredData) (childNodes n))"
proof -
  have p: "ToNumber (VStr (replaceAllCommas (String (VStr ''a'')))) = NaN"
          "ToNumber (VStr (replaceAllCommas (String (VStr ''b'')))) = NaN"
    by code_simp+
  show ?thesis
    using C5_ticks_are_not_validated[where vs = "[VStr ''a'', VStr ''b'']"
        and sel = "[[(''p'', Number 1)]]" and f = "''p''" and tokensOf = specTokens and t = N_xAxis
        and a = "\<lparr>values = [VStr ''a'', VStr ''b''], title = None, field = ''p'', scaleType = None,
                     gtype = G_continuous, axisType = Some A_x, channel = None\<rparr>"
        and par = "Some N_chart" and used = "[''p'']" and facetValue = None and fv = None
        and idx = None and len = None and gi = None
        and spec = "S_chart \<lparr>mark = Some ''line'', axes = [], legends = [], data = [], chart_title = None\<rparr>"]
      C5_ticks_are_not_validated[where vs = "[Number 1, VStr ''2'']"]
      specTokens_apply p
    by (simp add: isStringValue_def isDateValue_def)
qed

section \<open>Consecutive intervals and the rows they cover\<close>

lemma in_set_butlast_nth:
  assumes "p \<in> set (butlast xs)"
  shows "\<exists>i. Suc i < length xs \<and> xs ! i = p"
proof -
  from assms obtain i where "i < length (butlast xs)" "butlast xs ! i = p"
    by (auto simp: in_set_conv_nth)
  then have "Suc i < length xs \<and> xs ! i = p"
    by (simp add: nth_butlast)
  then show ?thesis by blast
qed

lemma covered_row:
  assumes n: "olliVisSpecToNode tokensOf t sel par spec used facetValue fv (Some g) idx len gi = Inr n"
    and t: "t = N_xAxis \<or> t = N_yAxis" and g: "gtype g = G_continuous"
    and p: "p \<in> set (axisValuesToIntervals (values g))"
    and d: "d \<in> set (filterInterval sel (field g) (fst p) (snd p))"
  shows "\<exists>c \<in> set (childNodes n). ntype c = N_filteredData \<and> d \<in> set (selected c)"
proof -
  from axis_node_continuous[OF n t g]
  have s: "map selected (childNodes n)
             = map (\<lambda>(a, b). filterInterval sel (field g) a b) (axisValuesToIntervals (values g))"
    and f: "list_all (\<lambda>c. ntype c = N_filteredData) (childNodes n)"
    by simp_all
  from p obtain j where j: "j < length (axisValuesToIntervals (values g))"
    "axisValuesToIntervals (values g) ! j = p"
    by (auto simp: in_set_conv_nth)
  from s have l: "length (childNodes n) = length (axisValuesToIntervals (values g))"
    using length_map by metis
  from s j l have "map selected (childNodes n) ! j = filterInterval sel (field g) (fst p) (snd p)"
    by (simp add: case_prod_beta)
  with j l have "selected (childNodes n ! j) = filterInterval sel (field g) (fst p) (snd p)"
    by simp
  moreover from j l have "childNodes n ! j \<in> set (childNodes n)" by simp
  ultimately show ?thesis using f d
    by (intro bexI[of _ "childNodes n ! j"]) (simp_all add: list_all_iff)
qed

lemma nth_in_butlast:
  assumes "Suc i < length xs"
  shows "xs ! i \<in> set (butlast xs)"
proof -
  from assms have "i < length (butlast xs)" by simp
  then have "butlast xs ! i \<in> set (butlast xs)" by (rule nth_mem)
  moreover from assms have "butlast xs ! i = xs ! i" by (simp add: nth_butlast)
  ultimately show ?thesis by simp
qed

lemma kept_rows:
  assumes n: "olliVisSpecToNode tokensOf t sel par spec used facetValue fv (Some g) idx len gi = Inr n"
    and t: "t = N_xAxis \<or> t = N_yAxis" and g: "gtype g = G_continuous"
    and v: "field_of d (field g) = Number v"
  shows "(\<exists>c \<in> set (childNodes n). d \<in> set (selected c))
           \<longleftrightarrow> d \<in> set sel \<and> (\<exists>p \<in> set (axisValuesToIntervals (values g)).
                                  js_ge (Number v) (fst p) \<and> js_lt (Number v) (snd p))"
proof -
  from axis_node_continuous[OF n t g]
  have s: "map selected (childNodes n)
             = map (\<lambda>(a, b). filterInterval sel (field g) a b) (axisValuesToIntervals (values g))"
    by simp
  have "(\<exists>c \<in> set (childNodes n). d \<in> set (selected c))
          \<longleftrightarrow> (\<exists>r \<in> set (map selected (childNodes n)). d \<in> set r)"
    by simp
  also have "\<dots> \<longleftrightarrow> (\<exists>p \<in> set (axisValuesToIntervals (values g)).
                          d \<in> set (filterInterval sel (field g) (fst p) (snd p)))"
    unfolding s by (simp add: case_prod_beta)
  also have "\<dots> \<longleftrightarrow> d \<in> set sel \<and> (\<exists>p \<in> set (axisValuesToIntervals (values g)).
                                  js_ge (Number v) (fst p) \<and> js_lt (Number v) (snd p))"
    by (simp add: filterInterval_number[OF v])
  finally show ?thesis .
qed

lemma ticks_10_20_30:
  "axisValuesToIntervals [Number 10, Number 20, Number 30]
     = [(Number 0, Number 10), (Number 10, Number 20), (Number 20, Number 30), (Number 30, Number 40)]"
  by code_simp

lemma ticks_0_x_10_20:
  "axisValuesToIntervals [VStr ''0'', VStr ''x'', VStr ''10'', VStr ''20'']
     = [(Number 0, VNum NaN), (VNum NaN, Number 10), (Number 10, Number 20), (Number 20, Number 30)]"
  by code_simp

lemma row_50_in_no_interval:
  "filterInterval [[(''p'', Number 50)]] ''p'' (Number 0) (Number 10) = []"
  "filterInterval [[(''p'', Number 50)]] ''p'' (Number 10) (Number 20) = []"
  "filterInterval [[(''p'', Number 50)]] ''p'' (Number 20) (Number 30) = []"
  "filterInterval [[(''p'', Number 50)]] ''p'' (Number 30) (Number 40) = []"
  by code_simp+

lemma row_5_in_no_interval:
  "filterInterval [[(''p'', Number 5)]] ''p'' (Number 0) (VNum NaN) = []"
  "filterInterval [[(''p'', Number 5)]] ''p'' (VNum NaN) (Number 10) = []"
  "filterInterval [[(''p'', Number 5)]] ''p'' (Number 10) (Number 20) = []"
  "filterInterval [[(''p'', Number 5)]] ''p'' (Number 20) (Number 30) = []"
  by code_simp+

lemma row_5_in_range: "js_ge (Number 5) (Number 0) \<and> js_lt (Number 5) (Number 30)"
  by code_simp

lemma row_15_in_range: "js_ge (Number 15) (Number 0) \<and> js_lt (Number 15) (Number 40)"
  by code_simp

text \<open>
  C4 (as stated): consecutive intervals share a bound, so binning drops no row whose
  field value is numeric. The conclusion does not follow. On the x axis with the ticks
  \<open>[10, 20, 30]\<close> the row \<open>{p: 50}\<close> is selected by the axis and by none of its four
  children, since 50 is above the last synthesized bound 40. On the x axis with the
  ticks \<open>"0"\<close>, \<open>"x"\<close>, \<open>"10"\<close>, \<open>"20"\<close> the shared bound of the first two intervals is NaN, and
  the row \<open>{p: 5}\<close>, which is between the first bound 0 and the last bound 30, is in
  none of the four children.
\<close>

theorem C4_dropped_rows_counterexample:
  "\<not> isl (olliVisSpecToNode specTokens N_xAxis [[(''p'', Number 50)]] (Some N_chart)
            (S_chart \<lparr>mark = Some ''line'', axes = [], legends = [], data = [], chart_title = None\<rparr>)
            [''p''] None None
            (Some \<lparr>values = [Number 10, Number 20, Number 30], title = None, field = ''p'',
                    scaleType = None, gtype = G_continuous, axisType = Some A_x, channel = None\<rparr>)
            None None None)
   \<and> selected (projr (olliVisSpecToNode specTokens N_xAxis [[(''p'', Number 50)]] (Some N_chart)
            (S_chart \<lparr>mark = Some ''line'', axes = [], legends = [], data = [], chart_title = None\<rparr>)
            [''p''] None None
            (Some \<lparr>values = [Number 10, Number 20, Number 30], title = None, field = ''p'',
                    scaleType = None, gtype = G_continuous, axisType = Some A_x, channel = None\<rparr>)
            None None None)) = [[(''p'', Number 50)]]
   \<and> map selected (childNodes (projr (olliVisSpecToNode specTokens N_xAxis [[(''p'', Number 50)]] (Some N_chart)
            (S_chart \<lparr>mark = Some ''line'', axes = [], legends = [], data = [], chart_title = None\<rparr>)
            [''p''] None None
            (Some \<lparr>values = [Number 10, Number 20, Number 30], title = None, field = ''p'',
                    scaleType = None, gtype = G_continuous, axisType = Some A_x, channel = None\<rparr>)
            None None None))) = [[], [], [], []]
   \<and> \<not> isl (olliVisSpecToNode specTokens N_xAxis [[(''p'', Number 5)]] (Some N_chart)
            (S_chart \<lparr>mark = Some ''line'', axes = [], legends = [], data = [], chart_title = None\<rparr>)
            [''p''] None None
            (Some \<lparr>values = [VStr ''0'', VStr ''x'', VStr ''10'', VStr ''20''], title = None, field = ''p'',
                    scaleType = None, gtype = G_continuous, axisType = Some A_x, channel = None\<rparr>)
            None None None)
   \<and> js_ge (Number 5) (fst (hd (axisValuesToIntervals [VStr ''0'', VStr ''x'', VStr ''10'', VStr ''20''])))
   \<and> js_lt (Number 5) (snd (last (axisValuesToIntervals [VStr ''0'', VStr ''x'', VStr ''10'', VStr ''20''])))
   \<and> map selected (childNodes (projr (olliVisSpecToNode specTokens N_xAxis [[(''p'', Number 5)]] (Some N_chart)
            (S_chart \<lparr>mark = Some ''line'', axes = [], legends = [], data = [], chart_title = None\<rparr>)
            [''p''] None None
            (Some \<lparr>values = [VStr ''0'', VStr ''x'', VStr ''10'', VStr ''20''], title = None, field = ''p'',
                    scaleType = None, gtype = G_continuous, axisType = Some A_x, channel = None\<rparr>)
            None None None))) = [[], [], [], []]"
proof -
  let ?spec = "S_chart \<lparr>mark = Some ''line'', axes = [], legends = [], data = [], chart_title = None\<rparr>"
  let ?a = "\<lparr>values = [Number 10, Number 20, Number 30], title = None, field = ''p'',
              scaleType = None, gtype = G_continuous, axisType = Some A_x, channel = None\<rparr>"
  let ?b = "\<lparr>values = [VStr ''0'', VStr ''x'', VStr ''10'', VStr ''20''], title = None, field = ''p'',
              scaleType = None, gtype = G_continuous, axisType = Some A_x, channel = None\<rparr>"
  let ?R = "olliVisSpecToNode specTokens N_xAxis [[(''p'', Number 50)]] (Some N_chart) ?spec
              [''p''] None None (Some ?a) None None None"
  let ?S = "olliVisSpecToNode specTokens N_xAxis [[(''p'', Number 5)]] (Some N_chart) ?spec
              [''p''] None None (Some ?b) None None None"
  have r: "\<not> isl ?R" by (rule success_axis[OF specTokens_apply]) simp_all
  then obtain n where n: "?R = Inr n" using not_isl_Inr by blast
  have s: "\<not> isl ?S" by (rule success_axis[OF specTokens_apply]) simp_all
  then obtain m where m: "?S = Inr m" using not_isl_Inr by blast
  from olliVisSpecToNode_shape[OF n] have 1: "selected n = [[(''p'', Number 50)]]" by simp
  from axis_node_continuous[OF n] have 2: "map selected (childNodes n) = [[], [], [], []]"
    by (simp add: ticks_10_20_30 row_50_in_no_interval)
  from axis_node_continuous[OF m] have 3: "map selected (childNodes m) = [[], [], [], []]"
    by (simp add: ticks_0_x_10_20 row_5_in_no_interval)
  from r s 1 2 3 n m row_5_in_range show ?thesis
    by (simp add: ticks_0_x_10_20)
qed

text \<open>
  C4 (amended): for every tick array, the second bound of each interval the binner
  returns and the first bound of the next one are the same value: the same number, NaN
  included, or dates of the same time value. (This is equality of values; \<^verbatim>\<open>==\<close> of
  JavaScript is false of a NaN bound and of two date objects.) For numeric ticks every
  shared bound is one of the ticks. On a built continuous axis, a row whose field value
  is a number \<open>v\<close> is selected by some child exactly when it is a row of the axis and
  \<open>lo \<le> v < hi\<close> for some interval \<open>[lo, hi]\<close> of the binner. If the interval list is not
  empty and no shared bound is NaN as a number, this is so for every row of the axis
  with \<open>v\<close> at or above the first bound of the first interval and below the second
  bound of the last interval, and the child is a \<open>filteredData\<close> node.
\<close>

theorem C4_shared_bounds_and_covered_rows:
  "(\<forall>i. Suc i < length (axisValuesToIntervals vs) \<longrightarrow>
         snd (axisValuesToIntervals vs ! i) = fst (axisValuesToIntervals vs ! Suc i))
   \<and> (\<forall>i. Suc i < length (axisValuesToIntervals (map Number rs)) \<longrightarrow>
         (\<exists>r \<in> set rs. snd (axisValuesToIntervals (map Number rs) ! i) = Number r))
   \<and> (olliVisSpecToNode tokensOf t sel par spec used facetValue fv (Some g) idx len gi = Inr n
        \<and> (t = N_xAxis \<or> t = N_yAxis) \<and> gtype g = G_continuous
        \<and> axisValuesToIntervals (values g) \<noteq> []
        \<and> (\<forall>i. Suc i < length (axisValuesToIntervals (values g)) \<longrightarrow>
               ToNumber (snd (axisValuesToIntervals (values g) ! i)) \<noteq> NaN)
        \<and> d \<in> set sel \<and> field_of d (field g) = Number v
        \<and> js_ge (Number v) (fst (hd (axisValuesToIntervals (values g))))
        \<and> js_lt (Number v) (snd (last (axisValuesToIntervals (values g)))) \<longrightarrow>
      (\<exists>c \<in> set (childNodes n). ntype c = N_filteredData \<and> d \<in> set (selected c)))
   \<and> (olliVisSpecToNode tokensOf t sel par spec used facetValue fv (Some g) idx len gi = Inr n
        \<and> (t = N_xAxis \<or> t = N_yAxis) \<and> gtype g = G_continuous
        \<and> field_of d (field g) = Number v \<longrightarrow>
      ((\<exists>c \<in> set (childNodes n). d \<in> set (selected c))
         \<longleftrightarrow> d \<in> set sel \<and> (\<exists>p \<in> set (axisValuesToIntervals (values g)).
                                js_ge (Number v) (fst p) \<and> js_lt (Number v) (snd p))))"
proof (intro conjI impI allI)
  fix i
  assume "Suc i < length (axisValuesToIntervals vs)"
  with intervals_chain[of vs]
  show "snd (axisValuesToIntervals vs ! i) = fst (axisValuesToIntervals vs ! Suc i)"
    by (simp add: successively_conv_nth)
next
  fix i
  assume i: "Suc i < length (axisValuesToIntervals (map Number rs))"
  then have "snd (axisValuesToIntervals (map Number rs) ! i)
               \<in> set (map snd (butlast (axisValuesToIntervals (map Number rs))))"
    using nth_in_butlast[OF i] by simp
  with intervals_numbers[of rs]
  show "\<exists>r \<in> set rs. snd (axisValuesToIntervals (map Number rs) ! i) = Number r"
    by blast
next
  assume h: "olliVisSpecToNode tokensOf t sel par spec used facetValue fv (Some g) idx len gi = Inr n
        \<and> (t = N_xAxis \<or> t = N_yAxis) \<and> gtype g = G_continuous
        \<and> axisValuesToIntervals (values g) \<noteq> []
        \<and> (\<forall>i. Suc i < length (axisValuesToIntervals (values g)) \<longrightarrow>
               ToNumber (snd (axisValuesToIntervals (values g) ! i)) \<noteq> NaN)
        \<and> d \<in> set sel \<and> field_of d (field g) = Number v
        \<and> js_ge (Number v) (fst (hd (axisValuesToIntervals (values g))))
        \<and> js_lt (Number v) (snd (last (axisValuesToIntervals (values g))))"
  then have nn: "\<forall>p \<in> set (butlast (axisValuesToIntervals (values g))). ToNumber (snd p) \<noteq> NaN"
    using in_set_butlast_nth by metis
  from h chain_cover[OF intervals_chain _ nn]
  obtain p where p: "p \<in> set (axisValuesToIntervals (values g))"
    "js_ge (Number v) (fst p)" "js_lt (Number v) (snd p)"
    by blast
  with h have "d \<in> set (filterInterval sel (field g) (fst p) (snd p))"
    by (simp add: filterInterval_number)
  with h p(1) covered_row show "\<exists>c \<in> set (childNodes n). ntype c = N_filteredData \<and> d \<in> set (selected c)"
    by blast
next
  assume h: "olliVisSpecToNode tokensOf t sel par spec used facetValue fv (Some g) idx len gi = Inr n
        \<and> (t = N_xAxis \<or> t = N_yAxis) \<and> gtype g = G_continuous
        \<and> field_of d (field g) = Number v"
  then show "(\<exists>c \<in> set (childNodes n). d \<in> set (selected c))
         \<longleftrightarrow> d \<in> set sel \<and> (\<exists>p \<in> set (axisValuesToIntervals (values g)).
                                js_ge (Number v) (fst p) \<and> js_lt (Number v) (snd p))"
    using kept_rows[of tokensOf t sel par spec used facetValue fv g idx len gi n d v] by blast
qed

text \<open>
  The witness: the ticks \<open>[10, 20, 30]\<close>, and the x axis with those ticks over the row
  \<open>{p: 15}\<close>, with the token table modelled from the spec.
\<close>

theorem C4_shared_bounds_and_covered_rows_witness:
  "snd (axisValuesToIntervals [Number 10, Number 20, Number 30] ! 0)
     = fst (axisValuesToIntervals [Number 10, Number 20, Number 30] ! 1)
   \<and> (\<exists>r \<in> set [10, 20, 30]. snd (axisValuesToIntervals (map Number [10, 20, 30]) ! 1) = Number r)
   \<and> (\<exists>n. olliVisSpecToNode specTokens N_xAxis [[(''p'', Number 15)]] (Some N_chart)
            (S_chart \<lparr>mark = Some ''line'', axes = [], legends = [], data = [], chart_title = None\<rparr>)
            [''p''] None None
            (Some \<lparr>values = [Number 10, Number 20, Number 30], title = None, field = ''p'',
                    scaleType = None, gtype = G_continuous, axisType = Some A_x, channel = None\<rparr>)
            None None None = Inr n
          \<and> (\<exists>c \<in> set (childNodes n). ntype c = N_filteredData \<and> [(''p'', Number 15)] \<in> set (selected c)))"
proof -
  let ?spec = "S_chart \<lparr>mark = Some ''line'', axes = [], legends = [], data = [], chart_title = None\<rparr>"
  let ?a = "\<lparr>values = [Number 10, Number 20, Number 30], title = None, field = ''p'',
              scaleType = None, gtype = G_continuous, axisType = Some A_x, channel = None\<rparr>"
  let ?R = "olliVisSpecToNode specTokens N_xAxis [[(''p'', Number 15)]] (Some N_chart) ?spec
              [''p''] None None (Some ?a) None None None"
  have "\<not> isl ?R" by (rule success_axis[OF specTokens_apply]) simp_all
  then obtain n where n: "?R = Inr n" using not_isl_Inr by blast
  have nn: "\<forall>i. Suc i < length (axisValuesToIntervals (values ?a)) \<longrightarrow>
               ToNumber (snd (axisValuesToIntervals (values ?a) ! i)) \<noteq> NaN"
    by (simp add: ticks_10_20_30 nth_Cons ToNumber_def split: nat.splits)
  have l: "length (axisValuesToIntervals [Number 10, Number 20, Number 30]) = 4"
    by (simp add: ticks_10_20_30)
  note T = C4_shared_bounds_and_covered_rows[where vs = "[Number 10, Number 20, Number 30]"
        and rs = "[10, 20, 30]" and tokensOf = specTokens and t = N_xAxis
        and sel = "[[(''p'', Number 15)]]" and par = "Some N_chart" and spec = ?spec
        and used = "[''p'']" and facetValue = None and fv = None and g = ?a and idx = None
        and len = None and gi = None and n = n and d = "[(''p'', Number 15)]" and v = 15]
  from T[THEN conjunct1, rule_format, of 0]
  have 1: "snd (axisValuesToIntervals [Number 10, Number 20, Number 30] ! 0)
     = fst (axisValuesToIntervals [Number 10, Number 20, Number 30] ! 1)"
    using l by simp
  from T[THEN conjunct2, THEN conjunct1, rule_format, of 1]
  have 2: "\<exists>r \<in> set [10, 20, 30]. snd (axisValuesToIntervals (map Number [10, 20, 30]) ! 1) = Number r"
    using l by simp
  from T[THEN conjunct2, THEN conjunct2, THEN conjunct1] n nn row_15_in_range
  have 3: "\<exists>c \<in> set (childNodes n). ntype c = N_filteredData \<and> [(''p'', Number 15)] \<in> set (selected c)"
    by (simp add: ticks_10_20_30 field_of_def)
  from 1 2 3 n show ?thesis by blast
qed

section \<open>The row filters\<close>

lemma filterInterval_append:
  "filterInterval (xs @ ys) f lo hi = filterInterval xs f lo hi @ filterInterval ys f lo hi"
  by (simp add: filterInterval_def)

lemma filterInterval_row_number:
  assumes "field_of d f = Number v"
  shows "filterInterval [d] f (Number a) (Number b) = (if a \<le> v \<and> v < b then [d] else [])"
  using assms
  by (auto simp: filterInterval_def Let_def isDateValue_def js_ge_def js_lt_def js_less_def
                 num_less_def ToNumber_def)

lemma js_less_date: "js_less (VDate t) b = js_less (VNum (getTime t)) b"
  by (simp add: js_less_def ToNumber_def)

lemma filterInterval_row_year:
  assumes "field_of d f = VDate t" and "length (String lo) = 4" and "length (String hi) = 4"
  shows "filterInterval [d] f lo hi
           = (if js_ge (VNum (getFullYear t)) lo \<and> js_lt (VNum (getFullYear t)) hi then [d] else [])"
  using assms by (simp add: filterInterval_def Let_def isDateValue_def yearOf_def)

lemma filterInterval_row_date:
  assumes "field_of d f = VDate t" and "\<not> (length (String lo) = 4 \<and> length (String hi) = 4)"
  shows "filterInterval [d] f lo hi
           = (if js_ge (VNum (getTime t)) lo \<and> js_lt (VNum (getTime t)) hi then [d] else [])"
  using assms
  by (auto simp: filterInterval_def Let_def isDateValue_def js_ge_def js_lt_def js_less_date)

lemma year_2020:
  "length (String (Number 2020)) = 4" "length (String (Number 2021)) = 4"
  "getFullYear (Date (Num 1583020800000)) = Num 2020"
  "js_ge (Number 2020) (Number 2020)" "js_lt (Number 2020) (Number 2021)"
  "length (String (Number 1577836800000)) \<noteq> 4"
  "js_ge (Number 1583020800000) (Number 1577836800000)"
  "js_lt (Number 1583020800000) (Number 1609459200000)"
  by code_simp+

text \<open>
  C8: the row filters are functions of their arguments that return a subsequence of the
  rows, decided row by row. On a discrete axis the child for a value selects the rows
  whose field renders as the same string as the value. The range filter keeps a row with
  a numeric field value \<open>v\<close> between numeric bounds exactly when \<open>lo \<le> v < hi\<close>; a row
  whose field value is a date is compared by its year when both bounds render as four
  characters, and by its time value otherwise.
\<close>

theorem C8_row_filters:
  "subseq (filterInterval rows f lo hi) rows
   \<and> filterInterval (xs @ ys) f lo hi = filterInterval xs f lo hi @ filterInterval ys f lo hi
   \<and> (field_of d f = Number v \<longrightarrow>
        filterInterval [d] f (Number a) (Number b) = (if a \<le> v \<and> v < b then [d] else []))
   \<and> (field_of d f = VDate t \<and> length (String lo) = 4 \<and> length (String hi) = 4 \<longrightarrow>
        filterInterval [d] f lo hi
          = (if js_ge (VNum (getFullYear t)) lo \<and> js_lt (VNum (getFullYear t)) hi then [d] else []))
   \<and> (field_of d f = VDate t \<and> \<not> (length (String lo) = 4 \<and> length (String hi) = 4) \<longrightarrow>
        filterInterval [d] f lo hi
          = (if js_ge (VNum (getTime t)) lo \<and> js_lt (VNum (getTime t)) hi then [d] else []))
   \<and> (olliVisSpecToNode tokensOf ty sel par spec used facetValue fv (Some g) idx len gi = Inr n
        \<and> (ty = N_xAxis \<or> ty = N_yAxis) \<and> gtype g = G_discrete \<longrightarrow>
        map selected (childNodes n)
          = map (\<lambda>v. filter (\<lambda>d. String (field_of d (field g)) = String v) sel) (values g))"
proof (intro conjI impI)
  show "subseq (filterInterval rows f lo hi) rows"
    by (rule subseq_filterInterval)
  show "filterInterval (xs @ ys) f lo hi = filterInterval xs f lo hi @ filterInterval ys f lo hi"
    by (rule filterInterval_append)
  show "filterInterval [d] f (Number a) (Number b) = (if a \<le> v \<and> v < b then [d] else [])"
    if "field_of d f = Number v"
    using that by (rule filterInterval_row_number)
  show "filterInterval [d] f lo hi
          = (if js_ge (VNum (getFullYear t)) lo \<and> js_lt (VNum (getFullYear t)) hi then [d] else [])"
    if "field_of d f = VDate t \<and> length (String lo) = 4 \<and> length (String hi) = 4"
    using that by (simp add: filterInterval_row_year)
  show "filterInterval [d] f lo hi
          = (if js_ge (VNum (getTime t)) lo \<and> js_lt (VNum (getTime t)) hi then [d] else [])"
    if "field_of d f = VDate t \<and> \<not> (length (String lo) = 4 \<and> length (String hi) = 4)"
    using that filterInterval_row_date by blast
  show "map selected (childNodes n)
          = map (\<lambda>v. filter (\<lambda>d. String (field_of d (field g)) = String v) sel) (values g)"
    if "olliVisSpecToNode tokensOf ty sel par spec used facetValue fv (Some g) idx len gi = Inr n
        \<and> (ty = N_xAxis \<or> ty = N_yAxis) \<and> gtype g = G_discrete"
    using that axis_node_discrete[of tokensOf ty sel par spec used facetValue fv g idx len gi n]
    by blast
qed

text \<open>
  The witness: the rows \<open>{p: 5}\<close> and \<open>{p: 15}\<close> between 10 and 20, a row dated 1 March
  2020 between the bounds 2020 and 2021 and between the time values of 1 January 2020
  and of 1 January 2021, and a discrete x axis with the values A and B over the rows A, B, A.
\<close>

theorem C8_row_filters_witness:
  "subseq (filterInterval [[(''p'', Number 5)], [(''p'', Number 15)]] ''p'' (Number 10) (Number 20))
      [[(''p'', Number 5)], [(''p'', Number 15)]]
   \<and> filterInterval ([[(''p'', Number 5)]] @ [[(''p'', Number 15)]]) ''p'' (Number 10) (Number 20)
       = filterInterval [[(''p'', Number 5)]] ''p'' (Number 10) (Number 20)
         @ filterInterval [[(''p'', Number 15)]] ''p'' (Number 10) (Number 20)
   \<and> filterInterval [[(''p'', Number 5)]] ''p'' (Number 10) (Number 20) = []
   \<and> filterInterval [[(''p'', Number 15)]] ''p'' (Number 10) (Number 20) = [[(''p'', Number 15)]]
   \<and> filterInterval [[(''d'', VDate (Date (Num 1583020800000)))]] ''d'' (Number 2020) (Number 2021)
       = [[(''d'', VDate (Date (Num 1583020800000)))]]
   \<and> filterInterval [[(''d'', VDate (Date (Num 1583020800000)))]] ''d''
         (Number 1577836800000) (Number 1609459200000)
       = [[(''d'', VDate (Date (Num 1583020800000)))]]
   \<and> (\<exists>n. olliVisSpecToNode specTokens N_xAxis
             [[(''k'', VStr ''A'')], [(''k'', VStr ''B'')], [(''k'', VStr ''A'')]] (Some N_chart)
             (S_chart \<lparr>mark = Some ''bar'', axes = [], legends = [], data = [], chart_title = None\<rparr>)
             [''k''] None None
             (Some \<lparr>values = [VStr ''A'', VStr ''B''], title = None, field = ''k'', scaleType = None,
                     gtype = G_discrete, axisType = Some A_x, channel = None\<rparr>) None None None = Inr n
          \<and> map selected (childNodes n)
              = [[[(''k'', VStr ''A'')], [(''k'', VStr ''A'')]], [[(''k'', VStr ''B'')]]])"
proof -
  let ?spec = "S_chart \<lparr>mark = Some ''bar'', axes = [], legends = [], data = [], chart_title = None\<rparr>"
  let ?g = "\<lparr>values = [VStr ''A'', VStr ''B''], title = None, field = ''k'', scaleType = None,
              gtype = G_discrete, axisType = Some A_x, channel = None\<rparr>"
  let ?rows = "[[(''k'', VStr ''A'')], [(''k'', VStr ''B'')], [(''k'', VStr ''A'')]]"
  let ?R = "olliVisSpecToNode specTokens N_xAxis ?rows (Some N_chart) ?spec
              [''k''] None None (Some ?g) None None None"
  have "\<not> isl ?R" by (rule success_axis[OF specTokens_apply]) simp_all
  then obtain n where n: "?R = Inr n" using not_isl_Inr by blast
  note A = C8_row_filters[where rows = "[[(''p'', Number 5)], [(''p'', Number 15)]]" and f = "''p''"
      and lo = "Number 10" and hi = "Number 20" and xs = "[[(''p'', Number 5)]]"
      and ys = "[[(''p'', Number 15)]]" and d = "[(''p'', Number 5)]" and v = 5 and a = 10 and b = 20]
  note B = C8_row_filters[where f = "''p''" and d = "[(''p'', Number 15)]" and v = 15 and a = 10 and b = 20]
  note C = C8_row_filters[where f = "''d''" and d = "[(''d'', VDate (Date (Num 1583020800000)))]"
      and t = "Date (Num 1583020800000)" and lo = "Number 2020" and hi = "Number 2021"]
  note D = C8_row_filters[where f = "''d''" and d = "[(''d'', VDate (Date (Num 1583020800000)))]"
      and t = "Date (Num 1583020800000)" and lo = "Number 1577836800000" and hi = "Number 1609459200000"
      and tokensOf = specTokens and ty = N_xAxis and sel = ?rows and par = "Some N_chart" and spec = ?spec
      and used = "[''k'']" and facetValue = None and fv = None and g = ?g and idx = None and len = None
      and gi = None and n = n]
  from A[THEN conjunct1] have 1: "subseq (filterInterval [[(''p'', Number 5)], [(''p'', Number 15)]] ''p'' (Number 10) (Number 20))
      [[(''p'', Number 5)], [(''p'', Number 15)]]" .
  from A[THEN conjunct2, THEN conjunct1] have 2: "filterInterval ([[(''p'', Number 5)]] @ [[(''p'', Number 15)]]) ''p'' (Number 10) (Number 20)
       = filterInterval [[(''p'', Number 5)]] ''p'' (Number 10) (Number 20)
         @ filterInterval [[(''p'', Number 15)]] ''p'' (Number 10) (Number 20)" .
  from A[THEN conjunct2, THEN conjunct2, THEN conjunct1] have 3: "filterInterval [[(''p'', Number 5)]] ''p'' (Number 10) (Number 20) = []"
    by (simp add: field_of_def)
  from B[THEN conjunct2, THEN conjunct2, THEN conjunct1] have 4: "filterInterval [[(''p'', Number 15)]] ''p'' (Number 10) (Number 20) = [[(''p'', Number 15)]]"
    by (simp add: field_of_def)
  from C[THEN conjunct2, THEN conjunct2, THEN conjunct2, THEN conjunct1] have 5: "filterInterval [[(''d'', VDate (Date (Num 1583020800000)))]] ''d'' (Number 2020) (Number 2021)
       = [[(''d'', VDate (Date (Num 1583020800000)))]]"
    by (simp add: field_of_def year_2020)
  from D[THEN conjunct2, THEN conjunct2, THEN conjunct2, THEN conjunct2, THEN conjunct1] have 6: "filterInterval [[(''d'', VDate (Date (Num 1583020800000)))]] ''d''
         (Number 1577836800000) (Number 1609459200000)
       = [[(''d'', VDate (Date (Num 1583020800000)))]]"
    by (simp add: field_of_def year_2020)
  from D[THEN conjunct2, THEN conjunct2, THEN conjunct2, THEN conjunct2, THEN conjunct2] n have 7: "map selected (childNodes n)
              = [[[(''k'', VStr ''A'')], [(''k'', VStr ''A'')]], [[(''k'', VStr ''B'')]]]"
    by (simp add: field_of_def String_def)
  have 8: "\<exists>n. ?R = Inr n \<and> map selected (childNodes n)
              = [[[(''k'', VStr ''A'')], [(''k'', VStr ''A'')]], [[(''k'', VStr ''B'')]]]"
    by (rule exI[of _ n]) (rule conjI[OF n 7])
  show ?thesis
    by (rule conjI[OF 1 conjI[OF 2 conjI[OF 3 conjI[OF 4 conjI[OF 5 conjI[OF 6 8]]]]]])
qed

section \<open>The children of a chart and the cells of a grid\<close>

lemma chart_built:
  assumes "olliVisSpecToNode tokensOf N_chart sel par (S_chart c) used facetValue fv guide idx len gi = Inr m"
  shows "\<exists>as ls gs.
           mapE (\<lambda>axis.
                   olliVisSpecToNode tokensOf (if axisType axis = Some A_x then N_xAxis else N_yAxis)
                     sel (Some N_chart) (S_chart c) used facetValue None (Some axis) None None None)
             (filter (\<lambda>axis. \<not> (mark c = Some ''bar'' \<and> gtype axis = G_continuous)) (axes c)) = Inr as
           \<and> mapE (\<lambda>l.
                   olliVisSpecToNode tokensOf N_legend
                     sel (Some N_chart) (S_chart c) used facetValue None (Some l) None None None)
               (legends c) = Inr ls
           \<and> (gs = [] \<or> (\<exists>g. gs = [g]
                  \<and> olliVisSpecToNode tokensOf N_grid
                       sel (Some N_chart) (S_chart c) used facetValue None None None None None = Inr g))
           \<and> (mark c = Some ''point''
                \<and> length (filter (\<lambda>axis. \<not> (mark c = Some ''bar'' \<and> gtype axis = G_continuous)) (axes c)) = 2
                \<and> list_all (\<lambda>axis. gtype axis = G_continuous)
                     (filter (\<lambda>axis. \<not> (mark c = Some ''bar'' \<and> gtype axis = G_continuous)) (axes c))
                \<longrightarrow> gs \<noteq> [])
           \<and> childNodes m = as @ ls @ gs"
  using assms
  by (auto simp: olliVisSpecToNode.simps Let_def describeNode_Inr(6)
           split: sum.splits if_splits)

lemma chart_children:
  assumes "olliVisSpecToNode tokensOf N_chart sel par (S_chart c) used facetValue fv guide idx len gi = Inr m"
  shows "list_all (\<lambda>n. \<exists>t g. (t = N_xAxis \<or> t = N_yAxis \<or> t = N_legend \<or> t = N_grid)
                     \<and> olliVisSpecToNode tokensOf t sel (Some N_chart) (S_chart c) used facetValue
                          None g None None None = Inr n)
           (childNodes m)"
proof -
  let ?P = "\<lambda>n. \<exists>t g. (t = N_xAxis \<or> t = N_yAxis \<or> t = N_legend \<or> t = N_grid)
                     \<and> olliVisSpecToNode tokensOf t sel (Some N_chart) (S_chart c) used facetValue
                          None g None None None = Inr n"
  from chart_built[OF assms] obtain as ls gs where
    as: "mapE (\<lambda>axis.
                   olliVisSpecToNode tokensOf (if axisType axis = Some A_x then N_xAxis else N_yAxis)
                     sel (Some N_chart) (S_chart c) used facetValue None (Some axis) None None None)
             (filter (\<lambda>axis. \<not> (mark c = Some ''bar'' \<and> gtype axis = G_continuous)) (axes c)) = Inr as"
    and ls: "mapE (\<lambda>l.
                   olliVisSpecToNode tokensOf N_legend
                     sel (Some N_chart) (S_chart c) used facetValue None (Some l) None None None)
               (legends c) = Inr ls"
    and gs: "gs = [] \<or> (\<exists>g. gs = [g]
                  \<and> olliVisSpecToNode tokensOf N_grid
                       sel (Some N_chart) (S_chart c) used facetValue None None None None None = Inr g)"
    and m: "childNodes m = as @ ls @ gs"
    by blast
  have "list_all ?P as"
    by (rule mapE_all[OF as]) (metis (full_types))
  moreover have "list_all ?P ls"
    by (rule mapE_all[OF ls]) blast
  moreover from gs have "list_all ?P gs"
    by (elim disjE exE conjE) (simp, simp, blast)
  ultimately show ?thesis using m by simp
qed

lemma chart_grid_child:
  assumes "olliVisSpecToNode tokensOf N_chart sel par (S_chart c) used facetValue fv guide idx len gi = Inr m"
    and "n \<in> set (childNodes m)" and "ntype n = N_grid"
  shows "olliVisSpecToNode tokensOf N_grid sel (Some N_chart) (S_chart c) used facetValue
           None None None None None = Inr n"
proof -
  from chart_built[OF assms(1)] obtain as ls gs where
    as: "mapE (\<lambda>axis.
                   olliVisSpecToNode tokensOf (if axisType axis = Some A_x then N_xAxis else N_yAxis)
                     sel (Some N_chart) (S_chart c) used facetValue None (Some axis) None None None)
             (filter (\<lambda>axis. \<not> (mark c = Some ''bar'' \<and> gtype axis = G_continuous)) (axes c)) = Inr as"
    and ls: "mapE (\<lambda>l.
                   olliVisSpecToNode tokensOf N_legend
                     sel (Some N_chart) (S_chart c) used facetValue None (Some l) None None None)
               (legends c) = Inr ls"
    and gs: "gs = [] \<or> (\<exists>g. gs = [g]
                  \<and> olliVisSpecToNode tokensOf N_grid
                       sel (Some N_chart) (S_chart c) used facetValue None None None None None = Inr g)"
    and m: "childNodes m = as @ ls @ gs"
    by blast
  have "list_all (\<lambda>n. ntype n \<noteq> N_grid) as"
    by (rule mapE_all[OF as]) (auto dest: olliVisSpecToNode_shape split: if_splits)
  moreover have "list_all (\<lambda>n. ntype n \<noteq> N_grid) ls"
    by (rule mapE_all[OF ls]) (auto dest: olliVisSpecToNode_shape)
  ultimately have "n \<in> set gs"
    using assms(2,3) m by (auto simp: list_all_iff)
  with gs show ?thesis by auto
qed

lemma chart_has_grid:
  assumes "olliVisSpecToNode tokensOf N_chart sel par (S_chart c) used facetValue fv guide idx len gi = Inr m"
    and "mark c = Some ''point''" and "length (axes c) = 2"
    and "list_all (\<lambda>axis. gtype axis = G_continuous) (axes c)"
  shows "\<exists>n \<in> set (childNodes m). ntype n = N_grid"
proof -
  from assms(2) have f: "filter (\<lambda>axis. \<not> (mark c = Some ''bar'' \<and> gtype axis = G_continuous)) (axes c) = axes c"
    by simp
  from chart_built[OF assms(1)] assms(2,3,4) obtain as ls gs where
    gs: "gs = [] \<or> (\<exists>g. gs = [g]
                  \<and> olliVisSpecToNode tokensOf N_grid
                       sel (Some N_chart) (S_chart c) used facetValue None None None None None = Inr g)"
    and ne: "gs \<noteq> []"
    and m: "childNodes m = as @ ls @ gs"
    unfolding f by blast
  from gs ne obtain g where "gs = [g]"
    "olliVisSpecToNode tokensOf N_grid
       sel (Some N_chart) (S_chart c) used facetValue None None None None None = Inr g"
    by blast
  with m olliVisSpecToNode_shape[OF this(2)] show ?thesis by simp
qed

lemma length_cartesian: "length (cartesian a b) = length a * length b"
  by (induction a) (simp_all add: cartesian_def)

lemma cartesian_Cons: "cartesian (x # a) b = map (\<lambda>e. (x, e)) b @ cartesian a b"
  by (simp add: cartesian_def)

lemma nth_cartesian:
  assumes "i < length a * length b"
  shows "cartesian a b ! i = (a ! (i div length b), b ! (i mod length b))"
  using assms
proof (induction a arbitrary: i)
  case Nil
  then show ?case by simp
next
  case (Cons x a)
  show ?case
  proof (cases "i < length b")
    case True
    then show ?thesis by (simp add: cartesian_Cons nth_append)
  next
    case False
    then have ge: "length b \<le> i" by simp
    from Cons.prems False have b: "0 < length b" by (cases b) simp_all
    from Cons.prems ge have "i - length b < length a * length b" by simp
    from Cons.IH[OF this]
    have "cartesian a b ! (i - length b)
            = (a ! ((i - length b) div length b), b ! ((i - length b) mod length b))" .
    moreover from ge b have "i div length b = Suc ((i - length b) div length b)"
      by (simp add: le_div_geq)
    moreover from ge have "i mod length b = (i - length b) mod length b"
      by (simp add: le_mod_geq)
    ultimately show ?thesis using False
      by (simp add: cartesian_Cons nth_append)
  qed
qed

lemma both_filters:
  "filterInterval (filterInterval sel fx x1 x2) fy y1 y2
     = filter (\<lambda>d. d \<in> set (filterInterval sel fy y1 y2)) (filterInterval sel fx x1 x2)"
  unfolding filterInterval_def filter_filter
  by (rule filter_cong) auto

lemma grid_cells:
  assumes n: "olliVisSpecToNode tokensOf N_grid sel par (S_chart c) used facetValue fv guide idx len gi = Inr n"
    and x: "find (\<lambda>axis. axisType axis = Some A_x) (axes c) = Some xAxis"
    and y: "find (\<lambda>axis. axisType axis = Some A_y) (axes c) = Some yAxis"
  shows "length (childNodes n)
           = length (axisValuesToIntervals (values xAxis)) * length (axisValuesToIntervals (values yAxis))"
    and "i < length (childNodes n) \<Longrightarrow>
           cartesian (axisValuesToIntervals (values xAxis)) (axisValuesToIntervals (values yAxis)) ! i
             = ((x1, x2), (y1, y2)) \<Longrightarrow>
           ntype (childNodes n ! i) = N_filteredData
           \<and> gridIndex (childNodes n ! i)
               = Some (i div length (axisValuesToIntervals (values yAxis)),
                       i mod length (axisValuesToIntervals (values yAxis)))
           \<and> filterValue (childNodes n ! i) = Some (Grid (FilterRange x1 x2) (FilterRange y1 y2))
           \<and> selected (childNodes n ! i)
               = filterInterval (filterInterval sel (field xAxis) x1 x2) (field yAxis) y1 y2"
proof -
  let ?xI = "axisValuesToIntervals (values xAxis)"
  let ?yI = "axisValuesToIntervals (values yAxis)"
  let ?f = "\<lambda>(i, ((x1, x2), (y1, y2))).
                          olliVisSpecToNode tokensOf N_filteredData
                            (filterInterval (filterInterval sel (field xAxis) x1 x2) (field yAxis) y1 y2)
                            (Some N_grid) (S_chart c) used facetValue
                            (Some (Grid (FilterRange x1 x2) (FilterRange y1 y2)))
                            None None None
                            (Some (i div length ?yI, i mod length ?yI))"
  from grid_built[OF n] x y obtain cs where
    cs: "mapE ?f (enumerate 0 (cartesian ?xI ?yI)) = Inr cs"
    and d: "describeNode tokensOf (Node N_grid par sel fv gi [] cs None) (S_chart c) facetValue guide idx len = Inr n"
    by auto
  from d have k: "childNodes n = cs" by (simp add: describeNode_Inr(6))
  from mapE_Inr_length[OF cs] k
  show l: "length (childNodes n) = length ?xI * length ?yI"
    by (simp add: length_cartesian)
  show "ntype (childNodes n ! i) = N_filteredData
           \<and> gridIndex (childNodes n ! i) = Some (i div length ?yI, i mod length ?yI)
           \<and> filterValue (childNodes n ! i) = Some (Grid (FilterRange x1 x2) (FilterRange y1 y2))
           \<and> selected (childNodes n ! i)
               = filterInterval (filterInterval sel (field xAxis) x1 x2) (field yAxis) y1 y2"
    if i: "i < length (childNodes n)" and e: "cartesian ?xI ?yI ! i = ((x1, x2), (y1, y2))"
  proof -
    from i l have il: "i < length (enumerate 0 (cartesian ?xI ?yI))"
      by (simp add: length_cartesian)
    from mapE_Inr_nth[OF cs il] il e
    have "olliVisSpecToNode tokensOf N_filteredData
            (filterInterval (filterInterval sel (field xAxis) x1 x2) (field yAxis) y1 y2)
            (Some N_grid) (S_chart c) used facetValue
            (Some (Grid (FilterRange x1 x2) (FilterRange y1 y2)))
            None None None (Some (i div length ?yI, i mod length ?yI)) = Inr (cs ! i)"
      by (simp add: nth_enumerate_eq)
    from olliVisSpecToNode_shape[OF this] k show ?thesis by simp
  qed
qed

text \<open>
  C6: when a chart node has a \<open>grid\<close> child, the chart has an x axis and a y axis, the
  grid node selects the rows of the chart node, and it has one child for each pair of an
  x interval and a y interval, the x interval outermost: the child at position \<open>i\<close> is a
  \<open>filteredData\<close> node for the x interval \<open>i div |yIntervals|\<close> and the y interval
  \<open>i mod |yIntervals|\<close>, these two numbers are its \<open>gridIndex\<close>, and it selects the rows
  of the x-bound filter that the y-bound filter also keeps.
\<close>

theorem C6_grid_cells:
  assumes "olliVisSpecToNode tokensOf N_chart sel par (S_chart c) used facetValue fv guide idx len gi = Inr m"
    and "n \<in> set (childNodes m)" and "ntype n = N_grid"
  shows "\<exists>xAxis yAxis.
           find (\<lambda>axis. axisType axis = Some A_x) (axes c) = Some xAxis
         \<and> find (\<lambda>axis. axisType axis = Some A_y) (axes c) = Some yAxis
         \<and> selected n = sel
         \<and> length (childNodes n)
             = length (axisValuesToIntervals (values xAxis)) * length (axisValuesToIntervals (values yAxis))
         \<and> (\<forall>i < length (childNodes n).
              cartesian (axisValuesToIntervals (values xAxis)) (axisValuesToIntervals (values yAxis)) ! i
                = (axisValuesToIntervals (values xAxis) ! (i div length (axisValuesToIntervals (values yAxis))),
                   axisValuesToIntervals (values yAxis) ! (i mod length (axisValuesToIntervals (values yAxis))))
              \<and> (case cartesian (axisValuesToIntervals (values xAxis))
                                (axisValuesToIntervals (values yAxis)) ! i of
                   ((x1, x2), (y1, y2)) \<Rightarrow>
                     ntype (childNodes n ! i) = N_filteredData
                   \<and> gridIndex (childNodes n ! i)
                       = Some (i div length (axisValuesToIntervals (values yAxis)),
                               i mod length (axisValuesToIntervals (values yAxis)))
                   \<and> filterValue (childNodes n ! i) = Some (Grid (FilterRange x1 x2) (FilterRange y1 y2))
                   \<and> selected (childNodes n ! i)
                       = filter (\<lambda>d. d \<in> set (filterInterval sel (field yAxis) y1 y2))
                           (filterInterval sel (field xAxis) x1 x2)))"
proof -
  from chart_grid_child[OF assms]
  have n: "olliVisSpecToNode tokensOf N_grid sel (Some N_chart) (S_chart c) used facetValue
             None None None None None = Inr n" .
  from grid_built[OF n] obtain xAxis yAxis where
    x: "find (\<lambda>axis. axisType axis = Some A_x) (axes c) = Some xAxis"
    and y: "find (\<lambda>axis. axisType axis = Some A_y) (axes c) = Some yAxis"
    by auto
  let ?xI = "axisValuesToIntervals (values xAxis)"
  let ?yI = "axisValuesToIntervals (values yAxis)"
  note l = grid_cells(1)[OF n x y]
  have cell: "cartesian ?xI ?yI ! i = (?xI ! (i div length ?yI), ?yI ! (i mod length ?yI))
              \<and> (case cartesian ?xI ?yI ! i of
                   ((x1, x2), (y1, y2)) \<Rightarrow>
                     ntype (childNodes n ! i) = N_filteredData
                   \<and> gridIndex (childNodes n ! i) = Some (i div length ?yI, i mod length ?yI)
                   \<and> filterValue (childNodes n ! i) = Some (Grid (FilterRange x1 x2) (FilterRange y1 y2))
                   \<and> selected (childNodes n ! i)
                       = filter (\<lambda>d. d \<in> set (filterInterval sel (field yAxis) y1 y2))
                           (filterInterval sel (field xAxis) x1 x2))"
    if i: "i < length (childNodes n)" for i
  proof -
    obtain x1 x2 y1 y2 where e: "cartesian ?xI ?yI ! i = ((x1, x2), (y1, y2))"
      by (metis surj_pair)
    from i l have "cartesian ?xI ?yI ! i = (?xI ! (i div length ?yI), ?yI ! (i mod length ?yI))"
      by (simp add: nth_cartesian)
    with grid_cells(2)[OF n x y i e] e show ?thesis
      by (simp add: both_filters)
  qed
  from olliVisSpecToNode_shape[OF n] have "selected n = sel" by simp
  with x y l cell show ?thesis by blast
qed

lemma ticks_0_10_and_0_5:
  "axisValuesToIntervals [Number 0, Number 10] = [(Number 0, Number 10), (Number 10, Number 20)]"
  "axisValuesToIntervals [Number 0, Number 5] = [(Number 0, Number 5), (Number 5, Number 10)]"
  by code_simp+

lemma two_rows_filtered:
  "filterInterval [[(''x'', Number 15), (''y'', Number 7)], [(''x'', Number 5), (''y'', Number 7)]]
     ''x'' (Number 10) (Number 20) = [[(''x'', Number 15), (''y'', Number 7)]]"
  "filterInterval [[(''x'', Number 15), (''y'', Number 7)], [(''x'', Number 5), (''y'', Number 7)]]
     ''y'' (Number 5) (Number 10)
     = [[(''x'', Number 15), (''y'', Number 7)], [(''x'', Number 5), (''y'', Number 7)]]"
  by code_simp+

text \<open>
  The witness: a scatterplot with the x ticks 0 and 10 and the y ticks 0 and 5 over the
  rows \<open>{x: 15, y: 7}\<close> and \<open>{x: 5, y: 7}\<close>, with the token table modelled from the spec.
  The grid has four cells; the last one is the cell (1, 1), of x in [10, 20) and y in
  [5, 10), and selects the first row.
\<close>

theorem C6_grid_cells_witness:
  "\<exists>m n. olliVisSpecToNode specTokens N_chart
            [[(''x'', Number 15), (''y'', Number 7)], [(''x'', Number 5), (''y'', Number 7)]] None
            (S_chart \<lparr>mark = Some ''point'',
               axes = [\<lparr>values = [Number 0, Number 10], title = None, field = ''x'', scaleType = None,
                        gtype = G_continuous, axisType = Some A_x, channel = None\<rparr>,
                       \<lparr>values = [Number 0, Number 5], title = None, field = ''y'', scaleType = None,
                        gtype = G_continuous, axisType = Some A_y, channel = None\<rparr>],
               legends = [],
               data = [[(''x'', Number 15), (''y'', Number 7)], [(''x'', Number 5), (''y'', Number 7)]],
               chart_title = None\<rparr>)
            [''x'', ''y''] None None None None None None = Inr m
       \<and> n \<in> set (childNodes m) \<and> ntype n = N_grid
       \<and> selected n = [[(''x'', Number 15), (''y'', Number 7)], [(''x'', Number 5), (''y'', Number 7)]]
       \<and> length (childNodes n) = 4
       \<and> ntype (childNodes n ! 3) = N_filteredData
       \<and> gridIndex (childNodes n ! 3) = Some (1, 1)
       \<and> filterValue (childNodes n ! 3)
           = Some (Grid (FilterRange (Number 10) (Number 20)) (FilterRange (Number 5) (Number 10)))
       \<and> selected (childNodes n ! 3) = [[(''x'', Number 15), (''y'', Number 7)]]"
proof -
  let ?rows = "[[(''x'', Number 15), (''y'', Number 7)], [(''x'', Number 5), (''y'', Number 7)]]"
  let ?ax = "\<lparr>values = [Number 0, Number 10], title = None, field = ''x'', scaleType = None,
               gtype = G_continuous, axisType = Some A_x, channel = None\<rparr>"
  let ?ay = "\<lparr>values = [Number 0, Number 5], title = None, field = ''y'', scaleType = None,
               gtype = G_continuous, axisType = Some A_y, channel = None\<rparr>"
  let ?c = "\<lparr>mark = Some ''point'', axes = [?ax, ?ay], legends = [], data = ?rows, chart_title = None\<rparr>"
  let ?R = "olliVisSpecToNode specTokens N_chart ?rows None (S_chart ?c) [''x'', ''y'']
              None None None None None None"
  have "\<not> isl ?R"
    by (rule success_chart[OF specTokens_apply]) auto
  then obtain m where m: "?R = Inr m" using not_isl_Inr by blast
  from chart_has_grid[OF m] obtain n where n: "n \<in> set (childNodes m)" "ntype n = N_grid"
    by auto
  from C6_grid_cells[OF m n] obtain xAxis yAxis where
    x: "find (\<lambda>axis. axisType axis = Some A_x) (axes ?c) = Some xAxis"
    and y: "find (\<lambda>axis. axisType axis = Some A_y) (axes ?c) = Some yAxis"
    and s: "selected n = ?rows"
    and l: "length (childNodes n)
             = length (axisValuesToIntervals (values xAxis)) * length (axisValuesToIntervals (values yAxis))"
    and cells: "\<forall>i < length (childNodes n).
              cartesian (axisValuesToIntervals (values xAxis)) (axisValuesToIntervals (values yAxis)) ! i
                = (axisValuesToIntervals (values xAxis) ! (i div length (axisValuesToIntervals (values yAxis))),
                   axisValuesToIntervals (values yAxis) ! (i mod length (axisValuesToIntervals (values yAxis))))
              \<and> (case cartesian (axisValuesToIntervals (values xAxis))
                                (axisValuesToIntervals (values yAxis)) ! i of
                   ((x1, x2), (y1, y2)) \<Rightarrow>
                     ntype (childNodes n ! i) = N_filteredData
                   \<and> gridIndex (childNodes n ! i)
                       = Some (i div length (axisValuesToIntervals (values yAxis)),
                               i mod length (axisValuesToIntervals (values yAxis)))
                   \<and> filterValue (childNodes n ! i) = Some (Grid (FilterRange x1 x2) (FilterRange y1 y2))
                   \<and> selected (childNodes n ! i)
                       = filter (\<lambda>d. d \<in> set (filterInterval ?rows (field yAxis) y1 y2))
                           (filterInterval ?rows (field xAxis) x1 x2))"
    by blast
  from x have xa: "xAxis = ?ax" by simp
  from y have ya: "yAxis = ?ay" by simp
  from l have l4: "length (childNodes n) = 4"
    by (simp add: xa ya ticks_0_10_and_0_5)
  have two: "Suc (Suc 0) = (2::nat)" by simp
  have d: "(3::nat) div Suc (Suc 0) = Suc 0" "(3::nat) mod Suc (Suc 0) = Suc 0"
    unfolding two by simp_all
  from cells[rule_format, of 3] l4
  have c3: "ntype (childNodes n ! 3) = N_filteredData
       \<and> gridIndex (childNodes n ! 3) = Some (1, 1)
       \<and> filterValue (childNodes n ! 3)
           = Some (Grid (FilterRange (Number 10) (Number 20)) (FilterRange (Number 5) (Number 10)))
       \<and> selected (childNodes n ! 3) = [[(''x'', Number 15), (''y'', Number 7)]]"
    by (clarsimp simp: xa ya ticks_0_10_and_0_5 two_rows_filtered d)
  show ?thesis
    by (rule exI[of _ m], rule exI[of _ n])
       (rule conjI[OF m conjI[OF n(1) conjI[OF n(2) conjI[OF s conjI[OF l4 c3]]]]])
qed

section \<open>The rows of a node and of its children\<close>

lemma one_row_each: "map selected cs = map (\<lambda>d. [d]) xs \<Longrightarrow> d \<in> set cs \<Longrightarrow> length (selected d) = 1"
proof -
  assume m: "map selected cs = map (\<lambda>d. [d]) xs" and d: "d \<in> set cs"
  from d have "selected d \<in> set (map selected cs)" by simp
  then have "selected d \<in> set (map (\<lambda>d. [d]) xs)" unfolding m .
  then show ?thesis by auto
qed

lemma data_rows:
  assumes "ntype d = N_data" and "childNodes d = []" and "length (selected d) = 1"
  shows "allNodes nodeRows d"
  using assms by (cases d) (simp add: nodeRows_def)

lemma bucket_rows:
  assumes "bucketOf sel c"
  shows "allNodes nodeRows c"
proof -
  from assms have t: "ntype c = N_filteredData"
    and m: "map selected (childNodes c) = map (\<lambda>d. [d]) (selected c)"
    and da: "list_all (\<lambda>d. ntype d = N_data \<and> childNodes d = []) (childNodes c)"
    by (simp_all add: bucketOf_def)
  have "concat (map selected (childNodes c)) = selected c"
    unfolding m by simp
  with t have c: "nodeRows c" by (simp add: nodeRows_def)
  have "allNodes nodeRows d" if d: "d \<in> set (childNodes c)" for d
  proof (rule data_rows)
    from da d show "ntype d = N_data" "childNodes d = []"
      by (simp_all add: list_all_iff)
    from m d show "length (selected d) = 1" by (rule one_row_each)
  qed
  then have "list_all (allNodes nodeRows) (childNodes c)"
    by (simp add: list_all_iff)
  with c show ?thesis by (cases c) simp
qed

lemma allNodesI:
  assumes "P n" and "list_all (allNodes P) (childNodes n)"
  shows "allNodes P n"
  using assms by (cases n) simp

lemma bucket_subseq: "bucketOf sel c \<Longrightarrow> subseq (selected c) sel"
  unfolding bucketOf_def by (elim conjE)

lemma guide_rows:
  assumes "olliVisSpecToNode tokensOf t sel par spec used facetValue fv guide idx len gi = Inr n"
    and "t = N_xAxis \<or> t = N_yAxis \<or> t = N_legend \<or> t = N_grid"
  shows "allNodes nodeRows n"
proof (rule allNodesI)
  from guide_children[OF assms] have b: "list_all (bucketOf sel) (childNodes n)" .
  from olliVisSpecToNode_shape[OF assms(1)] have s: "ntype n = t" "selected n = sel" by simp_all
  have "\<And>c. c \<in> set (childNodes n) \<Longrightarrow> subseq (selected c) sel"
  proof -
    fix c assume "c \<in> set (childNodes n)"
    with b have "bucketOf sel c" unfolding list_all_iff by (rule bspec)
    then show "subseq (selected c) sel" by (rule bucket_subseq)
  qed
  then have k: "list_all (\<lambda>c. subseq (selected c) sel) (childNodes n)"
    unfolding list_all_iff by (rule ballI)
  from assms(2) show "nodeRows n"
  proof (elim disjE)
    assume "t = N_xAxis" with k s show ?thesis by (simp add: nodeRows_def)
  next
    assume "t = N_yAxis" with k s show ?thesis by (simp add: nodeRows_def)
  next
    assume "t = N_legend" with k s show ?thesis by (simp add: nodeRows_def)
  next
    assume "t = N_grid" with k s show ?thesis by (simp add: nodeRows_def)
  qed
  show "list_all (allNodes nodeRows) (childNodes n)"
    unfolding list_all_iff
  proof (rule ballI)
    fix c assume "c \<in> set (childNodes n)"
    with b have "bucketOf sel c" unfolding list_all_iff by (rule bspec)
    then show "allNodes nodeRows c" by (rule bucket_rows)
  qed
qed

lemma chart_rows:
  assumes "olliVisSpecToNode tokensOf N_chart sel par spec used facetValue fv guide idx len gi = Inr m"
  shows "allNodes nodeRows m"
proof (rule allNodesI)
  from assms obtain c where c: "spec = S_chart c"
    by (cases spec) (simp_all add: olliVisSpecToNode.simps)
  from assms have m: "olliVisSpecToNode tokensOf N_chart sel par (S_chart c) used facetValue fv guide idx len gi = Inr m"
    unfolding c .
  from olliVisSpecToNode_shape[OF m] have s: "ntype m = N_chart" "selected m = sel" by simp_all
  have k: "selected n = sel \<and> allNodes nodeRows n" if n: "n \<in> set (childNodes m)" for n
  proof -
    from chart_children[OF m] n
    have "\<exists>t g. (t = N_xAxis \<or> t = N_yAxis \<or> t = N_legend \<or> t = N_grid)
                 \<and> olliVisSpecToNode tokensOf t sel (Some N_chart) (S_chart c) used facetValue
                      None g None None None = Inr n"
      unfolding list_all_iff by (rule bspec)
    then obtain t g where
      all: "(t = N_xAxis \<or> t = N_yAxis \<or> t = N_legend \<or> t = N_grid)
                 \<and> olliVisSpecToNode tokensOf t sel (Some N_chart) (S_chart c) used facetValue
                      None g None None None = Inr n"
      by (elim exE) (rule that)
    note t = all[THEN conjunct1] and b = all[THEN conjunct2]
    from olliVisSpecToNode_shape[OF b] have "selected n = sel" by simp
    then show ?thesis using guide_rows[OF b t] by (rule conjI)
  qed
  have "list_all (\<lambda>n. selected n = sel) (childNodes m)"
    unfolding list_all_iff using k by blast
  with s show "nodeRows m" by (simp add: nodeRows_def)
  show "list_all (allNodes nodeRows) (childNodes m)"
    unfolding list_all_iff using k by blast
qed

lemma multiView_built:
  assumes "olliVisSpecToNode tokensOf N_multiView sel par spec used facetValue fv guide idx len gi = Inr n"
  shows "\<exists>faceted.
           spec = S_facetedChart faceted
           \<and> mapE (\<lambda>(i, (facetValue', c)).
                   olliVisSpecToNode tokensOf N_chart
                     (filter (\<lambda>datum. String (field_of datum (facetedField faceted)) = facetValue') sel)
                     (Some N_multiView) (S_chart c) used (Some facetValue') None None
                     (Some i) (Some (length (charts faceted))) None)
                 (enumerate 0 (charts faceted)) = Inr (childNodes n)"
proof (cases spec)
  case (S_chart c)
  with assms show ?thesis by (simp add: olliVisSpecToNode.simps)
next
  case (S_facetedChart faceted)
  with assms show ?thesis
    by (auto simp: olliVisSpecToNode.simps describeNode_Inr(6) split: sum.splits)
qed

lemma subseq_filter_rows: "subseq (filter P sel) sel"
  by simp

lemma multiView_rows:
  assumes "olliVisSpecToNode tokensOf N_multiView sel par spec used facetValue fv guide idx len gi = Inr n"
  shows "allNodes nodeRows n"
proof (rule allNodesI)
  from multiView_built[OF assms] obtain faceted where
    all: "spec = S_facetedChart faceted
          \<and> mapE (\<lambda>(i, (facetValue', c)).
                   olliVisSpecToNode tokensOf N_chart
                     (filter (\<lambda>datum. String (field_of datum (facetedField faceted)) = facetValue') sel)
                     (Some N_multiView) (S_chart c) used (Some facetValue') None None
                     (Some i) (Some (length (charts faceted))) None)
                 (enumerate 0 (charts faceted)) = Inr (childNodes n)"
    by (elim exE) (rule that)
  note cs = all[THEN conjunct2]
  from olliVisSpecToNode_shape[OF assms] have s: "ntype n = N_multiView" "selected n = sel" by simp_all
  have k: "list_all (\<lambda>m. subseq (selected m) sel \<and> allNodes nodeRows m) (childNodes n)"
  proof (rule mapE_all[OF cs])
    fix a m
    assume a: "(case a of (i, facetValue', c) \<Rightarrow>
                   olliVisSpecToNode tokensOf N_chart
                     (filter (\<lambda>datum. String (field_of datum (facetedField faceted)) = facetValue') sel)
                     (Some N_multiView) (S_chart c) used (Some facetValue') None None
                     (Some i) (Some (length (charts faceted))) None) = Inr m"
    obtain i v c where e: "a = (i, v, c)" by (cases a) blast
    from a have
      m: "olliVisSpecToNode tokensOf N_chart
                     (filter (\<lambda>datum. String (field_of datum (facetedField faceted)) = v) sel)
                     (Some N_multiView) (S_chart c) used (Some v) None None
                     (Some i) (Some (length (charts faceted))) None = Inr m"
      unfolding e by simp
    from olliVisSpecToNode_shape[OF m]
    have "selected m = filter (\<lambda>datum. String (field_of datum (facetedField faceted)) = v) sel"
      by simp
    then have "subseq (selected m) sel" by (simp only: subseq_filter_rows)
    then show "subseq (selected m) sel \<and> allNodes nodeRows m"
      using chart_rows[OF m] by (rule conjI)
  qed
  then have "list_all (\<lambda>m. subseq (selected m) sel) (childNodes n)"
    unfolding list_all_iff by blast
  with s show "nodeRows n" by (simp add: nodeRows_def)
  from k show "list_all (allNodes nodeRows) (childNodes n)"
    unfolding list_all_iff by blast
qed

lemma chart_child_count:
  assumes "olliVisSpecToNode tokensOf N_chart sel par (S_chart c) used facetValue fv guide idx len gi = Inr m"
    and "mark c = Some ''point''" and "length (axes c) = 2"
    and "list_all (\<lambda>axis. gtype axis = G_continuous) (axes c)" and "legends c = []"
  shows "map selected (childNodes m) = [sel, sel, sel]"
proof -
  from assms(2) have f: "filter (\<lambda>axis. \<not> (mark c = Some ''bar'' \<and> gtype axis = G_continuous)) (axes c) = axes c"
    by simp
  from chart_built[OF assms(1), unfolded f] obtain as ls gs where
    all: "mapE (\<lambda>axis.
                   olliVisSpecToNode tokensOf (if axisType axis = Some A_x then N_xAxis else N_yAxis)
                     sel (Some N_chart) (S_chart c) used facetValue None (Some axis) None None None)
             (axes c) = Inr as
           \<and> mapE (\<lambda>l.
                   olliVisSpecToNode tokensOf N_legend
                     sel (Some N_chart) (S_chart c) used facetValue None (Some l) None None None)
               (legends c) = Inr ls
           \<and> (gs = [] \<or> (\<exists>g. gs = [g]
                  \<and> olliVisSpecToNode tokensOf N_grid
                       sel (Some N_chart) (S_chart c) used facetValue None None None None None = Inr g))
           \<and> (mark c = Some ''point'' \<and> length (axes c) = 2
                \<and> list_all (\<lambda>axis. gtype axis = G_continuous) (axes c) \<longrightarrow> gs \<noteq> [])
           \<and> childNodes m = as @ ls @ gs"
    by (elim exE) (rule that)
  note as = all[THEN conjunct1]
    and ls = all[THEN conjunct2, THEN conjunct1]
    and gs = all[THEN conjunct2, THEN conjunct2, THEN conjunct1]
    and imp = all[THEN conjunct2, THEN conjunct2, THEN conjunct2, THEN conjunct1]
    and m = all[THEN conjunct2, THEN conjunct2, THEN conjunct2, THEN conjunct2]
  from imp assms(2,3,4) have ne: "gs \<noteq> []" by simp
  from mapE_Inr_length[OF as] assms(3) have "length as = 2" by simp
  then have "\<exists>a b. as = [a, b]"
    by (auto simp: numeral_2_eq_2 length_Suc_conv)
  then obtain a b where ab: "as = [a, b]" by (elim exE)
  from ls assms(5) have l: "ls = []" by simp
  from gs ne have "\<exists>g. gs = [g]" by (elim disjE exE conjE) (simp, simp)
  then obtain g where g: "gs = [g]" by (elim exE)
  have "selected n = sel" if n: "n \<in> set (childNodes m)" for n
  proof -
    from chart_children[OF assms(1)] n
    have "\<exists>t g. (t = N_xAxis \<or> t = N_yAxis \<or> t = N_legend \<or> t = N_grid)
                 \<and> olliVisSpecToNode tokensOf t sel (Some N_chart) (S_chart c) used facetValue
                      None g None None None = Inr n"
      unfolding list_all_iff by (rule bspec)
    then obtain t g where
      all: "(t = N_xAxis \<or> t = N_yAxis \<or> t = N_legend \<or> t = N_grid)
                 \<and> olliVisSpecToNode tokensOf t sel (Some N_chart) (S_chart c) used facetValue
                      None g None None None = Inr n"
      by (elim exE) (rule that)
    from olliVisSpecToNode_shape[OF all[THEN conjunct2]] show ?thesis by simp
  qed
  then have "selected a = sel" "selected b = sel" "selected g = sel"
    unfolding m ab l g by simp_all
  then show ?thesis unfolding m ab l g by simp
qed

text \<open>
  C1 (as stated): the rows of every non-leaf node are the concatenation of the rows of
  its children. They are not: a chart node hands all of its rows to each axis, each
  legend and the grid. The scatterplot with an x axis and a y axis over the one row
  \<open>{x: 5, y: 7}\<close> has a root with that one row, and three children (the two axes and the
  grid) with that row each.
\<close>

theorem C1_chart_rows_counterexample:
  "\<not> isl (olliVisSpecToTree specTokens
            (S_chart \<lparr>mark = Some ''point'',
               axes = [\<lparr>values = [Number 0, Number 10], title = None, field = ''x'', scaleType = None,
                        gtype = G_continuous, axisType = Some A_x, channel = None\<rparr>,
                       \<lparr>values = [Number 0, Number 5], title = None, field = ''y'', scaleType = None,
                        gtype = G_continuous, axisType = Some A_y, channel = None\<rparr>],
               legends = [], data = [[(''x'', Number 5), (''y'', Number 7)]], chart_title = None\<rparr>))
   \<and> selected (root (projr (olliVisSpecToTree specTokens
            (S_chart \<lparr>mark = Some ''point'',
               axes = [\<lparr>values = [Number 0, Number 10], title = None, field = ''x'', scaleType = None,
                        gtype = G_continuous, axisType = Some A_x, channel = None\<rparr>,
                       \<lparr>values = [Number 0, Number 5], title = None, field = ''y'', scaleType = None,
                        gtype = G_continuous, axisType = Some A_y, channel = None\<rparr>],
               legends = [], data = [[(''x'', Number 5), (''y'', Number 7)]], chart_title = None\<rparr>))))
       = [[(''x'', Number 5), (''y'', Number 7)]]
   \<and> concat (map selected (childNodes (root (projr (olliVisSpecToTree specTokens
            (S_chart \<lparr>mark = Some ''point'',
               axes = [\<lparr>values = [Number 0, Number 10], title = None, field = ''x'', scaleType = None,
                        gtype = G_continuous, axisType = Some A_x, channel = None\<rparr>,
                       \<lparr>values = [Number 0, Number 5], title = None, field = ''y'', scaleType = None,
                        gtype = G_continuous, axisType = Some A_y, channel = None\<rparr>],
               legends = [], data = [[(''x'', Number 5), (''y'', Number 7)]], chart_title = None\<rparr>))))))
       = [[(''x'', Number 5), (''y'', Number 7)], [(''x'', Number 5), (''y'', Number 7)],
          [(''x'', Number 5), (''y'', Number 7)]]"
proof -
  let ?rows = "[[(''x'', Number 5), (''y'', Number 7)]]"
  let ?ax = "\<lparr>values = [Number 0, Number 10], title = None, field = ''x'', scaleType = None,
               gtype = G_continuous, axisType = Some A_x, channel = None\<rparr>"
  let ?ay = "\<lparr>values = [Number 0, Number 5], title = None, field = ''y'', scaleType = None,
               gtype = G_continuous, axisType = Some A_y, channel = None\<rparr>"
  let ?c = "\<lparr>mark = Some ''point'', axes = [?ax, ?ay], legends = [], data = ?rows, chart_title = None\<rparr>"
  let ?R = "olliVisSpecToNode specTokens N_chart ?rows None (S_chart ?c)
              (getFieldsUsedForChart (S_chart ?c)) None None None None None None"
  have "\<not> isl ?R"
    by (rule success_chart[OF specTokens_apply]) auto
  then obtain m where m: "?R = Inr m" using not_isl_Inr by blast
  then have t: "olliVisSpecToTree specTokens (S_chart ?c)
                  = Inr \<lparr>root = m, fieldsUsed = getFieldsUsedForChart (S_chart ?c)\<rparr>"
    by (simp add: olliVisSpecToTree_def Let_def)
  from olliVisSpecToNode_shape[OF m] have s: "selected m = ?rows" by simp
  from chart_child_count[OF m] have k: "map selected (childNodes m) = [?rows, ?rows, ?rows]" by simp
  show ?thesis unfolding t using s k by simp
qed

text \<open>
  C1 (amended): in every tree built by \<open>olliVisSpecToTree\<close>, the rows of a \<open>filteredData\<close>
  node are the concatenation, in child order, of the rows of its children, and a \<open>data\<close>
  node has exactly one row and no children. Each child of a \<open>chart\<close> node has all the rows
  of the chart node, and each child of any other node (the root of a faceted chart, an
  axis, a legend, a grid) has an order-preserving subsequence of the rows of the node.
\<close>

theorem C1_rows_of_children:
  assumes "olliVisSpecToTree tokensOf spec = Inr tree"
  shows "allNodes nodeRows (root tree)"
proof (cases spec)
  case (S_chart c)
  with assms obtain m where
    m: "olliVisSpecToNode tokensOf N_chart (data c) None spec (getFieldsUsedForChart spec)
       None None None None None None = Inr m" and r: "root tree = m"
    by (auto simp: olliVisSpecToTree_def Let_def split: sum.splits)
  from chart_rows[OF m] show ?thesis unfolding r .
next
  case (S_facetedChart f)
  with assms obtain m where
    m: "olliVisSpecToNode tokensOf N_multiView (faceted_data f) None spec (getFieldsUsedForChart spec)
       None None None None None None = Inr m" and r: "root tree = m"
    by (auto simp: olliVisSpecToTree_def Let_def split: sum.splits)
  from multiView_rows[OF m] show ?thesis unfolding r .
qed

text \<open>
  The witness: the line chart with the x ticks 10, 20 and 30 over the row \<open>{p: 15}\<close>, with
  the token table modelled from the spec.
\<close>

theorem C1_rows_of_children_witness:
  "\<exists>tree. olliVisSpecToTree specTokens
            (S_chart \<lparr>mark = Some ''line'',
                      axes = [\<lparr>values = [Number 10, Number 20, Number 30], title = None, field = ''p'',
                               scaleType = None, gtype = G_continuous, axisType = Some A_x,
                               channel = None\<rparr>],
                      legends = [], data = [[(''p'', Number 15)]], chart_title = None\<rparr>) = Inr tree
          \<and> allNodes nodeRows (root tree)"
proof -
  let ?spec = "S_chart \<lparr>mark = Some ''line'',
                      axes = [\<lparr>values = [Number 10, Number 20, Number 30], title = None, field = ''p'',
                               scaleType = None, gtype = G_continuous, axisType = Some A_x,
                               channel = None\<rparr>],
                      legends = [], data = [[(''p'', Number 15)]], chart_title = None\<rparr>"
  have "\<not> isl (olliVisSpecToTree specTokens ?spec)"
    by (rule success_chart_tree[OF specTokens_apply]) simp_all
  then obtain tree where t: "olliVisSpecToTree specTokens ?spec = Inr tree"
    using not_isl_Inr by blast
  show ?thesis
    by (rule exI[of _ tree]) (rule conjI[OF t C1_rows_of_children[OF t]])
qed

end
